(* ===== verification/Prelude.thy ===== *)
theory Prelude
  imports Main "HOL-Library.Word"
begin

text \<open>
  Shared vocabulary of the development: the fixed-width integers of the C++ code, bit
  fields of 32-bit words, little-endian byte strings (the contents of a data buffer), and
  the lemma collections the component theories extend.
\<close>

unbundle bit_operations_syntax

section \<open>Machine integers\<close>

type_synonym u8 = "8 word"
type_synonym u16 = "16 word"
type_synonym u32 = "32 word"
type_synonym u64 = "64 word"

named_theorems field_simps32 "bit fields of instruction words"
named_theorems byte_simps "little-endian byte strings"

section \<open>Bit fields\<close>

text \<open>
  \<open>bits_at off n w\<close> is the unsigned field of \<open>n\<close> bits of \<open>w\<close> whose least significant
  bit is bit \<open>off\<close>.
\<close>

definition bits_at :: "nat \<Rightarrow> nat \<Rightarrow> u32 \<Rightarrow> u32" where
  "bits_at off n w = take_bit n (drop_bit off w)"

lemma bit_bits_at [bit_simps]:
  "bit (bits_at off n w) i \<longleftrightarrow> i < n \<and> bit w (off + i)"
  by (auto simp: bits_at_def bit_simps)

lemma unat_bits_at_less: "unat (bits_at off n w) < 2 ^ n"
  by (simp add: bits_at_def unsigned_take_bit_eq)

lemma bits_at_mask:
  assumes "bits_at off n w = v"
  shows "w AND push_bit off (mask n) = push_bit off v"
proof (rule bit_word_eqI)
  fix i assume "i < LENGTH(32)"
  then show "bit (w AND push_bit off (mask n)) i = bit (push_bit off v) i"
    using assms by (auto simp: bit_simps)
qed

text \<open>Two masked readings of one word agree where the masks overlap.\<close>

lemma masks_agree:
  fixes w :: u32
  assumes "w AND m1 = v1" and "w AND m2 = v2"
  shows "v1 AND m2 = v2 AND m1"
  using assms by (metis and.assoc and.commute)

subsection \<open>Sign extension\<close>

lemma push_bit_double: "push_bit n (a * 2) = push_bit (Suc n) (a :: u32)"
  by (simp add: push_bit_Suc)

lemma sint_signed_take_bit:
  fixes v :: u32
  assumes "n < 31"
  shows "sint (signed_take_bit n v) = signed_take_bit n (sint v)"
  by (rule bit_eqI) (use assms in \<open>auto simp: bit_simps min_def\<close>)

lemma sint_signed_take_bit_bounds:
  fixes v :: u32
  assumes "n < 31"
  shows "- (2 ^ n) \<le> sint (signed_take_bit n v) \<and> sint (signed_take_bit n v) \<le> 2 ^ n - 1"
proof -
  have "sint (signed_take_bit n v) < 2 ^ n"
    unfolding sint_signed_take_bit [OF assms] by (simp add: signed_take_bit_int_less_exp)
  then show ?thesis
    unfolding sint_signed_take_bit [OF assms]
    by (simp add: signed_take_bit_int_greater_eq_minus_exp)
qed

lemma even_sint_signed_take_bit:
  fixes v :: u32
  assumes "0 < n" and "n < 31"
  shows "even (sint (signed_take_bit n v)) \<longleftrightarrow> even v"
proof -
  have "bit (sint (signed_take_bit n v)) 0 = bit v 0"
    using assms by (simp add: bit_simps del: bit_0)
  then show ?thesis by (simp add: bit_0)
qed

lemma even_push_bit_or: "0 < n \<Longrightarrow> even (push_bit n a OR b) \<longleftrightarrow> even b" for a b :: u32
  by (simp add: even_or_iff)

subsection \<open>Widths\<close>

lemma take_bit_32_64_add:
  "take_bit 32 (take_bit 64 a + take_bit 64 b) = take_bit 32 (a + b)" for a b :: int
proof -
  have "take_bit 32 (take_bit 64 a + take_bit 64 b) =
      take_bit 32 (take_bit 32 (take_bit 64 a) + take_bit 32 (take_bit 64 b))"
    by (simp only: take_bit_add)
  also have "\<dots> = take_bit 32 (take_bit 32 a + take_bit 32 b)" by simp
  finally show ?thesis by (simp only: take_bit_add)
qed

lemma ucast_add_64_32: "(ucast (a + b :: u64) :: u32) = ucast a + ucast b"
  by transfer (simp add: take_bit_32_64_add take_bit_add)
lemma ucast_32_64_32 [simp]: "(ucast (ucast (a :: u32) :: u64) :: u32) = a"
  by transfer simp
lemma ucast_of_nat_64_32 [simp]: "(ucast (of_nat n :: u64) :: u32) = of_nat n"
  by transfer simp

section \<open>Little-endian byte strings\<close>

text \<open>
  A data buffer holds raw bytes; its typed accessors read and write them in the byte order
  of the host, which is little-endian on the hosts the simulator is built for.
\<close>

fun le_bytes :: "nat \<Rightarrow> 'a::len word \<Rightarrow> u8 list" where
  "le_bytes 0 w = []"
| "le_bytes (Suc n) w = ucast w # le_bytes n (drop_bit 8 w)"

fun le_word :: "u8 list \<Rightarrow> 'a::len word" where
  "le_word [] = 0"
| "le_word (b # bs) = ucast b OR push_bit 8 (le_word bs)"

lemma length_le_bytes [simp]: "length (le_bytes n w) = n"
  by (induction n arbitrary: w) auto

lemma le_word_le_bytes [byte_simps]:
  fixes w :: "'a::len word"
  shows "le_word (le_bytes n w) = take_bit (8 * n) w"
proof (induction n arbitrary: w)
  case 0
  then show ?case by simp
next
  case (Suc n)
  show ?case
    by (rule bit_word_eqI)
       (auto simp: Suc bit_simps not_less dest: bit_imp_le_length)
qed

lemma le_word32_le_bytes [simp]: "le_word (le_bytes 4 (w :: u32)) = w"
  by (simp add: byte_simps take_bit_length_eq [where ?'a = 32, simplified])

lemma nth_le_bytes: "i < n \<Longrightarrow> le_bytes n w ! i = ucast (drop_bit (8 * i) w)"
proof (induction n arbitrary: w i)
  case (Suc n)
  then show ?case by (cases i) (simp_all add: add.commute)
qed simp

lemma bit_le_word:
  "bit (le_word bs :: 'a::len word) j \<longleftrightarrow>
     j < LENGTH('a) \<and> j div 8 < length bs \<and> bit (bs ! (j div 8)) (j mod 8)"
proof (induction bs arbitrary: j)
  case (Cons b bs)
  show ?case
  proof (cases "j < 8")
    case True
    then show ?thesis by (auto simp: bit_simps)
  next
    case False
    then have "j div 8 = Suc ((j - 8) div 8)" "j mod 8 = (j - 8) mod 8"
      by (simp_all add: le_div_geq le_mod_geq)
    with False show ?thesis
      by (auto simp: bit_simps Cons.IH dest: bit_imp_le_length)
  qed
qed simp

lemma le_bytes_le_word32: "length bs = 4 \<Longrightarrow> le_bytes 4 (le_word bs :: u32) = bs"
proof (rule nth_equalityI)
  fix i assume len: "length bs = 4" and i: "i < length (le_bytes 4 (le_word bs :: u32))"
  show "le_bytes 4 (le_word bs :: u32) ! i = bs ! i"
  proof (rule bit_word_eqI)
    fix n assume "n < LENGTH(8)"
    then have n: "n < 8" "(8 * i + n) div 8 = i" "(8 * i + n) mod 8 = n" by simp_all
    then show "bit (le_bytes 4 (le_word bs :: u32) ! i) n = bit (bs ! i) n"
      using i len by (simp add: nth_le_bytes bit_simps bit_le_word)
  qed
qed simp

section \<open>Numerals\<close>

text \<open>The decimal digits of a number, as \<^verbatim>\<open>absl::StrCat\<close> prints an \<^verbatim>\<open>int\<close>.\<close>

definition digit_char :: "nat \<Rightarrow> char" where
  "digit_char d = ''0123456789abcdef'' ! d"

fun dec_str :: "nat \<Rightarrow> string" where
  "dec_str n = (if n < 10 then [digit_char n] else dec_str (n div 10) @ [digit_char (n mod 10)])"

text \<open>The hexadecimal digits, as \<^verbatim>\<open>absl::Hex\<close> prints them.\<close>

fun hex_str :: "nat \<Rightarrow> string" where
  "hex_str n = (if n < 16 then [digit_char n] else hex_str (n div 16) @ [digit_char (n mod 16)])"

declare dec_str.simps [simp del] hex_str.simps [simp del]

section \<open>Status values\<close>

text \<open>The \<^verbatim>\<open>absl::Status\<close> codes the code returns, with their messages;
  \<^verbatim>\<open>absl::StatusOr<T>\<close> is \<open>status + 'a\<close>.\<close>

datatype status =
    OkStatus
  | NotFoundError string
  | FailedPreconditionError string
  | InvalidArgumentError string
  | InternalError string

definition status_ok :: "status \<Rightarrow> bool" where
  "status_ok st \<longleftrightarrow> st = OkStatus"

lemma status_ok_simps [simp]:
  "status_ok OkStatus" "\<not> status_ok (NotFoundError m)" "\<not> status_ok (FailedPreconditionError m)"
  "\<not> status_ok (InvalidArgumentError m)" "\<not> status_ok (InternalError m)"
  by (simp_all add: status_ok_def)

section \<open>Aligned words of memory\<close>

lemma in_word:
  fixes a d :: u64
  assumes "a AND 3 = 0" and "unat d < 4"
  shows "(a + d) AND NOT 3 = a" "(a + d) AND 3 = d"
proof -
  have m: "(3 :: u64) = mask 2" by (simp add: mask_eq_exp_minus_1)
  have a: "\<not> bit a n" if "n < 2" for n
    using assms(1) that unfolding m by (metis bit_and_iff bit_0_eq bot_apply bot_bool_def bit_mask_iff exp_eq_0_imp_not_bit bit_imp_possible_bit possible_bit_word)
  have "d = take_bit 2 d"
    using assms(2) by (simp add: word_unat_eq_iff unsigned_take_bit_eq take_bit_nat_eq_self)
  then have d: "bit d n \<Longrightarrow> n < 2" for n by (metis bit_take_bit_iff)
  have or: "a + d = a OR d"
    by (rule disjunctive_add) (use a d in blast)
  show "(a + d) AND NOT 3 = a" "(a + d) AND 3 = d"
    unfolding or m by (rule bit_word_eqI; use a d in \<open>auto simp: bit_simps\<close>)+
qed

lemma in_word_iff:
  fixes a y :: u64
  assumes "a AND 3 = 0"
  shows "unat (y - a) < 4 \<longleftrightarrow> y AND NOT 3 = a"
proof
  assume "unat (y - a) < 4"
  then show "y AND NOT 3 = a" using in_word(1) [OF assms, of "y - a"] by simp
next
  assume y: "y AND NOT 3 = a"
  have "y = (y AND NOT 3) + (y AND 3)"
    by (subst disjunctive_add) (auto simp: bit_simps intro!: bit_word_eqI)
  then have "y - a = y AND 3" using y by (metis add_diff_cancel_left')
  moreover have "y AND 3 = take_bit 2 y" by (simp add: take_bit_eq_mask mask_eq_exp_minus_1)
  ultimately show "unat (y - a) < 4"
    by (simp add: unsigned_take_bit_eq) (metis take_bit_nat_less_exp numeral_Bit0 power2_eq_square mult_2_right numeral_plus_numeral add_One)
qed

lemma small_nat: "i < 4 \<Longrightarrow> unat (of_nat i :: u64) = i"
  by (simp add: unsigned_of_nat take_bit_nat_eq_self)

lemma offset_in_word:
  assumes "a AND 3 = 0" and "i < 4"
  shows "(a + of_nat i) AND NOT 3 = a" "(a + of_nat i) AND - 4 = a"
    "(a + of_nat i) AND 3 = (of_nat i :: u64)"
  using in_word [OF assms(1), of "of_nat i"] assms(2) by (simp_all add: small_nat)

section \<open>Runs\<close>

lemma relpowp_prefix: "(R ^^ n) a b \<Longrightarrow> j \<le> n \<Longrightarrow> \<exists>c. (R ^^ j) a c" for R :: "'s \<Rightarrow> 's \<Rightarrow> bool"
  using relpowp_add [of j "n - j" R] by (auto simp: relcompp_apply)

end
