(* ===== verification/Bin_Decoder.thy ===== *)
theory Bin_Decoder
  imports Prelude
begin

text \<open>
  The binary decoder: the formats and the instruction group of
  \<^verbatim>\<open>riscv_bin_decoder/solution/riscv32i.bin_fmt\<close>. A format lists its fields from the most
  significant bit down, its overlays rename or recombine bits of the fields; an entry of the
  instruction group names an opcode, a format and the constraints on that format's fields.
  The description is kept as data (one constant per \<^verbatim>\<open>format\<close> block and one for the group);
  \<open>extract_field\<close> and \<open>DecodeRiscVInst32\<close> read it the way the description language is
  defined, and are the \<^verbatim>\<open>Extract...\<close> and \<^verbatim>\<open>DecodeRiscVInst32\<close> functions that
  \<^verbatim>\<open>riscv32i_encoding.cc\<close> calls.
\<close>

section \<open>Opcodes\<close>

text \<open>The enumeration of the opcodes of \<^verbatim>\<open>riscv32i.isa\<close>, in the file's order, after
  \<^verbatim>\<open>kNone\<close> (no instruction matched).\<close>

datatype OpcodeEnum =
    kNone
  | kAdd | kAnd | kOr | kSll | kSltu | kSub | kXor
  | kAddi | kAndi | kOri | kXori
  | kSlli | kSrai | kSrli
  | kAuipc | kLui
  | kBeq | kBge | kBgeu | kBlt | kBltu | kBne
  | kJal | kJalr
  | kSb | kSh | kSw
  | kLb | kLbu | kLh | kLhu | kLw
  | kFence | kEbreak
  | kCsrs | kCsrwNr | kCsrsNw

section \<open>The description language\<close>

datatype signedness = Unsigned | Signed

record field =
  f_sign :: signedness
  f_name :: string
  f_width :: nat

abbreviation uns :: "string \<Rightarrow> nat \<Rightarrow> field" where
  "uns n k \<equiv> \<lparr>f_sign = Unsigned, f_name = n, f_width = k\<rparr>"

abbreviation sgd :: "string \<Rightarrow> nat \<Rightarrow> field" where
  "sgd n k \<equiv> \<lparr>f_sign = Signed, f_name = n, f_width = k\<rparr>"

text \<open>A piece of an overlay: a whole field, a bit range \<open>[hi..lo]\<close> of a field, or a
  literal of a number of bits.\<close>

datatype piece = Whole string | Range string nat nat | Lit nat u32

record overlay =
  o_field :: field
  o_pieces :: "piece list"

record format =
  base :: "string option"
  fmt_fields :: "field list"
  overlays :: "overlay list"

text \<open>A constraint compares a field with a literal, by \<open>==\<close> or by \<open>!=\<close>.\<close>

datatype constraint = Eq string u32 | Ne string u32

record entry =
  e_opcode :: OpcodeEnum
  e_format :: format
  e_constraints :: "constraint list"

section \<open>The formats\<close>

definition Inst32Format :: format where
  "Inst32Format = \<lparr>base = None, fmt_fields = [uns ''bits'' 25, uns ''opcode'' 7], overlays = []\<rparr>"

definition RType :: format where
  "RType = \<lparr>base = Some ''Inst32Format'',
     fmt_fields = [uns ''func7'' 7, uns ''rs2'' 5, uns ''rs1'' 5, uns ''func3'' 3, uns ''rd'' 5,
                   uns ''opcode'' 7],
     overlays = [\<lparr>o_field = uns ''uimm5'' 5, o_pieces = [Whole ''rs2'']\<rparr>]\<rparr>"

definition IType :: format where
  "IType = \<lparr>base = Some ''Inst32Format'',
     fmt_fields = [sgd ''imm12'' 12, uns ''rs1'' 5, uns ''func3'' 3, uns ''rd'' 5, uns ''opcode'' 7],
     overlays = []\<rparr>"

definition UType :: format where
  "UType = \<lparr>base = Some ''Inst32Format'',
     fmt_fields = [uns ''uimm20'' 20, uns ''rd'' 5, uns ''opcode'' 7],
     overlays = [\<lparr>o_field = uns ''uimm32'' 32, o_pieces = [Whole ''uimm20'', Lit 12 0]\<rparr>]\<rparr>"

definition BType :: format where
  "BType = \<lparr>base = Some ''Inst32Format'',
     fmt_fields = [uns ''imm7'' 7, uns ''rs2'' 5, uns ''rs1'' 5, uns ''func3'' 3, uns ''imm5'' 5,
                   uns ''opcode'' 7],
     overlays = [\<lparr>o_field = sgd ''b_imm'' 13,
                  o_pieces = [Range ''imm7'' 6 6, Range ''imm5'' 0 0, Range ''imm7'' 5 0,
                              Range ''imm5'' 4 1, Lit 1 0]\<rparr>]\<rparr>"

definition JType :: format where
  "JType = \<lparr>base = Some ''Inst32Format'',
     fmt_fields = [uns ''imm20'' 20, uns ''rd'' 5, uns ''opcode'' 7],
     overlays = [\<lparr>o_field = sgd ''j_imm'' 21,
                  o_pieces = [Range ''imm20'' 19 19, Range ''imm20'' 7 0, Range ''imm20'' 8 8,
                              Range ''imm20'' 18 9, Lit 1 0]\<rparr>]\<rparr>"

definition SType :: format where
  "SType = \<lparr>base = Some ''Inst32Format'',
     fmt_fields = [uns ''imm7'' 7, uns ''rs2'' 5, uns ''rs1'' 5, uns ''func3'' 3, uns ''imm5'' 5,
                   uns ''opcode'' 7],
     overlays = [\<lparr>o_field = sgd ''s_imm'' 12, o_pieces = [Whole ''imm7'', Whole ''imm5'']\<rparr>]\<rparr>"

definition FenceFormat :: format where
  "FenceFormat = \<lparr>base = Some ''Inst32Format'',
     fmt_fields = [uns ''fm'' 4, uns ''pred'' 4, uns ''succ'' 4, uns ''rs1'' 5, uns ''func3'' 3,
                   uns ''rd'' 5, uns ''opcode'' 7],
     overlays = []\<rparr>"

definition all_formats :: "format list" where
  "all_formats = [Inst32Format, RType, IType, UType, BType, JType, SType, FenceFormat]"

section \<open>The instruction group\<close>

text \<open>The group \<^verbatim>\<open>RiscVInst32\<close>, entry by entry and in the file's order.\<close>

definition RiscVInst32 :: "entry list" where
  "RiscVInst32 =
    [\<lparr>e_opcode = kAdd, e_format = RType,
       e_constraints = [Eq ''func7'' 0, Eq ''func3'' 0b000, Eq ''opcode'' 0b0110011]\<rparr>,
     \<lparr>e_opcode = kAnd, e_format = RType,
       e_constraints = [Eq ''func7'' 0, Eq ''func3'' 0b111, Eq ''opcode'' 0b0110011]\<rparr>,
     \<lparr>e_opcode = kOr, e_format = RType,
       e_constraints = [Eq ''func7'' 0, Eq ''func3'' 0b110, Eq ''opcode'' 0b0110011]\<rparr>,
     \<lparr>e_opcode = kSll, e_format = RType,
       e_constraints = [Eq ''func7'' 0, Eq ''func3'' 0b001, Eq ''opcode'' 0b0110011]\<rparr>,
     \<lparr>e_opcode = kSltu, e_format = RType,
       e_constraints = [Eq ''func7'' 0, Eq ''func3'' 0b011, Eq ''opcode'' 0b0110011]\<rparr>,
     \<lparr>e_opcode = kSub, e_format = RType,
       e_constraints = [Eq ''func7'' 0b0100000, Eq ''func3'' 0b000, Eq ''opcode'' 0b0110011]\<rparr>,
     \<lparr>e_opcode = kXor, e_format = RType,
       e_constraints = [Eq ''func7'' 0, Eq ''func3'' 0b100, Eq ''opcode'' 0b0110011]\<rparr>,
     \<lparr>e_opcode = kAddi, e_format = IType,
       e_constraints = [Eq ''func3'' 0b000, Eq ''opcode'' 0b0010011]\<rparr>,
     \<lparr>e_opcode = kAndi, e_format = IType,
       e_constraints = [Eq ''func3'' 0b111, Eq ''opcode'' 0b0010011]\<rparr>,
     \<lparr>e_opcode = kOri, e_format = IType,
       e_constraints = [Eq ''func3'' 0b110, Eq ''opcode'' 0b0010011]\<rparr>,
     \<lparr>e_opcode = kXori, e_format = IType,
       e_constraints = [Eq ''func3'' 0b100, Eq ''opcode'' 0b0010011]\<rparr>,
     \<lparr>e_opcode = kSlli, e_format = RType,
       e_constraints = [Eq ''func7'' 0, Eq ''func3'' 0b001, Eq ''opcode'' 0b0010011]\<rparr>,
     \<lparr>e_opcode = kSrai, e_format = RType,
       e_constraints = [Eq ''func7'' 0b0100000, Eq ''func3'' 0b101, Eq ''opcode'' 0b0010011]\<rparr>,
     \<lparr>e_opcode = kSrli, e_format = RType,
       e_constraints = [Eq ''func7'' 0, Eq ''func3'' 0b101, Eq ''opcode'' 0b0010011]\<rparr>,
     \<lparr>e_opcode = kAuipc, e_format = UType, e_constraints = [Eq ''opcode'' 0b0010111]\<rparr>,
     \<lparr>e_opcode = kLui, e_format = UType, e_constraints = [Eq ''opcode'' 0b0110111]\<rparr>,
     \<lparr>e_opcode = kBeq, e_format = BType,
       e_constraints = [Eq ''opcode'' 0b1100011, Eq ''func3'' 0b000]\<rparr>,
     \<lparr>e_opcode = kBge, e_format = BType,
       e_constraints = [Eq ''opcode'' 0b1100011, Eq ''func3'' 0b101]\<rparr>,
     \<lparr>e_opcode = kBgeu, e_format = BType,
       e_constraints = [Eq ''opcode'' 0b1100011, Eq ''func3'' 0b111]\<rparr>,
     \<lparr>e_opcode = kBlt, e_format = BType,
       e_constraints = [Eq ''opcode'' 0b1100011, Eq ''func3'' 0b100]\<rparr>,
     \<lparr>e_opcode = kBltu, e_format = BType,
       e_constraints = [Eq ''opcode'' 0b1100011, Eq ''func3'' 0b110]\<rparr>,
     \<lparr>e_opcode = kBne, e_format = BType,
       e_constraints = [Eq ''opcode'' 0b1100011, Eq ''func3'' 0b001]\<rparr>,
     \<lparr>e_opcode = kJal, e_format = JType, e_constraints = [Eq ''opcode'' 0b1101111]\<rparr>,
     \<lparr>e_opcode = kJalr, e_format = IType,
       e_constraints = [Eq ''opcode'' 0b1100111, Eq ''func3'' 0b000]\<rparr>,
     \<lparr>e_opcode = kSb, e_format = SType,
       e_constraints = [Eq ''opcode'' 0b0100011, Eq ''func3'' 0b000]\<rparr>,
     \<lparr>e_opcode = kSh, e_format = SType,
       e_constraints = [Eq ''opcode'' 0b0100011, Eq ''func3'' 0b001]\<rparr>,
     \<lparr>e_opcode = kSw, e_format = SType,
       e_constraints = [Eq ''opcode'' 0b0100011, Eq ''func3'' 0b010]\<rparr>,
     \<lparr>e_opcode = kLb, e_format = IType,
       e_constraints = [Eq ''opcode'' 0b0000011, Eq ''func3'' 0b000]\<rparr>,
     \<lparr>e_opcode = kLbu, e_format = IType,
       e_constraints = [Eq ''opcode'' 0b0000011, Eq ''func3'' 0b100]\<rparr>,
     \<lparr>e_opcode = kLh, e_format = IType,
       e_constraints = [Eq ''opcode'' 0b0000011, Eq ''func3'' 0b001]\<rparr>,
     \<lparr>e_opcode = kLhu, e_format = IType,
       e_constraints = [Eq ''opcode'' 0b0000011, Eq ''func3'' 0b101]\<rparr>,
     \<lparr>e_opcode = kLw, e_format = IType,
       e_constraints = [Eq ''opcode'' 0b0000011, Eq ''func3'' 0b010]\<rparr>,
     \<lparr>e_opcode = kFence, e_format = FenceFormat,
       e_constraints = [Eq ''func3'' 0b000, Eq ''opcode'' 0b0001111]\<rparr>,
     \<lparr>e_opcode = kEbreak, e_format = Inst32Format,
       e_constraints = [Eq ''bits'' 0b0000000000010000000000000, Eq ''opcode'' 0b1110011]\<rparr>,
     \<lparr>e_opcode = kCsrs, e_format = IType,
       e_constraints = [Eq ''func3'' 0b010, Ne ''rs1'' 0, Eq ''opcode'' 0b1110011]\<rparr>,
     \<lparr>e_opcode = kCsrwNr, e_format = IType,
       e_constraints = [Eq ''func3'' 0b001, Eq ''rd'' 0, Eq ''opcode'' 0b1110011]\<rparr>,
     \<lparr>e_opcode = kCsrsNw, e_format = IType,
       e_constraints = [Eq ''func3'' 0b010, Eq ''rs1'' 0, Eq ''opcode'' 0b1110011]\<rparr>]"

section \<open>Reading a description\<close>

text \<open>The lowest bit and the declaration of a field: fields are listed from the top.\<close>

fun field_at :: "field list \<Rightarrow> string \<Rightarrow> (nat \<times> field) option" where
  "field_at [] n = None"
| "field_at (f # fs) n =
     (if f_name f = n then Some (sum_list (map f_width fs), f) else field_at fs n)"

fun overlay_at :: "overlay list \<Rightarrow> string \<Rightarrow> overlay option" where
  "overlay_at [] n = None"
| "overlay_at (ov # ovs) n = (if f_name (o_field ov) = n then Some ov else overlay_at ovs n)"

text \<open>The bits a piece contributes: how many, and their value.\<close>

fun piece_bits :: "format \<Rightarrow> u32 \<Rightarrow> piece \<Rightarrow> (nat \<times> u32) option" where
  "piece_bits fmt w (Whole n) =
     map_option (\<lambda>(off, f). (f_width f, bits_at off (f_width f) w)) (field_at (fmt_fields fmt) n)"
| "piece_bits fmt w (Range n hi lo) =
     map_option (\<lambda>(off, f). (hi + 1 - lo, bits_at (off + lo) (hi + 1 - lo) w))
       (field_at (fmt_fields fmt) n)"
| "piece_bits fmt w (Lit k v) = Some (k, v)"

fun concat_pieces :: "format \<Rightarrow> u32 \<Rightarrow> piece list \<Rightarrow> u32 \<Rightarrow> u32 option" where
  "concat_pieces fmt w [] acc = Some acc"
| "concat_pieces fmt w (p # ps) acc =
     (case piece_bits fmt w p of
        None \<Rightarrow> None
      | Some (k, v) \<Rightarrow> concat_pieces fmt w ps (push_bit k acc OR v))"

definition extend :: "field \<Rightarrow> u32 \<Rightarrow> u32" where
  "extend f v = (case f_sign f of Unsigned \<Rightarrow> v | Signed \<Rightarrow> signed_take_bit (f_width f - 1) v)"

text \<open>The value of a field or overlay, as the 32-bit pattern the generated extractor
  returns (sign extended when declared \<^verbatim>\<open>signed\<close>); \<open>None\<close> for an unknown name.\<close>

definition extract_field :: "format \<Rightarrow> string \<Rightarrow> u32 \<Rightarrow> u32 option" where
  "extract_field fmt n w =
     (case field_at (fmt_fields fmt) n of
        Some (off, f) \<Rightarrow> Some (extend f (bits_at off (f_width f) w))
      | None \<Rightarrow>
          (case overlay_at (overlays fmt) n of
             Some ov \<Rightarrow> map_option (extend (o_field ov)) (concat_pieces fmt w (o_pieces ov) 0)
           | None \<Rightarrow> None))"

fun holds :: "format \<Rightarrow> u32 \<Rightarrow> constraint \<Rightarrow> bool" where
  "holds fmt w (Eq n v) =
     (case field_at (fmt_fields fmt) n of
        Some (off, f) \<Rightarrow> bits_at off (f_width f) w = v | None \<Rightarrow> False)"
| "holds fmt w (Ne n v) =
     (case field_at (fmt_fields fmt) n of
        Some (off, f) \<Rightarrow> bits_at off (f_width f) w \<noteq> v | None \<Rightarrow> False)"

definition matches :: "u32 \<Rightarrow> entry \<Rightarrow> bool" where
  "matches w e \<longleftrightarrow> list_all (holds (e_format e) w) (e_constraints e)"

definition DecodeRiscVInst32 :: "u32 \<Rightarrow> OpcodeEnum" where
  "DecodeRiscVInst32 w =
     (case find (matches w) RiscVInst32 of Some e \<Rightarrow> e_opcode e | None \<Rightarrow> kNone)"

text \<open>The extractors \<^verbatim>\<open>riscv32i_encoding.cc\<close> calls.\<close>

definition ExtractRd :: "u32 \<Rightarrow> u32" where
  "ExtractRd w = the (extract_field RType ''rd'' w)"

definition ExtractRs1 :: "u32 \<Rightarrow> u32" where
  "ExtractRs1 w = the (extract_field RType ''rs1'' w)"

definition ExtractRs2 :: "u32 \<Rightarrow> u32" where
  "ExtractRs2 w = the (extract_field RType ''rs2'' w)"

definition ExtractUimm5 :: "u32 \<Rightarrow> u32" where
  "ExtractUimm5 w = the (extract_field RType ''uimm5'' w)"

definition ExtractImm12 :: "u32 \<Rightarrow> u32" where
  "ExtractImm12 w = the (extract_field IType ''imm12'' w)"

definition ExtractUimm32 :: "u32 \<Rightarrow> u32" where
  "ExtractUimm32 w = the (extract_field UType ''uimm32'' w)"

definition ExtractBImm :: "u32 \<Rightarrow> u32" where
  "ExtractBImm w = the (extract_field BType ''b_imm'' w)"

definition ExtractJImm :: "u32 \<Rightarrow> u32" where
  "ExtractJImm w = the (extract_field JType ''j_imm'' w)"

definition ExtractSImm :: "u32 \<Rightarrow> u32" where
  "ExtractSImm w = the (extract_field SType ''s_imm'' w)"

section \<open>The description is well formed\<close>

lemmas format_defs =
  Inst32Format_def RType_def IType_def UType_def BType_def JType_def SType_def FenceFormat_def

text \<open>
  What the generator of the decoder insists on: the fields of a format fill its 32 bits, an
  overlay has as many bits as it declares and is built from existing bits of existing fields,
  names are not declared twice, and the fields \<^verbatim>\<open>opcode\<close> of all formats lie at the bottom,
  so that each refines the generic format it extends.
\<close>

fun piece_ok :: "format \<Rightarrow> piece \<Rightarrow> bool" where
  "piece_ok fmt (Whole n) \<longleftrightarrow> field_at (fmt_fields fmt) n \<noteq> None"
| "piece_ok fmt (Range n hi lo) \<longleftrightarrow>
     (case field_at (fmt_fields fmt) n of Some (off, f) \<Rightarrow> lo \<le> hi \<and> hi < f_width f | None \<Rightarrow> False)"
| "piece_ok fmt (Lit k v) \<longleftrightarrow> take_bit k v = v"

fun piece_width :: "format \<Rightarrow> piece \<Rightarrow> nat" where
  "piece_width fmt (Whole n) =
     (case field_at (fmt_fields fmt) n of Some (off, f) \<Rightarrow> f_width f | None \<Rightarrow> 0)"
| "piece_width fmt (Range n hi lo) = hi + 1 - lo"
| "piece_width fmt (Lit k v) = k"

definition overlay_ok :: "format \<Rightarrow> overlay \<Rightarrow> bool" where
  "overlay_ok fmt ov \<longleftrightarrow>
     list_all (piece_ok fmt) (o_pieces ov) \<and>
     sum_list (map (piece_width fmt) (o_pieces ov)) = f_width (o_field ov) \<and>
     f_width (o_field ov) \<le> 32"

definition format_ok :: "format \<Rightarrow> bool" where
  "format_ok fmt \<longleftrightarrow>
     sum_list (map f_width (fmt_fields fmt)) = 32 \<and>
     distinct (map f_name (fmt_fields fmt) @ map (f_name \<circ> o_field) (overlays fmt)) \<and>
     field_at (fmt_fields fmt) ''opcode'' = Some (0, uns ''opcode'' 7) \<and>
     list_all (overlay_ok fmt) (overlays fmt)"

fun constraint_ok :: "format \<Rightarrow> constraint \<Rightarrow> bool" where
  "constraint_ok fmt (Eq n v) \<longleftrightarrow>
     (case field_at (fmt_fields fmt) n of
        Some (off, f) \<Rightarrow> take_bit (f_width f) v = v | None \<Rightarrow> False)"
| "constraint_ok fmt (Ne n v) \<longleftrightarrow>
     (case field_at (fmt_fields fmt) n of
        Some (off, f) \<Rightarrow> take_bit (f_width f) v = v | None \<Rightarrow> False)"

definition entry_ok :: "entry \<Rightarrow> bool" where
  "entry_ok e \<longleftrightarrow>
     format_ok (e_format e) \<and> list_all (constraint_ok (e_format e)) (e_constraints e)"

lemma formats_ok:
  "format_ok Inst32Format" "format_ok RType" "format_ok IType" "format_ok UType"
  "format_ok BType" "format_ok JType" "format_ok SType" "format_ok FenceFormat"
  by (simp_all add: format_ok_def overlay_ok_def format_defs)

lemma entries_ok: "list_all entry_ok RiscVInst32"
  by (simp add: RiscVInst32_def entry_ok_def formats_ok) (simp add: format_defs)

section \<open>One entry at most matches\<close>

text \<open>
  The equalities of an entry, folded into one mask and one value as decoders usually keep
  them; the table below is what the entries of the group come to.
\<close>

fun constraint_mask :: "format \<Rightarrow> constraint \<Rightarrow> u32 \<times> u32" where
  "constraint_mask fmt (Eq n v) =
     (case field_at (fmt_fields fmt) n of
        Some (off, f) \<Rightarrow> (push_bit off (mask (f_width f)), push_bit off v) | None \<Rightarrow> (0, 0))"
| "constraint_mask fmt (Ne n v) = (0, 0)"

fun masks_or :: "(u32 \<times> u32) list \<Rightarrow> u32 \<times> u32" where
  "masks_or [] = (0, 0)"
| "masks_or ((m, v) # xs) = (case masks_or xs of (m', v') \<Rightarrow> (m OR m', v OR v'))"

definition entry_mask :: "entry \<Rightarrow> u32 \<times> u32" where
  "entry_mask e = masks_or (map (constraint_mask (e_format e)) (e_constraints e))"

lemma masks_or_holds:
  fixes w :: u32
  assumes "\<forall>(m, v) \<in> set xs. w AND m = v"
  shows "w AND fst (masks_or xs) = snd (masks_or xs)"
  using assms
  by (induction xs rule: masks_or.induct) (auto simp: bit.conj_disj_distrib split: prod.splits)

lemma holds_mask: "holds fmt w c \<Longrightarrow> constraint_mask fmt c = (m, v) \<Longrightarrow> w AND m = v"
  by (cases c) (auto split: option.splits simp: bits_at_mask)

lemma matches_mask: "matches w e \<Longrightarrow> w AND fst (entry_mask e) = snd (entry_mask e)"
  unfolding entry_mask_def matches_def
  by (rule masks_or_holds) (auto simp: list_all_iff intro: holds_mask)

definition mask_table :: "(OpcodeEnum \<times> u32 \<times> u32) list" where
  "mask_table =
    [(kAdd, 0xfe00707f, 0x00000033),
     (kAnd, 0xfe00707f, 0x00007033),
     (kOr, 0xfe00707f, 0x00006033),
     (kSll, 0xfe00707f, 0x00001033),
     (kSltu, 0xfe00707f, 0x00003033),
     (kSub, 0xfe00707f, 0x40000033),
     (kXor, 0xfe00707f, 0x00004033),
     (kAddi, 0x0000707f, 0x00000013),
     (kAndi, 0x0000707f, 0x00007013),
     (kOri, 0x0000707f, 0x00006013),
     (kXori, 0x0000707f, 0x00004013),
     (kSlli, 0xfe00707f, 0x00001013),
     (kSrai, 0xfe00707f, 0x40005013),
     (kSrli, 0xfe00707f, 0x00005013),
     (kAuipc, 0x0000007f, 0x00000017),
     (kLui, 0x0000007f, 0x00000037),
     (kBeq, 0x0000707f, 0x00000063),
     (kBge, 0x0000707f, 0x00005063),
     (kBgeu, 0x0000707f, 0x00007063),
     (kBlt, 0x0000707f, 0x00004063),
     (kBltu, 0x0000707f, 0x00006063),
     (kBne, 0x0000707f, 0x00001063),
     (kJal, 0x0000007f, 0x0000006f),
     (kJalr, 0x0000707f, 0x00000067),
     (kSb, 0x0000707f, 0x00000023),
     (kSh, 0x0000707f, 0x00001023),
     (kSw, 0x0000707f, 0x00002023),
     (kLb, 0x0000707f, 0x00000003),
     (kLbu, 0x0000707f, 0x00004003),
     (kLh, 0x0000707f, 0x00001003),
     (kLhu, 0x0000707f, 0x00005003),
     (kLw, 0x0000707f, 0x00002003),
     (kFence, 0x0000707f, 0x0000000f),
     (kEbreak, 0xffffffff, 0x00100073),
     (kCsrs, 0x0000707f, 0x00002073),
     (kCsrwNr, 0x00007fff, 0x00001073),
     (kCsrsNw, 0x000ff07f, 0x00002073)]"

lemma group_masks: "map (\<lambda>e. (e_opcode e, entry_mask e)) RiscVInst32 = mask_table"
  by (simp add: RiscVInst32_def entry_mask_def format_defs mask_eq_exp_minus_1 mask_table_def)

fun table_disjoint :: "(OpcodeEnum \<times> u32 \<times> u32) list \<Rightarrow> bool" where
  "table_disjoint [] = True"
| "table_disjoint ((op, m, v) # xs) =
     (list_all (\<lambda>(op', m', v'). v AND m' \<noteq> v' AND m \<or> (op = kCsrs \<and> op' = kCsrsNw)) xs \<and>
      table_disjoint xs)"

lemma mask_table_disjoint: "table_disjoint mask_table"
  by (simp add: mask_table_def)

lemma mask_table_opcodes: "distinct (map fst mask_table)" "kNone \<notin> set (map fst mask_table)"
  by (simp_all add: mask_table_def)

lemma group_opcodes: "map e_opcode RiscVInst32 = map fst mask_table"
  unfolding group_masks [symmetric] by simp

lemma group_opcode_set: "set (map e_opcode RiscVInst32) = UNIV - {kNone}"
proof -
  have "op \<in> set (map fst mask_table)" if "op \<noteq> kNone" for op
    using that by (cases op) (simp_all add: mask_table_def)
  then show ?thesis
    unfolding group_opcodes using mask_table_opcodes(2) by blast
qed

lemma table_disjointD:
  assumes "table_disjoint xs" and "i < j" and "j < length xs"
    and "xs ! i = (op, m, v)" and "xs ! j = (op', m', v')"
  shows "v AND m' \<noteq> v' AND m \<or> (op = kCsrs \<and> op' = kCsrsNw)"
  using assms
proof (induction xs arbitrary: i j rule: table_disjoint.induct)
  case 1
  then show ?case by simp
next
  case (2 op0 m0 v0 xs)
  show ?case
  proof (cases i)
    case 0
    with "2.prems" show ?thesis by (cases j) (auto simp: list_all_length)
  next
    case (Suc i')
    with "2.prems" obtain j' where "j = Suc j'" by (cases j) auto
    with "2.prems" Suc show ?thesis by (intro "2.IH" [of i' j']) auto
  qed
qed

lemma group_nth:
  assumes "i < length RiscVInst32"
  shows "mask_table ! i = (e_opcode (RiscVInst32 ! i), entry_mask (RiscVInst32 ! i))"
  using assms by (simp flip: group_masks)

lemma length_mask_table: "length mask_table = length RiscVInst32"
  by (simp flip: group_masks)

lemma entry_by_opcode:
  assumes "e \<in> set RiscVInst32" and "e' \<in> set RiscVInst32" and "e_opcode e = e_opcode e'"
  shows "e = e'"
proof -
  have "distinct (map e_opcode RiscVInst32)"
    unfolding group_opcodes by (rule mask_table_opcodes)
  with assms show ?thesis by (auto simp: distinct_map inj_on_def)
qed

lemma csrs_in_group:
  "\<lparr>e_opcode = kCsrs, e_format = IType,
     e_constraints = [Eq ''func3'' 0b010, Ne ''rs1'' 0, Eq ''opcode'' 0b1110011]\<rparr> \<in> set RiscVInst32"
  "\<lparr>e_opcode = kCsrsNw, e_format = IType,
     e_constraints = [Eq ''func3'' 0b010, Eq ''rs1'' 0, Eq ''opcode'' 0b1110011]\<rparr> \<in> set RiscVInst32"
  by (simp_all add: RiscVInst32_def)

lemma csrs_entries:
  assumes "e \<in> set RiscVInst32" and "e_opcode e = kCsrs"
    and "e' \<in> set RiscVInst32" and "e_opcode e' = kCsrsNw" and "matches w e"
  shows "\<not> matches w e'"
proof -
  have "e = \<lparr>e_opcode = kCsrs, e_format = IType,
      e_constraints = [Eq ''func3'' 0b010, Ne ''rs1'' 0, Eq ''opcode'' 0b1110011]\<rparr>"
    by (rule entry_by_opcode [OF assms(1) csrs_in_group(1)]) (simp add: assms)
  moreover have "e' = \<lparr>e_opcode = kCsrsNw, e_format = IType,
      e_constraints = [Eq ''func3'' 0b010, Eq ''rs1'' 0, Eq ''opcode'' 0b1110011]\<rparr>"
    by (rule entry_by_opcode [OF assms(3) csrs_in_group(2)]) (simp add: assms)
  ultimately show ?thesis
    using assms(5) by (simp add: matches_def IType_def)
qed

lemma group_disjoint_less:
  assumes "i < j" and "j < length RiscVInst32" and "matches w (RiscVInst32 ! i)"
  shows "\<not> matches w (RiscVInst32 ! j)"
proof
  let ?e = "RiscVInst32 ! i" and ?e' = "RiscVInst32 ! j"
  assume m': "matches w ?e'"
  obtain m v n u where ms: "entry_mask ?e = (m, v)" "entry_mask ?e' = (n, u)"
    by (cases "entry_mask ?e"; cases "entry_mask ?e'")
  have "w AND m = v" and "w AND n = u"
    using matches_mask [OF assms(3)] matches_mask [OF m'] ms by simp_all
  then have "v AND n = u AND m" by (rule masks_agree)
  moreover have "v AND n \<noteq> u AND m \<or> (e_opcode ?e = kCsrs \<and> e_opcode ?e' = kCsrsNw)"
    using table_disjointD [OF mask_table_disjoint \<open>i < j\<close>] assms ms
    by (simp add: group_nth length_mask_table)
  ultimately have "e_opcode ?e = kCsrs" "e_opcode ?e' = kCsrsNw" by auto
  then have "\<not> matches w ?e'"
    using assms csrs_entries [of ?e ?e' w] by simp
  with m' show False by simp
qed

lemma group_disjoint:
  assumes "e \<in> set RiscVInst32" and "e' \<in> set RiscVInst32" and "matches w e" and "matches w e'"
  shows "e = e'"
proof -
  from assms obtain i j where ij: "i < length RiscVInst32" "j < length RiscVInst32"
    "e = RiscVInst32 ! i" "e' = RiscVInst32 ! j"
    by (auto simp: in_set_conv_nth)
  then have "i = j"
    using assms group_disjoint_less [of i j w] group_disjoint_less [of j i w]
    by (cases i j rule: linorder_cases) auto
  with ij show ?thesis by simp
qed

lemma find_SomeD: "find P xs = Some x \<Longrightarrow> x \<in> set xs \<and> P x"
  by (induction xs) (auto split: if_splits)

lemma find_NoneD: "find P xs = None \<Longrightarrow> x \<in> set xs \<Longrightarrow> \<not> P x"
  by (induction xs) (auto split: if_splits)

lemma decode_of_match:
  assumes "e \<in> set RiscVInst32" and "matches w e"
  shows "DecodeRiscVInst32 w = e_opcode e"
proof (cases "find (matches w) RiscVInst32")
  case None
  then have "\<not> matches w e" using assms(1) by (rule find_NoneD)
  with assms(2) show ?thesis by simp
next
  case (Some e')
  then have "e' = e"
    using assms group_disjoint by (blast dest: find_SomeD)
  with Some show ?thesis by (simp add: DecodeRiscVInst32_def)
qed

lemma decode_not_none:
  assumes "DecodeRiscVInst32 w \<noteq> kNone"
  obtains e where "e \<in> set RiscVInst32" and "matches w e" and "e_opcode e = DecodeRiscVInst32 w"
proof (cases "find (matches w) RiscVInst32")
  case None
  then show ?thesis using assms by (simp add: DecodeRiscVInst32_def)
next
  case (Some e)
  then show ?thesis
    using that [of e] by (auto simp: DecodeRiscVInst32_def dest: find_SomeD)
qed

lemma decode_iff_match:
  assumes "e \<in> set RiscVInst32"
  shows "DecodeRiscVInst32 w = e_opcode e \<longleftrightarrow> matches w e"
proof
  assume eq: "DecodeRiscVInst32 w = e_opcode e"
  have "e_opcode e \<in> UNIV - {kNone}"
    using assms group_opcode_set by (metis image_eqI set_map)
  with eq obtain e' where "e' \<in> set RiscVInst32" "matches w e'" "e_opcode e' = e_opcode e"
    by (metis Diff_iff decode_not_none singleton_iff)
  with assms show "matches w e" using entry_by_opcode by metis
next
  assume "matches w e"
  with assms show "DecodeRiscVInst32 w = e_opcode e" by (rule decode_of_match)
qed

lemma decode_none_iff: "DecodeRiscVInst32 w = kNone \<longleftrightarrow> (\<forall>e \<in> set RiscVInst32. \<not> matches w e)"
proof
  assume none: "DecodeRiscVInst32 w = kNone"
  show "\<forall>e \<in> set RiscVInst32. \<not> matches w e"
  proof
    fix e assume e: "e \<in> set RiscVInst32"
    then have "e_opcode e \<noteq> kNone" using group_opcode_set by (metis Diff_iff image_eqI set_map singleton_iff)
    with none e show "\<not> matches w e" using decode_of_match by metis
  qed
next
  assume "\<forall>e \<in> set RiscVInst32. \<not> matches w e"
  then show "DecodeRiscVInst32 w = kNone" using decode_not_none by metis
qed

section \<open>Words by opcode\<close>

text \<open>The constraints of each opcode on the bits of the word.\<close>

fun op_pattern :: "OpcodeEnum \<Rightarrow> u32 \<Rightarrow> bool" where
  "op_pattern kNone w \<longleftrightarrow> False"
| "op_pattern kAdd w \<longleftrightarrow> bits_at 25 7 w = 0 \<and> bits_at 12 3 w = 0 \<and> bits_at 0 7 w = 0x33"
| "op_pattern kAnd w \<longleftrightarrow> bits_at 25 7 w = 0 \<and> bits_at 12 3 w = 7 \<and> bits_at 0 7 w = 0x33"
| "op_pattern kOr w \<longleftrightarrow> bits_at 25 7 w = 0 \<and> bits_at 12 3 w = 6 \<and> bits_at 0 7 w = 0x33"
| "op_pattern kSll w \<longleftrightarrow> bits_at 25 7 w = 0 \<and> bits_at 12 3 w = 1 \<and> bits_at 0 7 w = 0x33"
| "op_pattern kSltu w \<longleftrightarrow> bits_at 25 7 w = 0 \<and> bits_at 12 3 w = 3 \<and> bits_at 0 7 w = 0x33"
| "op_pattern kSub w \<longleftrightarrow> bits_at 25 7 w = 0x20 \<and> bits_at 12 3 w = 0 \<and> bits_at 0 7 w = 0x33"
| "op_pattern kXor w \<longleftrightarrow> bits_at 25 7 w = 0 \<and> bits_at 12 3 w = 4 \<and> bits_at 0 7 w = 0x33"
| "op_pattern kAddi w \<longleftrightarrow> bits_at 12 3 w = 0 \<and> bits_at 0 7 w = 0x13"
| "op_pattern kAndi w \<longleftrightarrow> bits_at 12 3 w = 7 \<and> bits_at 0 7 w = 0x13"
| "op_pattern kOri w \<longleftrightarrow> bits_at 12 3 w = 6 \<and> bits_at 0 7 w = 0x13"
| "op_pattern kXori w \<longleftrightarrow> bits_at 12 3 w = 4 \<and> bits_at 0 7 w = 0x13"
| "op_pattern kSlli w \<longleftrightarrow> bits_at 25 7 w = 0 \<and> bits_at 12 3 w = 1 \<and> bits_at 0 7 w = 0x13"
| "op_pattern kSrai w \<longleftrightarrow> bits_at 25 7 w = 0x20 \<and> bits_at 12 3 w = 5 \<and> bits_at 0 7 w = 0x13"
| "op_pattern kSrli w \<longleftrightarrow> bits_at 25 7 w = 0 \<and> bits_at 12 3 w = 5 \<and> bits_at 0 7 w = 0x13"
| "op_pattern kAuipc w \<longleftrightarrow> bits_at 0 7 w = 0x17"
| "op_pattern kLui w \<longleftrightarrow> bits_at 0 7 w = 0x37"
| "op_pattern kBeq w \<longleftrightarrow> bits_at 12 3 w = 0 \<and> bits_at 0 7 w = 0x63"
| "op_pattern kBge w \<longleftrightarrow> bits_at 12 3 w = 5 \<and> bits_at 0 7 w = 0x63"
| "op_pattern kBgeu w \<longleftrightarrow> bits_at 12 3 w = 7 \<and> bits_at 0 7 w = 0x63"
| "op_pattern kBlt w \<longleftrightarrow> bits_at 12 3 w = 4 \<and> bits_at 0 7 w = 0x63"
| "op_pattern kBltu w \<longleftrightarrow> bits_at 12 3 w = 6 \<and> bits_at 0 7 w = 0x63"
| "op_pattern kBne w \<longleftrightarrow> bits_at 12 3 w = 1 \<and> bits_at 0 7 w = 0x63"
| "op_pattern kJal w \<longleftrightarrow> bits_at 0 7 w = 0x6f"
| "op_pattern kJalr w \<longleftrightarrow> bits_at 12 3 w = 0 \<and> bits_at 0 7 w = 0x67"
| "op_pattern kSb w \<longleftrightarrow> bits_at 12 3 w = 0 \<and> bits_at 0 7 w = 0x23"
| "op_pattern kSh w \<longleftrightarrow> bits_at 12 3 w = 1 \<and> bits_at 0 7 w = 0x23"
| "op_pattern kSw w \<longleftrightarrow> bits_at 12 3 w = 2 \<and> bits_at 0 7 w = 0x23"
| "op_pattern kLb w \<longleftrightarrow> bits_at 12 3 w = 0 \<and> bits_at 0 7 w = 0x03"
| "op_pattern kLbu w \<longleftrightarrow> bits_at 12 3 w = 4 \<and> bits_at 0 7 w = 0x03"
| "op_pattern kLh w \<longleftrightarrow> bits_at 12 3 w = 1 \<and> bits_at 0 7 w = 0x03"
| "op_pattern kLhu w \<longleftrightarrow> bits_at 12 3 w = 5 \<and> bits_at 0 7 w = 0x03"
| "op_pattern kLw w \<longleftrightarrow> bits_at 12 3 w = 2 \<and> bits_at 0 7 w = 0x03"
| "op_pattern kFence w \<longleftrightarrow> bits_at 12 3 w = 0 \<and> bits_at 0 7 w = 0x0f"
| "op_pattern kEbreak w \<longleftrightarrow> bits_at 7 25 w = 0x2000 \<and> bits_at 0 7 w = 0x73"
| "op_pattern kCsrs w \<longleftrightarrow> bits_at 12 3 w = 2 \<and> bits_at 15 5 w \<noteq> 0 \<and> bits_at 0 7 w = 0x73"
| "op_pattern kCsrwNr w \<longleftrightarrow> bits_at 12 3 w = 1 \<and> bits_at 7 5 w = 0 \<and> bits_at 0 7 w = 0x73"
| "op_pattern kCsrsNw w \<longleftrightarrow> bits_at 12 3 w = 2 \<and> bits_at 15 5 w = 0 \<and> bits_at 0 7 w = 0x73"

lemma entries_pattern: "list_all (\<lambda>e. matches w e = op_pattern (e_opcode e) w) RiscVInst32"
  by (simp add: RiscVInst32_def matches_def) (simp add: format_defs conj_ac)

lemma decode_pattern:
  assumes "op \<noteq> kNone"
  shows "DecodeRiscVInst32 w = op \<longleftrightarrow> op_pattern op w"
proof -
  have "op \<in> e_opcode ` set RiscVInst32"
    using group_opcode_set assms by simp
  then obtain e where "e \<in> set RiscVInst32" "op = e_opcode e" by blast
  with entries_pattern [of w] decode_iff_match show ?thesis by (auto simp: list_all_iff)
qed

section \<open>The extractors\<close>

lemmas extract_defs = extract_field_def extend_def format_defs

lemma ExtractRd_eq [field_simps32]: "ExtractRd w = bits_at 7 5 w"
  by (simp add: ExtractRd_def extract_defs)

lemma ExtractRs1_eq [field_simps32]: "ExtractRs1 w = bits_at 15 5 w"
  by (simp add: ExtractRs1_def extract_defs)

lemma ExtractRs2_eq [field_simps32]: "ExtractRs2 w = bits_at 20 5 w"
  by (simp add: ExtractRs2_def extract_defs)

lemma ExtractUimm5_eq [field_simps32]: "ExtractUimm5 w = bits_at 20 5 w"
  by (simp add: ExtractUimm5_def extract_defs)

lemma ExtractImm12_eq [field_simps32]: "ExtractImm12 w = signed_take_bit 11 (bits_at 20 12 w)"
  by (simp add: ExtractImm12_def extract_defs)

lemma ExtractUimm32_eq [field_simps32]: "ExtractUimm32 w = push_bit 12 (bits_at 12 20 w)"
  by (simp add: ExtractUimm32_def extract_defs)

lemma ExtractSImm_eq [field_simps32]:
  "ExtractSImm w = signed_take_bit 11 (push_bit 5 (bits_at 25 7 w) OR bits_at 7 5 w)"
  by (simp add: ExtractSImm_def extract_defs)

lemma ExtractBImm_eq [field_simps32]:
  "ExtractBImm w = signed_take_bit 12
     (push_bit 12 (bits_at 31 1 w) OR push_bit 11 (bits_at 7 1 w) OR
      push_bit 5 (bits_at 25 6 w) OR push_bit 1 (bits_at 8 4 w))"
  unfolding ExtractBImm_def extract_defs
  by (simp add: push_bit_or or.assoc push_bit_double del: push_bit_Suc)

lemma ExtractJImm_eq [field_simps32]:
  "ExtractJImm w = signed_take_bit 20
     (push_bit 20 (bits_at 31 1 w) OR push_bit 12 (bits_at 12 8 w) OR
      push_bit 11 (bits_at 20 1 w) OR push_bit 1 (bits_at 21 10 w))"
  unfolding ExtractJImm_def extract_defs
  by (simp add: push_bit_or or.assoc push_bit_double del: push_bit_Suc)

text \<open>Register numbers index 32-entry tables; the offsets are even and in range.\<close>

lemma Extract_reg_bounds:
  "unat (ExtractRd w) < 32" "unat (ExtractRs1 w) < 32" "unat (ExtractRs2 w) < 32"
  "unat (ExtractUimm5 w) < 32"
  using unat_bits_at_less [of _ 5 w] by (simp_all add: field_simps32)

lemma imm_bounds:
  "sint (ExtractImm12 w) \<in> {-2048..2047}" "sint (ExtractSImm w) \<in> {-2048..2047}"
  "sint (ExtractBImm w) \<in> {-4096..4095}" "sint (ExtractJImm w) \<in> {-1048576..1048575}"
  unfolding field_simps32
  using sint_signed_take_bit_bounds [of 11] sint_signed_take_bit_bounds [of 12]
    sint_signed_take_bit_bounds [of 20]
  by simp_all

lemma branch_offsets_even: "even (sint (ExtractBImm w))" "even (sint (ExtractJImm w))"
  by (simp_all add: field_simps32 even_sint_signed_take_bit even_push_bit_or)

end
