(* ===== verification/Isa.thy ===== *)
theory Isa
  imports Bin_Decoder
begin

text \<open>
  The encoding-independent instruction description,
  \<^verbatim>\<open>riscv_isa_decoder/solution/riscv32i.isa\<close>: for every opcode its size and latency, the
  source and destination operands of its main part (and, for loads, of the child part that
  runs when the data has arrived), and the semantic function of each part. The slot
  \<^verbatim>\<open>riscv32\<close> joins \<^verbatim>\<open>riscv32i\<close> and \<^verbatim>\<open>zicsr\<close> and adds a default opcode.
\<close>

section \<open>Operand and function names\<close>

text \<open>The operand names of the description (\<^verbatim>\<open>SourceOpEnum\<close> and \<^verbatim>\<open>DestOpEnum\<close>).\<close>

datatype SourceOpEnum =
    Src_kNone | Src_kBimm12 | Src_kCsr | Src_kImm12 | Src_kJimm20 | Src_kRs1 | Src_kRs2
  | Src_kSimm12 | Src_kUimm20 | Src_kUimm5

datatype DestOpEnum = Dst_kNone | Dst_kCsr | Dst_kNextPc | Dst_kRd

text \<open>The semantic functions the description names.\<close>

datatype SemFunc =
    fn_RV32IllegalInstruction
  | fn_RV32IAdd | fn_RV32IAnd | fn_RV32IOr | fn_RV32ISll | fn_RV32ISltu | fn_RV32ISra
  | fn_RV32ISrl | fn_RV32ISub | fn_RV32IXor | fn_RV32ILui | fn_RV32IAuipc
  | fn_RV32IBeq | fn_RV32IBge | fn_RV32IBgeu | fn_RV32IBlt | fn_RV32IBltu | fn_RV32IBne
  | fn_RV32IJal | fn_RV32IJalr | fn_RV32ISb | fn_RV32ISh | fn_RV32ISw
  | fn_RV32ILb | fn_RV32ILbChild | fn_RV32ILbu | fn_RV32ILbuChild | fn_RV32ILh
  | fn_RV32ILhChild | fn_RV32ILhu | fn_RV32ILhuChild | fn_RV32ILw | fn_RV32ILwChild
  | fn_RV32IFence | fn_RV32IEbreak | fn_RV32ZiCsrs | fn_RV32ZiCsrwNr | fn_RV32ZiCsrsNw

section \<open>The slot\<close>

record op_part =
  p_sources :: "SourceOpEnum list"
  p_dests :: "DestOpEnum list"
  p_semfunc :: SemFunc

record isa_op =
  op_size :: nat
  op_latency :: nat
  op_main :: op_part
  op_child :: "op_part option"

text \<open>An opcode with one part, under the slots' defaults of size 4 and latency 0.\<close>

definition simple_op :: "SourceOpEnum list \<Rightarrow> DestOpEnum list \<Rightarrow> SemFunc \<Rightarrow> isa_op" where
  "simple_op srcs dsts f =
     \<lparr>op_size = 4, op_latency = 0,
      op_main = \<lparr>p_sources = srcs, p_dests = dsts, p_semfunc = f\<rparr>, op_child = None\<rparr>"

text \<open>A load, \<open>(: rs1, imm12 :), (: : rd)\<close>: the main part has the address operands, the child
  the destination.\<close>

definition load_op :: "SemFunc \<Rightarrow> SemFunc \<Rightarrow> isa_op" where
  "load_op f g =
     \<lparr>op_size = 4, op_latency = 0,
      op_main = \<lparr>p_sources = [Src_kRs1, Src_kImm12], p_dests = [], p_semfunc = f\<rparr>,
      op_child = Some \<lparr>p_sources = [], p_dests = [Dst_kRd], p_semfunc = g\<rparr>\<rparr>"

text \<open>
  The opcodes of \<^verbatim>\<open>riscv32i\<close> and \<^verbatim>\<open>zicsr\<close>, and the default opcode. The description gives
  the default opcode no size of its own, so the size of an illegal instruction is the argument
  \<open>L\<close>, a choice of the generator.
\<close>

fun riscv32_op :: "nat \<Rightarrow> OpcodeEnum \<Rightarrow> isa_op" where
  "riscv32_op L kAdd = simple_op [Src_kRs1, Src_kRs2] [Dst_kRd] fn_RV32IAdd"
| "riscv32_op L kAnd = simple_op [Src_kRs1, Src_kRs2] [Dst_kRd] fn_RV32IAnd"
| "riscv32_op L kOr = simple_op [Src_kRs1, Src_kRs2] [Dst_kRd] fn_RV32IOr"
| "riscv32_op L kSll = simple_op [Src_kRs1, Src_kRs2] [Dst_kRd] fn_RV32ISll"
| "riscv32_op L kSltu = simple_op [Src_kRs1, Src_kRs2] [Dst_kRd] fn_RV32ISltu"
| "riscv32_op L kSub = simple_op [Src_kRs1, Src_kRs2] [Dst_kRd] fn_RV32ISub"
| "riscv32_op L kXor = simple_op [Src_kRs1, Src_kRs2] [Dst_kRd] fn_RV32IXor"
| "riscv32_op L kAddi = simple_op [Src_kRs1, Src_kImm12] [Dst_kRd] fn_RV32IAdd"
| "riscv32_op L kAndi = simple_op [Src_kRs1, Src_kImm12] [Dst_kRd] fn_RV32IAnd"
| "riscv32_op L kOri = simple_op [Src_kRs1, Src_kImm12] [Dst_kRd] fn_RV32IOr"
| "riscv32_op L kXori = simple_op [Src_kRs1, Src_kImm12] [Dst_kRd] fn_RV32IXor"
| "riscv32_op L kSlli = simple_op [Src_kRs1, Src_kUimm5] [Dst_kRd] fn_RV32ISll"
| "riscv32_op L kSrai = simple_op [Src_kRs1, Src_kUimm5] [Dst_kRd] fn_RV32ISra"
| "riscv32_op L kSrli = simple_op [Src_kRs1, Src_kUimm5] [Dst_kRd] fn_RV32ISrl"
| "riscv32_op L kAuipc = simple_op [Src_kUimm20] [Dst_kRd] fn_RV32IAuipc"
| "riscv32_op L kLui = simple_op [Src_kUimm20] [Dst_kRd] fn_RV32ILui"
| "riscv32_op L kBeq = simple_op [Src_kRs1, Src_kRs2, Src_kBimm12] [Dst_kNextPc] fn_RV32IBeq"
| "riscv32_op L kBge = simple_op [Src_kRs1, Src_kRs2, Src_kBimm12] [Dst_kNextPc] fn_RV32IBge"
| "riscv32_op L kBgeu = simple_op [Src_kRs1, Src_kRs2, Src_kBimm12] [Dst_kNextPc] fn_RV32IBgeu"
| "riscv32_op L kBlt = simple_op [Src_kRs1, Src_kRs2, Src_kBimm12] [Dst_kNextPc] fn_RV32IBlt"
| "riscv32_op L kBltu = simple_op [Src_kRs1, Src_kRs2, Src_kBimm12] [Dst_kNextPc] fn_RV32IBltu"
| "riscv32_op L kBne = simple_op [Src_kRs1, Src_kRs2, Src_kBimm12] [Dst_kNextPc] fn_RV32IBne"
| "riscv32_op L kJal = simple_op [Src_kJimm20] [Dst_kNextPc, Dst_kRd] fn_RV32IJal"
| "riscv32_op L kJalr = simple_op [Src_kRs1, Src_kImm12] [Dst_kNextPc, Dst_kRd] fn_RV32IJalr"
| "riscv32_op L kSb = simple_op [Src_kRs1, Src_kSimm12, Src_kRs2] [] fn_RV32ISb"
| "riscv32_op L kSh = simple_op [Src_kRs1, Src_kSimm12, Src_kRs2] [] fn_RV32ISh"
| "riscv32_op L kSw = simple_op [Src_kRs1, Src_kSimm12, Src_kRs2] [] fn_RV32ISw"
| "riscv32_op L kLb = load_op fn_RV32ILb fn_RV32ILbChild"
| "riscv32_op L kLbu = load_op fn_RV32ILbu fn_RV32ILbuChild"
| "riscv32_op L kLh = load_op fn_RV32ILh fn_RV32ILhChild"
| "riscv32_op L kLhu = load_op fn_RV32ILhu fn_RV32ILhuChild"
| "riscv32_op L kLw = load_op fn_RV32ILw fn_RV32ILwChild"
| "riscv32_op L kFence = simple_op [Src_kImm12] [] fn_RV32IFence"
| "riscv32_op L kEbreak = simple_op [] [] fn_RV32IEbreak"
| "riscv32_op L kCsrs = simple_op [Src_kRs1, Src_kCsr] [Dst_kRd, Dst_kCsr] fn_RV32ZiCsrs"
| "riscv32_op L kCsrwNr = simple_op [Src_kRs1] [Dst_kCsr] fn_RV32ZiCsrwNr"
| "riscv32_op L kCsrsNw = simple_op [Src_kCsr] [Dst_kRd, Dst_kCsr] fn_RV32ZiCsrsNw"
| "riscv32_op L kNone =
     \<lparr>op_size = L, op_latency = 0,
      op_main = \<lparr>p_sources = [], p_dests = [], p_semfunc = fn_RV32IllegalInstruction\<rparr>,
      op_child = None\<rparr>"

lemmas isa_defs = simple_op_def load_op_def

lemma op_size_4: "op \<noteq> kNone \<Longrightarrow> op_size (riscv32_op L op) = 4"
  by (cases op) (simp_all add: isa_defs)

lemma op_latency_0 [simp]: "op_latency (riscv32_op L op) = 0"
  by (cases op) (simp_all add: isa_defs)

end
