(* ===== verification/Disassembly.thy ===== *)
theory Disassembly
  imports Isa
begin

text \<open>
  The disassembly templates of \<^verbatim>\<open>riscv_isa_decoder/solution/riscv32i.isa\<close>: for every opcode the
  mnemonic and what is shown after it. The rendering of a template is generated code; what can be
  checked of the description is that a template names operands the opcode has.
\<close>

section \<open>The templates\<close>

text \<open>A piece of a template: literal text, the operand \<^verbatim>\<open>%name\<close>, the branch target
  \<^verbatim>\<open>%(@+name:08x)\<close>, or the address of the instruction \<^verbatim>\<open>%(@:08x)\<close>.\<close>

datatype disasm_piece = Literal string | Shown string | Target string | Address

fun riscv32_disasm :: "OpcodeEnum \<Rightarrow> string \<times> disasm_piece list" where
  "riscv32_disasm kAdd =
     (''add'', [Shown ''rd'', Literal '', '', Shown ''rs1'', Literal '', '', Shown ''rs2''])"
| "riscv32_disasm kAnd =
     (''and'', [Shown ''rd'', Literal '', '', Shown ''rs1'', Literal '', '', Shown ''rs2''])"
| "riscv32_disasm kOr =
     (''or'', [Shown ''rd'', Literal '', '', Shown ''rs1'', Literal '', '', Shown ''rs2''])"
| "riscv32_disasm kSll =
     (''sll'', [Shown ''rd'', Literal '', '', Shown ''rs1'', Literal '', '', Shown ''rs2''])"
| "riscv32_disasm kSltu =
     (''sltu'', [Shown ''rd'', Literal '', '', Shown ''rs1'', Literal '', '', Shown ''rs2''])"
| "riscv32_disasm kSub =
     (''sub'', [Shown ''rd'', Literal '', '', Shown ''rs1'', Literal '', '', Shown ''rs2''])"
| "riscv32_disasm kXor =
     (''xor'', [Shown ''rd'', Literal '', '', Shown ''rs1'', Literal '', '', Shown ''rs2''])"
| "riscv32_disasm kAddi =
     (''addi'', [Shown ''rd'', Literal '', '', Shown ''rs1'', Literal '', '', Shown ''imm12''])"
| "riscv32_disasm kAndi =
     (''andi'', [Shown ''rd'', Literal '', '', Shown ''rs1'', Literal '', '', Shown ''imm12''])"
| "riscv32_disasm kOri =
     (''ori'', [Shown ''rd'', Literal '', '', Shown ''rs1'', Literal '', '', Shown ''imm12''])"
| "riscv32_disasm kXori =
     (''xori'', [Shown ''rd'', Literal '', '', Shown ''rs1'', Literal '', '', Shown ''imm12''])"
| "riscv32_disasm kSlli =
     (''slli'', [Shown ''rd'', Literal '', '', Shown ''rs1'', Literal '', '', Shown ''uimm5''])"
| "riscv32_disasm kSrai =
     (''srai'', [Shown ''rd'', Literal '', '', Shown ''rs1'', Literal '', '', Shown ''uimm5''])"
| "riscv32_disasm kSrli =
     (''srli'', [Shown ''rd'', Literal '', '', Shown ''rs1'', Literal '', '', Shown ''uimm5''])"
| "riscv32_disasm kAuipc = (''auipc'', [Shown ''rd'', Literal '', '', Shown ''uimm20''])"
| "riscv32_disasm kLui = (''lui'', [Shown ''rd'', Literal '', '', Shown ''uimm20''])"
| "riscv32_disasm kBeq =
     (''beq'', [Shown ''rs1'', Literal '', '', Shown ''rs2'', Literal '', '', Target ''bimm12''])"
| "riscv32_disasm kBge =
     (''bge'', [Shown ''rs1'', Literal '', '', Shown ''rs2'', Literal '', '', Target ''bimm12''])"
| "riscv32_disasm kBgeu =
     (''bgeu'', [Shown ''rs1'', Literal '', '', Shown ''rs2'', Literal '', '', Target ''bimm12''])"
| "riscv32_disasm kBlt =
     (''blt'', [Shown ''rs1'', Literal '', '', Shown ''rs2'', Literal '', '', Target ''bimm12''])"
| "riscv32_disasm kBltu =
     (''bltu'', [Shown ''rs1'', Literal '', '', Shown ''rs2'', Literal '', '', Target ''bimm12''])"
| "riscv32_disasm kBne =
     (''bne'', [Shown ''rs1'', Literal '', '', Shown ''rs2'', Literal '', '', Target ''bimm12''])"
| "riscv32_disasm kJal = (''jal'', [Shown ''rd'', Literal '', '', Target ''jimm20''])"
| "riscv32_disasm kJalr =
     (''jalr'', [Shown ''rd'', Literal '', '', Shown ''rs1'', Literal '', '', Shown ''imm12''])"
| "riscv32_disasm kSb =
     (''sb'', [Shown ''rs2'', Literal '', '', Shown ''simm12'', Literal ''('', Shown ''rs1'', Literal '')''])"
| "riscv32_disasm kSh =
     (''sh'', [Shown ''rs2'', Literal '', '', Shown ''simm12'', Literal ''('', Shown ''rs1'', Literal '')''])"
| "riscv32_disasm kSw =
     (''sw'', [Shown ''rs2'', Literal '', '', Shown ''simm12'', Literal ''('', Shown ''rs1'', Literal '')''])"
| "riscv32_disasm kLb =
     (''lb'', [Shown ''rd'', Literal '', '', Shown ''imm12'', Literal ''('', Shown ''rs1'', Literal '')''])"
| "riscv32_disasm kLbu =
     (''lbu'', [Shown ''rd'', Literal '', '', Shown ''imm12'', Literal ''('', Shown ''rs1'', Literal '')''])"
| "riscv32_disasm kLh =
     (''lh'', [Shown ''rd'', Literal '', '', Shown ''imm12'', Literal ''('', Shown ''rs1'', Literal '')''])"
| "riscv32_disasm kLhu =
     (''lhu'', [Shown ''rd'', Literal '', '', Shown ''imm12'', Literal ''('', Shown ''rs1'', Literal '')''])"
| "riscv32_disasm kLw =
     (''lw'', [Shown ''rd'', Literal '', '', Shown ''imm12'', Literal ''('', Shown ''rs1'', Literal '')''])"
| "riscv32_disasm kFence = (''fence'', [])"
| "riscv32_disasm kEbreak = (''ebreak'', [])"
| "riscv32_disasm kCsrs = (''csrs'', [Shown ''csr'', Literal '', '', Shown ''rs1''])"
| "riscv32_disasm kCsrwNr = (''csrw'', [Shown ''csr'', Literal '', '', Shown ''rs1''])"
| "riscv32_disasm kCsrsNw = (''csrs'', [Shown ''csr'', Literal '', '', Shown ''rd''])"
| "riscv32_disasm kNone = (''Illegal instruction at 0x'', [Address])"

section \<open>Operand names\<close>

fun source_name :: "SourceOpEnum \<Rightarrow> string list" where
  "source_name Src_kNone = []"
| "source_name Src_kBimm12 = [''bimm12'']"
| "source_name Src_kCsr = [''csr'']"
| "source_name Src_kImm12 = [''imm12'']"
| "source_name Src_kJimm20 = [''jimm20'']"
| "source_name Src_kRs1 = [''rs1'']"
| "source_name Src_kRs2 = [''rs2'']"
| "source_name Src_kSimm12 = [''simm12'']"
| "source_name Src_kUimm20 = [''uimm20'']"
| "source_name Src_kUimm5 = [''uimm5'']"

fun dest_name :: "DestOpEnum \<Rightarrow> string list" where
  "dest_name Dst_kNone = []"
| "dest_name Dst_kCsr = [''csr'']"
| "dest_name Dst_kNextPc = [''next_pc'']"
| "dest_name Dst_kRd = [''rd'']"

definition part_names :: "op_part \<Rightarrow> string set" where
  "part_names p = set (concat (map source_name (p_sources p)) @ concat (map dest_name (p_dests p)))"

text \<open>The operands of an opcode, those of its child part included.\<close>

definition operand_names :: "OpcodeEnum \<Rightarrow> string set" where
  "operand_names op =
     part_names (op_main (riscv32_op 4 op)) \<union> (case op_child (riscv32_op 4 op) of None \<Rightarrow> {} | Some p \<Rightarrow> part_names p)"

fun piece_names :: "disasm_piece \<Rightarrow> string list" where
  "piece_names (Shown nm) = [nm]"
| "piece_names (Target nm) = [nm]"
| "piece_names _ = []"

definition disasm_names :: "OpcodeEnum \<Rightarrow> string set" where
  "disasm_names op = set (concat (map piece_names (snd (riscv32_disasm op))))"

lemmas disasm_defs = disasm_names_def operand_names_def part_names_def isa_defs

section \<open>Templates and operands\<close>

lemma disasm_names_operands: "disasm_names op \<subseteq> operand_names op"
  by (cases op) (simp_all add: disasm_defs)

text \<open>What a template leaves out: the pc a branch writes, and the operands of two opcodes.\<close>

lemma disasm_names_complete:
  "operand_names op \<subseteq> insert ''next_pc'' (disasm_names op) \<longleftrightarrow> op \<notin> {kFence, kCsrs}"
  by (cases op) (simp_all add: disasm_defs)

lemma incomplete_templates: "{op. \<not> operand_names op \<subseteq> insert ''next_pc'' (disasm_names op)} = {kFence, kCsrs}"
  by (auto simp: disasm_names_complete)

lemma disasm_omits: "''imm12'' \<in> operand_names kFence - disasm_names kFence" "''rd'' \<in> operand_names kCsrs - disasm_names kCsrs"
  by (simp_all add: disasm_defs)

end
