(* ===== verification/Mpact.thy ===== *)
theory Mpact
  imports Isa
begin

text \<open>
  The objects of the MPACT-Sim library the code of this repository is written against
  (\<^verbatim>\<open>mpact/sim/generic\<close>, \<^verbatim>\<open>mpact/sim/util/memory\<close>), as seen from here: data buffers,
  operands, instructions, the architectural state with its register table. The library's own
  functions are not part of the repository: they are the two records \<open>mpact\<close> and
  \<open>memory_if\<close>, arguments of every definition that calls them, and the locales below state
  what the library documents of them.
\<close>

section \<open>Objects\<close>

text \<open>
  A data buffer has an identity (the code compares buffer pointers to see whether the program
  counter was written) and bytes.
\<close>

record data_buffer =
  db_id :: nat
  db_bytes :: "u8 list"

definition db_get32 :: "data_buffer \<Rightarrow> u32" where
  "db_get32 db = le_word (db_bytes db)"

type_synonym reg_id = nat

text \<open>The operand objects \<^verbatim>\<open>riscv32i_encoding.cc\<close> creates; a null pointer is \<open>None\<close>.\<close>

datatype source_operand =
    ImmediateOperand u32
  | IntLiteralOperand u32 string
  | RegisterSource reg_id string

datatype dest_operand =
    DevNullOperand
  | RegisterDestination reg_id nat string

datatype instruction =
  Instruction
    (inst_address: u64) (inst_size: nat) (inst_opcode: OpcodeEnum)
    (inst_sources: "source_operand option list") (inst_dests: "dest_operand option list")
    (inst_semfunc: SemFunc) (inst_child: "instruction option")

text \<open>Operand \<open>i\<close> of an instruction; \<open>None\<close> past the end, as for a null operand:
  dereferencing either is undefined behaviour.\<close>

definition Source :: "instruction \<Rightarrow> nat \<Rightarrow> source_operand option" where
  "Source inst i = (if i < length (inst_sources inst) then inst_sources inst ! i else None)"

definition Destination :: "instruction \<Rightarrow> nat \<Rightarrow> dest_operand option" where
  "Destination inst i = (if i < length (inst_dests inst) then inst_dests inst ! i else None)"

text \<open>A destination of latency 0 takes its value when it is submitted.\<close>

fun dest_ready :: "dest_operand \<Rightarrow> bool" where
  "dest_ready DevNullOperand = True"
| "dest_ready (RegisterDestination r l n) = (l = 0)"

text \<open>Memories an object may point to.\<close>

datatype mem_handle = OwnedMemory | FlatMemory | WatcherMemory

section \<open>The RISC-V state object\<close>

text \<open>
  \<^verbatim>\<open>RiscVState\<close> with the part of \<^verbatim>\<open>ArchState\<close> it uses: the table from register names to
  register objects (aliases share the object), the data buffer each register object holds, the
  memory it points to, its handlers and what it logged. \<open>'e\<close> is everything outside this object
  that the handlers and the memory act on.
\<close>

datatype RiscVXlen = RV32 | RVUnknown

datatype log_entry =
    LogUnsupportedXlen
  | LogECallNoHandler "u64 option"
  | LogEBreakNoHandler "u64 option"
  | LogTreatingAsNop
  | LogNoWfiHandler "u64 option"
  | LogIllegalInstruction u64

type_synonym 'e handler = "instruction option \<Rightarrow> 'e \<Rightarrow> bool \<times> 'e"

text \<open>A trap handler also gets whether it is an interrupt, the trap value, the exception code and the pc.\<close>

type_synonym 'e trap_handler =
  "bool \<Rightarrow> u64 \<Rightarrow> u64 \<Rightarrow> u64 \<Rightarrow> instruction option \<Rightarrow> 'e \<Rightarrow> bool \<times> 'e"

record 'e riscv_state =
  st_xlen :: RiscVXlen
  registers :: "string \<rightharpoonup> reg_id"
  reg_db :: "reg_id \<Rightarrow> data_buffer"
  st_pc :: "reg_id option"
  st_flen :: int
  st_memory :: mem_handle
  st_atomic_memory :: "mem_handle option"
  on_ebreak :: "'e handler list"
  on_ecall :: "'e handler option"
  on_trap :: "'e trap_handler option"
  on_wfi :: "'e handler option"
  slog :: "log_entry list"
  env :: 'e

section \<open>Library functions as parameters\<close>

datatype error_name = kInternalErrorName

text \<open>
  \<open>lib_read\<close> is \<^verbatim>\<open>AsUint32(0)\<close> of a source operand; \<open>lib_submit\<close> is allocating a data
  buffer for a destination operand, setting its value and submitting it; \<open>lib_AddRegister\<close> and
  \<open>lib_AddRegisterAs\<close> are the two \<^verbatim>\<open>ArchState::AddRegister\<close> functions; \<open>lib_new_db\<close> is the
  identity of a buffer allocated from the state's buffer factory; \<open>lib_Raise\<close> raises a program
  error; \<open>lib_default_size\<close> is the size the generator gives the default opcode.
\<close>

record 'e mpact =
  lib_read :: "source_operand \<Rightarrow> 'e riscv_state \<Rightarrow> u32"
  lib_submit :: "dest_operand \<Rightarrow> u32 \<Rightarrow> 'e riscv_state \<Rightarrow> 'e riscv_state"
  lib_BinaryOp :: "(u32 \<Rightarrow> u32 \<Rightarrow> u32) \<Rightarrow> instruction \<Rightarrow> 'e riscv_state \<Rightarrow> 'e riscv_state option"
  lib_UnaryOp :: "(u32 \<Rightarrow> u32) \<Rightarrow> instruction \<Rightarrow> 'e riscv_state \<Rightarrow> 'e riscv_state option"
  lib_AddRegister :: "string \<Rightarrow> 'e riscv_state \<Rightarrow> reg_id \<times> 'e riscv_state"
  lib_AddRegisterAs :: "string \<Rightarrow> reg_id \<Rightarrow> 'e riscv_state \<Rightarrow> 'e riscv_state"
  lib_new_db :: "'e riscv_state \<Rightarrow> nat"
  lib_Raise :: "error_name \<Rightarrow> string \<Rightarrow> 'e \<Rightarrow> 'e"
  lib_default_size :: nat

text \<open>
  \<open>mif_load h a n c e\<close> is \<^verbatim>\<open>MemoryInterface::Load\<close> into a data buffer of \<open>n\<close> bytes, with
  (\<open>c\<close>) or without a child instruction: the bytes put into the buffer, whether the child was
  executed before the call returned, and the environment afterwards. \<open>mif_store\<close> is
  \<^verbatim>\<open>MemoryInterface::Store\<close> of a data buffer with these bytes.
\<close>

record 'e load_reply =
  lr_data :: "u8 list"
  lr_child :: bool
  lr_env :: 'e

record 'e memory_if =
  mif_load :: "mem_handle \<Rightarrow> u64 \<Rightarrow> nat \<Rightarrow> bool \<Rightarrow> 'e \<Rightarrow> 'e load_reply"
  mif_store :: "mem_handle \<Rightarrow> u64 \<Rightarrow> u8 list \<Rightarrow> 'e \<Rightarrow> 'e"

text \<open>
  The vector accesses of \<^verbatim>\<open>MemoryInterface\<close>: the bytes of the buffers of addresses and masks, the
  element size, and for a load the length of the buffer it fills.
\<close>

record 'e vector_memory_if =
  vmif_load :: "mem_handle \<Rightarrow> u8 list \<Rightarrow> u8 list \<Rightarrow> int \<Rightarrow> nat \<Rightarrow> bool \<Rightarrow> 'e \<Rightarrow> 'e load_reply"
  vmif_store :: "mem_handle \<Rightarrow> u8 list \<Rightarrow> u8 list \<Rightarrow> int \<Rightarrow> u8 list \<Rightarrow> 'e \<Rightarrow> 'e"

definition GetInstructionSource :: "'e mpact \<Rightarrow> instruction \<Rightarrow> nat \<Rightarrow> 'e riscv_state \<Rightarrow> u32 option" where
  "GetInstructionSource lib inst i s = map_option (\<lambda>op. lib_read lib op s) (Source inst i)"

text \<open>\<^verbatim>\<open>inst->Destination(i)->AllocateDataBuffer()\<close>, \<^verbatim>\<open>Set<uint32_t>(0, v)\<close>, \<^verbatim>\<open>Submit()\<close>.\<close>

definition SubmitDestination ::
  "'e mpact \<Rightarrow> instruction \<Rightarrow> nat \<Rightarrow> u32 \<Rightarrow> 'e riscv_state \<Rightarrow> 'e riscv_state option" where
  "SubmitDestination lib inst i v s =
     map_option (\<lambda>op. lib_submit lib op v s) (Destination inst i)"

section \<open>What the library documents\<close>

text \<open>
  A register destination of latency 0 gets a newly allocated buffer at once: its identity
  differs from the buffer the register holds, which is still in use at that time.
\<close>

locale mpact_operands =
  fixes lib :: "'e mpact"
  assumes read_immediate: "lib_read lib (ImmediateOperand v) s = v"
    and read_literal: "lib_read lib (IntLiteralOperand v n) s = v"
    and read_register: "lib_read lib (RegisterSource r n) s = db_get32 (reg_db s r)"
    and submit_devnull: "lib_submit lib DevNullOperand v s = s"
    and submit_register:
      "\<exists>i. i \<noteq> db_id (reg_db s r) \<and>
         lib_submit lib (RegisterDestination r 0 n) v s =
           s\<lparr>reg_db := (reg_db s)(r := \<lparr>db_id = i, db_bytes = le_bytes 4 v\<rparr>)\<rparr>"
    and binary_op:
      "lib_BinaryOp lib f inst s =
         (case (GetInstructionSource lib inst 0 s, GetInstructionSource lib inst 1 s) of
            (Some a, Some b) \<Rightarrow> SubmitDestination lib inst 0 (f a b) s
          | _ \<Rightarrow> None)"
    and unary_op:
      "lib_UnaryOp lib g inst s =
         (case GetInstructionSource lib inst 0 s of
            Some a \<Rightarrow> SubmitDestination lib inst 0 (g a) s
          | None \<Rightarrow> None)"

text \<open>A name that is not in use gets a new register object with a 4-byte buffer; adding an
  existing object under an unused name enters it under that name.\<close>

locale mpact_registers =
  fixes lib :: "'e mpact"
  assumes add_register:
      "registers s name = None \<Longrightarrow> finite (dom (registers s)) \<Longrightarrow>
       \<exists>r db. r \<notin> ran (registers s) \<and> length (db_bytes db) = 4 \<and>
         lib_AddRegister lib name s =
           (r, s\<lparr>registers := (registers s)(name \<mapsto> r), reg_db := (reg_db s)(r := db)\<rparr>)"
    and add_register_as:
      "registers s name = None \<Longrightarrow>
       lib_AddRegisterAs lib name r s = s\<lparr>registers := (registers s)(name \<mapsto> r)\<rparr>"

locale mpact_lib = mpact_operands + mpact_registers

text \<open>
  The memory behind a handle as bytes: a load returns the bytes at the address and runs the
  child at once (the buffers are given latency 0), a store replaces them.
\<close>

locale mpact_memory =
  fixes mem :: "'e memory_if" and h :: mem_handle and bytes :: "'e \<Rightarrow> u64 \<Rightarrow> u8"
  assumes load_data: "lr_data (mif_load mem h a n c e) = map (\<lambda>i. bytes e (a + of_nat i)) [0..<n]"
    and load_child: "lr_child (mif_load mem h a n c e) = c"
    and load_bytes: "bytes (lr_env (mif_load mem h a n c e)) = bytes e"
    and store_bytes:
      "bytes (mif_store mem h a bs e) =
         (\<lambda>x. if unat (x - a) < length bs then bs ! unat (x - a) else bytes e x)"

end
