(* ===== verification/Arch_State.thy ===== *)
theory Arch_State
  imports Mpact
begin

text \<open>
  \<^verbatim>\<open>other/riscv_simple_state.{h,cc}\<close>: construction of the RISC-V state, register lookup and
  aliases, memory accesses, fences and handler calls the semantic functions make.
\<close>

section \<open>Registers\<close>

definition kXregPrefix :: string where "kXregPrefix = ''x''"
definition kPcName :: string where "kPcName = ''pc''"

text \<open>\<open>GetRegister\<close> finds a register by name and creates it when there is none; the flag says
  which.\<close>

definition GetRegister ::
  "'e mpact \<Rightarrow> string \<Rightarrow> 'e riscv_state \<Rightarrow> (reg_id \<times> bool) \<times> 'e riscv_state" where
  "GetRegister lib name s =
     (case registers s name of
        Some r \<Rightarrow> ((r, False), s)
      | None \<Rightarrow> (let (r, s') = lib_AddRegister lib name s in ((r, True), s')))"

definition AddRegisterAlias ::
  "'e mpact \<Rightarrow> string \<Rightarrow> string \<Rightarrow> 'e riscv_state \<Rightarrow> status \<times> 'e riscv_state" where
  "AddRegisterAlias lib current_name new_name s =
     (case registers s current_name of
        None \<Rightarrow> (NotFoundError (''Register '' @ [CHR 0x27] @ current_name @ [CHR 0x27] @ '' does not exist.''), s)
      | Some r \<Rightarrow> (OkStatus, lib_AddRegisterAs lib new_name r s))"

section \<open>Construction\<close>

text \<open>The members before the constructor's body: no registers, no handlers.\<close>

definition ArchState_init ::
  "RiscVXlen \<Rightarrow> mem_handle \<Rightarrow> mem_handle option \<Rightarrow> 'e \<Rightarrow> 'e riscv_state" where
  "ArchState_init xlen h atomic e =
     \<lparr>st_xlen = xlen, registers = Map.empty, reg_db = (\<lambda>_. \<lparr>db_id = 0, db_bytes = []\<rparr>), st_pc = None,
      st_flen = 0, st_memory = h, st_atomic_memory = atomic, on_ebreak = [], on_ecall = None,
      on_trap = None, on_wfi = None, slog = [], env = e\<rparr>"

text \<open>The constructor, and its two overloads without atomic memory and without memory.\<close>

definition RiscVState_atomic_ctor ::
  "'e mpact \<Rightarrow> RiscVXlen \<Rightarrow> mem_handle option \<Rightarrow> mem_handle option \<Rightarrow> 'e \<Rightarrow> 'e riscv_state" where
  "RiscVState_atomic_ctor lib xlen memory atomic_memory e =
     (let s = ArchState_init xlen (case memory of None \<Rightarrow> OwnedMemory | Some h \<Rightarrow> h) atomic_memory e in
      case xlen of
        RV32 \<Rightarrow>
          (let ((pc32, _), s) = GetRegister lib kPcName s;
               db = \<lparr>db_id = lib_new_db lib s, db_bytes = le_bytes 4 (0 :: u32)\<rparr>
           in s\<lparr>st_pc := Some pc32, reg_db := (reg_db s)(pc32 := db)\<rparr>)
      | RVUnknown \<Rightarrow> s\<lparr>slog := slog s @ [LogUnsupportedXlen]\<rparr>)"

definition RiscVState_ctor ::
  "'e mpact \<Rightarrow> RiscVXlen \<Rightarrow> mem_handle option \<Rightarrow> 'e \<Rightarrow> 'e riscv_state" where
  "RiscVState_ctor lib xlen memory e = RiscVState_atomic_ctor lib xlen memory None e"

definition RiscVState_owned_ctor :: "'e mpact \<Rightarrow> RiscVXlen \<Rightarrow> 'e \<Rightarrow> 'e riscv_state" where
  "RiscVState_owned_ctor lib xlen e = RiscVState_atomic_ctor lib xlen None None e"

definition AddEbreakHandler :: "'e handler \<Rightarrow> 'e riscv_state \<Rightarrow> 'e riscv_state" where
  "AddEbreakHandler handler s = s\<lparr>on_ebreak := on_ebreak s @ [handler]\<rparr>"

definition set_memory :: "mem_handle \<Rightarrow> 'e riscv_state \<Rightarrow> 'e riscv_state" where
  "set_memory h s = s\<lparr>st_memory := h\<rparr>"

definition set_on_ecall :: "'e handler \<Rightarrow> 'e riscv_state \<Rightarrow> 'e riscv_state" where
  "set_on_ecall callback s = s\<lparr>on_ecall := Some callback\<rparr>"

definition set_on_wfi :: "'e handler \<Rightarrow> 'e riscv_state \<Rightarrow> 'e riscv_state" where
  "set_on_wfi callback s = s\<lparr>on_wfi := Some callback\<rparr>"

definition set_on_trap :: "'e trap_handler \<Rightarrow> 'e riscv_state \<Rightarrow> 'e riscv_state" where
  "set_on_trap callback s = s\<lparr>on_trap := Some callback\<rparr>"

text \<open>The accessors \<^verbatim>\<open>memory\<close>, \<^verbatim>\<open>atomic_memory\<close>, \<^verbatim>\<open>flen\<close> and \<^verbatim>\<open>xlen\<close> are the fields \<open>st_memory\<close>,
  \<open>st_atomic_memory\<close>, \<open>st_flen\<close> and \<open>st_xlen\<close>.\<close>

section \<open>Memory accesses\<close>

text \<open>
  The scalar \<^verbatim>\<open>LoadMemory\<close> and \<^verbatim>\<open>StoreMemory\<close>: the memory fills the data buffer \<open>n\<close> bytes
  long and, when it executes the child instruction, the child finds the buffer in its context;
  \<open>child\<close> is that execution, \<open>None\<close> for a null child.
\<close>

definition LoadMemory ::
  "'e memory_if \<Rightarrow> u64 \<Rightarrow> nat \<Rightarrow> (u8 list \<Rightarrow> 'e riscv_state \<Rightarrow> 'e riscv_state option) option \<Rightarrow>
   'e riscv_state \<Rightarrow> 'e riscv_state option" where
  "LoadMemory mem address n child s =
     (let r = mif_load mem (st_memory s) address n (child \<noteq> None) (env s);
          s' = s\<lparr>env := lr_env r\<rparr>
      in case child of
           None \<Rightarrow> Some s'
         | Some run \<Rightarrow> if lr_child r then run (lr_data r) s' else Some s')"

definition StoreMemory ::
  "'e memory_if \<Rightarrow> u64 \<Rightarrow> u8 list \<Rightarrow> 'e riscv_state \<Rightarrow> 'e riscv_state" where
  "StoreMemory mem address bs s = s\<lparr>env := mif_store mem (st_memory s) address bs (env s)\<rparr>"

text \<open>The overloads for vectors of addresses.\<close>

definition LoadMemory_vector ::
  "'e vector_memory_if \<Rightarrow> u8 list \<Rightarrow> u8 list \<Rightarrow> int \<Rightarrow> nat \<Rightarrow>
   (u8 list \<Rightarrow> 'e riscv_state \<Rightarrow> 'e riscv_state option) option \<Rightarrow> 'e riscv_state \<Rightarrow> 'e riscv_state option" where
  "LoadMemory_vector mem address_db mask_db el_size n child s =
     (let r = vmif_load mem (st_memory s) address_db mask_db el_size n (child \<noteq> None) (env s);
          s' = s\<lparr>env := lr_env r\<rparr>
      in case child of
           None \<Rightarrow> Some s'
         | Some run \<Rightarrow> if lr_child r then run (lr_data r) s' else Some s')"

definition StoreMemory_vector ::
  "'e vector_memory_if \<Rightarrow> u8 list \<Rightarrow> u8 list \<Rightarrow> int \<Rightarrow> u8 list \<Rightarrow> 'e riscv_state \<Rightarrow> 'e riscv_state" where
  "StoreMemory_vector mem address_db mask_db el_size bs s =
     s\<lparr>env := vmif_store mem (st_memory s) address_db mask_db el_size bs (env s)\<rparr>"

section \<open>Fences and handlers\<close>

definition Fence :: "nat \<Rightarrow> nat \<Rightarrow> nat \<Rightarrow> 'e riscv_state \<Rightarrow> 'e riscv_state" where
  "Fence fm predecessor successor s = s"

definition FenceI :: "'e riscv_state \<Rightarrow> 'e riscv_state" where
  "FenceI s = s"

definition call_handler :: "'e handler \<Rightarrow> instruction option \<Rightarrow> 'e riscv_state \<Rightarrow> bool \<times> 'e riscv_state" where
  "call_handler handler inst s = (let (res, e) = handler inst (env s) in (res, s\<lparr>env := e\<rparr>))"

definition where_of :: "instruction option \<Rightarrow> u64 option" where
  "where_of inst = map_option inst_address inst"

definition ECall :: "instruction option \<Rightarrow> 'e riscv_state \<Rightarrow> 'e riscv_state" where
  "ECall inst s =
     (let (res, s) = (case on_ecall s of None \<Rightarrow> (False, s) | Some f \<Rightarrow> call_handler f inst s)
      in if res then s
         else s\<lparr>slog := slog s @ [LogECallNoHandler (where_of inst), LogTreatingAsNop]\<rparr>)"

text \<open>The handlers in the order they were added, until one of them returns true.\<close>

fun try_handlers ::
  "'e handler list \<Rightarrow> instruction option \<Rightarrow> 'e riscv_state \<Rightarrow> bool \<times> 'e riscv_state" where
  "try_handlers [] inst s = (False, s)"
| "try_handlers (f # fs) inst s =
     (let (res, s') = call_handler f inst s in if res then (True, s') else try_handlers fs inst s')"

definition EBreak :: "instruction option \<Rightarrow> 'e riscv_state \<Rightarrow> 'e riscv_state" where
  "EBreak inst s =
     (let (res, s') = try_handlers (on_ebreak s) inst s
      in if res then s'
         else s'\<lparr>slog := slog s' @ [LogEBreakNoHandler (where_of inst), LogTreatingAsNop]\<rparr>)"

definition WFI :: "instruction option \<Rightarrow> 'e riscv_state \<Rightarrow> 'e riscv_state" where
  "WFI inst s =
     (let (res, s) = (case on_wfi s of None \<Rightarrow> (False, s) | Some f \<Rightarrow> call_handler f inst s)
      in if res then s else s\<lparr>slog := slog s @ [LogNoWfiHandler (where_of inst)]\<rparr>)"

section \<open>Handlers in order\<close>

lemma try_handlers_append:
  "try_handlers (fs @ gs) inst s =
     (let (res, s') = try_handlers fs inst s in if res then (True, s') else try_handlers gs inst s')"
  by (induction fs arbitrary: s) (auto simp: Let_def split: prod.split)

lemma try_handlers_env: "\<exists>e. snd (try_handlers fs inst s) = s\<lparr>env := e\<rparr>"
proof (induction fs arbitrary: s)
  case Nil
  show ?case by (rule exI [of _ "env s"]) simp
next
  case (Cons f fs)
  obtain r e where "f inst (env s) = (r, e)" by fastforce
  then show ?case using Cons.IH [of "s\<lparr>env := e\<rparr>"] by (auto simp: call_handler_def)
qed

end
