(* ===== verification/Decoder.thy ===== *)
theory Decoder
  imports Encoding
begin

text \<open>
  \<^verbatim>\<open>riscv_full_decoder/solution/riscv32_decoder.{h,cc}\<close> and the decoder its build generates
  from \<^verbatim>\<open>riscv32i.isa\<close>: fetching the instruction word, and making the instruction object whose
  operands come from the encoding, part by part as the description lists them.
\<close>

section \<open>The generated instruction set decoder\<close>

text \<open>
  The interface the generated decoder has of the encoding (\<^verbatim>\<open>RiscV32IEncodingBase\<close>): the
  opcode of the current word and the operand getters.
\<close>

record 'e encoding_if =
  eif_opcode :: OpcodeEnum
  eif_source :: "SourceOpEnum \<Rightarrow> 'e riscv_state \<Rightarrow> source_operand option \<times> 'e riscv_state"
  eif_dest :: "DestOpEnum \<Rightarrow> nat \<Rightarrow> 'e riscv_state \<Rightarrow> dest_operand option \<times> 'e riscv_state"

text \<open>Threading the state through a list of getter calls.\<close>

fun get_all :: "('a \<Rightarrow> 's \<Rightarrow> 'b \<times> 's) \<Rightarrow> 'a list \<Rightarrow> 's \<Rightarrow> 'b list \<times> 's" where
  "get_all f [] s = ([], s)"
| "get_all f (x # xs) s =
     (let (y, s') = f x s; (ys, s'') = get_all f xs s' in (y # ys, s''))"

definition build_part ::
  "'e encoding_if \<Rightarrow> u64 \<Rightarrow> nat \<Rightarrow> nat \<Rightarrow> op_part \<Rightarrow> instruction option \<Rightarrow>
   'e riscv_state \<Rightarrow> instruction \<times> 'e riscv_state" where
  "build_part eif address sz latency p child s =
     (let (srcs, s) = get_all (eif_source eif) (p_sources p) s;
          (dsts, s) = get_all (\<lambda>d. eif_dest eif d latency) (p_dests p) s
      in (Instruction address sz (eif_opcode eif) srcs dsts (p_semfunc p) child, s))"

text \<open>The decoder for the slot: the parts of the opcode's entry, the child part first, so
  that the instruction can own it.\<close>

definition isa_Decode ::
  "nat \<Rightarrow> u64 \<Rightarrow> 'e encoding_if \<Rightarrow> 'e riscv_state \<Rightarrow> instruction \<times> 'e riscv_state" where
  "isa_Decode default_size address eif s =
     (let e = riscv32_op default_size (eif_opcode eif);
          (child, s) =
            (case op_child e of
               None \<Rightarrow> (None, s)
             | Some p \<Rightarrow>
                 (let (c, s') = build_part eif address (op_size e) (op_latency e) p None s
                  in (Some c, s')))
      in build_part eif address (op_size e) (op_latency e) (op_main e) child s)"

section \<open>RiscV32Decoder\<close>

record riscv32_decoder =
  dec_memory :: mem_handle
  riscv_encoding :: riscv32i_encoding

definition encoding_interface :: "'e mpact \<Rightarrow> riscv32i_encoding \<Rightarrow> 'e encoding_if" where
  "encoding_interface lib enc =
     \<lparr>eif_opcode = GetOpcode enc, eif_source = GetSource lib enc, eif_dest = GetDestination lib enc\<rparr>"

text \<open>
  \<^verbatim>\<open>DecodeInstruction\<close> loads the word through the decoder's own memory pointer, parses it,
  and has the instruction set decoder make the instruction object.
\<close>

definition DecodeInstruction ::
  "'e mpact \<Rightarrow> 'e memory_if \<Rightarrow> riscv32_decoder \<Rightarrow> u64 \<Rightarrow> 'e riscv_state \<Rightarrow>
   instruction \<times> riscv32_decoder \<times> 'e riscv_state" where
  "DecodeInstruction lib mem dec address s =
     (let r = mif_load mem (dec_memory dec) address 4 False (env s);
          s = s\<lparr>env := lr_env r\<rparr>;
          iword = le_word (lr_data r);
          enc = ParseInstruction iword (riscv_encoding dec);
          (inst, s) = isa_Decode (lib_default_size lib) address (encoding_interface lib enc) s
      in (inst, dec\<lparr>riscv_encoding := enc\<rparr>, s))"

section \<open>Operands are never missing\<close>

locale operand_getters =
  fixes eif :: "'e encoding_if"
  assumes source_getter: "op \<noteq> Src_kNone \<Longrightarrow> fst (eif_source eif op s) \<noteq> None"
    and dest_getter:
      "d \<noteq> Dst_kNone \<Longrightarrow> \<exists>op. fst (eif_dest eif d 0 s) = Some op \<and> dest_ready op"
begin

lemma get_all_sources:
  "Src_kNone \<notin> set ops \<Longrightarrow>
   \<exists>srcs s'. get_all (eif_source eif) ops s = (map Some srcs, s') \<and> length srcs = length ops"
proof (induction ops arbitrary: s)
  case Nil
  then show ?case by simp
next
  case (Cons op ops)
  obtain src s1 where 1: "eif_source eif op s = (Some src, s1)"
    using source_getter [of op s] Cons.prems by (cases "eif_source eif op s") auto
  obtain srcs s2 where "get_all (eif_source eif) ops s1 = (map Some srcs, s2)" "length srcs = length ops"
    using Cons.IH [of s1] Cons.prems by auto
  with 1 show ?case by (auto intro!: exI [of _ "src # srcs"])
qed

lemma get_all_dests:
  "Dst_kNone \<notin> set ds \<Longrightarrow>
   \<exists>dsts s'. get_all (\<lambda>d. eif_dest eif d 0) ds s = (map Some dsts, s') \<and> length dsts = length ds \<and>
     list_all dest_ready dsts"
proof (induction ds arbitrary: s)
  case Nil
  then show ?case by simp
next
  case (Cons d ds)
  obtain dst s1 where 1: "eif_dest eif d 0 s = (Some dst, s1)" "dest_ready dst"
    using dest_getter [of d s] Cons.prems by (cases "eif_dest eif d 0 s") auto
  obtain dsts s2 where "get_all (\<lambda>d. eif_dest eif d 0) ds s1 = (map Some dsts, s2)"
    "length dsts = length ds" "list_all dest_ready dsts"
    using Cons by fastforce
  with 1 show ?case by (auto intro!: exI [of _ "dst # dsts"])
qed

lemma build_part_operands:
  assumes "Src_kNone \<notin> set (p_sources p)" and "Dst_kNone \<notin> set (p_dests p)"
  shows "\<exists>srcs dsts s'. build_part eif address sz 0 p child s =
      (Instruction address sz (eif_opcode eif) (map Some srcs) (map Some dsts) (p_semfunc p) child, s') \<and>
    length srcs = length (p_sources p) \<and> length dsts = length (p_dests p) \<and> list_all dest_ready dsts"
proof -
  obtain srcs s1 where "get_all (eif_source eif) (p_sources p) s = (map Some srcs, s1)"
    "length srcs = length (p_sources p)"
    using get_all_sources assms(1) by blast
  moreover obtain dsts s2 where "get_all (\<lambda>d. eif_dest eif d 0) (p_dests p) s1 = (map Some dsts, s2)"
    "length dsts = length (p_dests p)" "list_all dest_ready dsts"
    using get_all_dests assms(2) by blast
  ultimately show ?thesis by (simp add: build_part_def)
qed

end

lemma op_parts_named:
  "Src_kNone \<notin> set (p_sources (op_main (riscv32_op L op)))"
  "Dst_kNone \<notin> set (p_dests (op_main (riscv32_op L op)))"
  "op_child (riscv32_op L op) = Some p \<Longrightarrow> Src_kNone \<notin> set (p_sources p) \<and> Dst_kNone \<notin> set (p_dests p)"
  by (cases op; auto simp: isa_defs)+

definition operands_of :: "op_part \<Rightarrow> instruction \<Rightarrow> bool" where
  "operands_of p inst \<longleftrightarrow>
     (\<exists>srcs dsts. inst_sources inst = map Some srcs \<and> inst_dests inst = map Some dsts \<and>
        length srcs = length (p_sources p) \<and> length dsts = length (p_dests p) \<and>
        list_all dest_ready dsts) \<and>
     inst_semfunc inst = p_semfunc p"

context operand_getters
begin

lemma isa_Decode_operands:
  assumes "isa_Decode L address eif s = (inst, s')"
  shows "inst_address inst = address" "inst_opcode inst = eif_opcode eif"
    "inst_size inst = op_size (riscv32_op L (eif_opcode eif))"
    "operands_of (op_main (riscv32_op L (eif_opcode eif))) inst"
    "rel_option operands_of (op_child (riscv32_op L (eif_opcode eif))) (inst_child inst)"
proof -
  let ?e = "riscv32_op L (eif_opcode eif)"
  obtain child s1 where c:
    "(case op_child ?e of None \<Rightarrow> (None, s)
      | Some p \<Rightarrow> (let (c, s') = build_part eif address (op_size ?e) (op_latency ?e) p None s in (Some c, s')))
     = (child, s1)" "rel_option operands_of (op_child ?e) child"
  proof (cases "op_child ?e")
    case None
    with that show ?thesis by simp
  next
    case (Some p)
    with op_parts_named(3) [of L "eif_opcode eif" p] build_part_operands [of p address "op_size ?e" None s]
    obtain srcs dsts s2 where
      "build_part eif address (op_size ?e) 0 p None s =
        (Instruction address (op_size ?e) (eif_opcode eif) (map Some srcs) (map Some dsts) (p_semfunc p) None, s2)"
      "length srcs = length (p_sources p)" "length dsts = length (p_dests p)" "list_all dest_ready dsts"
      by blast
    with Some that show ?thesis by (auto simp: operands_of_def)
  qed
  obtain srcs dsts s3 where
    "build_part eif address (op_size ?e) 0 (op_main ?e) child s1 =
      (Instruction address (op_size ?e) (eif_opcode eif) (map Some srcs) (map Some dsts)
         (p_semfunc (op_main ?e)) child, s3)"
    "length srcs = length (p_sources (op_main ?e))" "length dsts = length (p_dests (op_main ?e))"
    "list_all dest_ready dsts"
    using build_part_operands op_parts_named(1,2) by blast
  with assms c show "inst_address inst = address" "inst_opcode inst = eif_opcode eif"
    "inst_size inst = op_size ?e" "operands_of (op_main ?e) inst"
    "rel_option operands_of (op_child ?e) (inst_child inst)"
    by (auto simp: isa_Decode_def Let_def operands_of_def)
qed

end

lemma xreg_source_not_none: "fst (xreg_source lib n s) \<noteq> None"
  by (simp add: xreg_source_def split: prod.split)

interpretation encoding_getters: operand_getters "encoding_interface lib enc" for lib enc
proof
  fix op and s :: "'a riscv_state"
  assume "op \<noteq> Src_kNone"
  then show "fst (eif_source (encoding_interface lib enc) op s) \<noteq> None"
    by (cases op) (auto simp: encoding_interface_def xreg_source_not_none split: prod.split)
next
  fix d and s :: "'a riscv_state"
  assume "d \<noteq> Dst_kNone"
  then show "\<exists>op. fst (eif_dest (encoding_interface lib enc) d 0 s) = Some op \<and> dest_ready op"
    by (cases d)
       (auto simp: encoding_interface_def GetRegisterDestinationOp_def Let_def split: prod.split)
qed

end
