(* ===== verification/Semantics.thy ===== *)
theory Semantics
  imports Decoder "HOL-Library.Monad_Syntax"
begin

text \<open>
  \<^verbatim>\<open>riscv_semantic_functions/solution/rv32i_instructions.cc\<close> and
  \<^verbatim>\<open>zicsr_instructions.cc\<close>: the semantic functions. Each takes the instruction object and the
  state; \<open>None\<close> is an access to an operand the instruction does not have, which is undefined
  behaviour in the code.
\<close>

section \<open>Illegal instructions\<close>

definition RV32IllegalInstruction :: "'e mpact \<Rightarrow> instruction \<Rightarrow> 'e riscv_state \<Rightarrow> 'e riscv_state" where
  "RV32IllegalInstruction lib inst s =
     s\<lparr>env := lib_Raise lib kInternalErrorName
                (''Illegal instruction at '' @ hex_str (unat (inst_address inst))) (env s),
       slog := slog s @ [LogIllegalInstruction (inst_address inst)]\<rparr>"

section \<open>Basic ALU operations (exercise 2)\<close>

definition RV32IAdd :: "'e mpact \<Rightarrow> instruction \<Rightarrow> 'e riscv_state \<Rightarrow> 'e riscv_state option" where
  "RV32IAdd lib instruction = lib_BinaryOp lib (\<lambda>a b. a + b) instruction"

definition RV32IAnd :: "'e mpact \<Rightarrow> instruction \<Rightarrow> 'e riscv_state \<Rightarrow> 'e riscv_state option" where
  "RV32IAnd lib instruction = lib_BinaryOp lib (\<lambda>a b. a AND b) instruction"

definition RV32IOr :: "'e mpact \<Rightarrow> instruction \<Rightarrow> 'e riscv_state \<Rightarrow> 'e riscv_state option" where
  "RV32IOr lib instruction = lib_BinaryOp lib (\<lambda>a b. a OR b) instruction"

definition RV32ISll :: "'e mpact \<Rightarrow> instruction \<Rightarrow> 'e riscv_state \<Rightarrow> 'e riscv_state option" where
  "RV32ISll lib instruction =
     lib_BinaryOp lib (\<lambda>a b. push_bit (unat (b AND 0x1f)) a) instruction"

definition RV32ISltu :: "'e mpact \<Rightarrow> instruction \<Rightarrow> 'e riscv_state \<Rightarrow> 'e riscv_state option" where
  "RV32ISltu lib instruction = lib_BinaryOp lib (\<lambda>a b. if a < b then 1 else 0) instruction"

text \<open>The first operand is read as \<^verbatim>\<open>int32_t\<close>, so that \<open>>>\<close> is arithmetic; the result is
  stored as \<^verbatim>\<open>uint32_t\<close>.\<close>

definition RV32ISra :: "'e mpact \<Rightarrow> instruction \<Rightarrow> 'e riscv_state \<Rightarrow> 'e riscv_state option" where
  "RV32ISra lib instruction =
     lib_BinaryOp lib (\<lambda>a b. word_of_int (drop_bit (unat (b AND 0x1f)) (sint a))) instruction"

definition RV32ISrl :: "'e mpact \<Rightarrow> instruction \<Rightarrow> 'e riscv_state \<Rightarrow> 'e riscv_state option" where
  "RV32ISrl lib instruction =
     lib_BinaryOp lib (\<lambda>a b. drop_bit (unat (b AND 0x1f)) a) instruction"

definition RV32ISub :: "'e mpact \<Rightarrow> instruction \<Rightarrow> 'e riscv_state \<Rightarrow> 'e riscv_state option" where
  "RV32ISub lib instruction = lib_BinaryOp lib (\<lambda>a b. a - b) instruction"

definition RV32IXor :: "'e mpact \<Rightarrow> instruction \<Rightarrow> 'e riscv_state \<Rightarrow> 'e riscv_state option" where
  "RV32IXor lib instruction = lib_BinaryOp lib (\<lambda>a b. a XOR b) instruction"

section \<open>Upper immediates (exercise 3)\<close>

definition RV32ILui :: "'e mpact \<Rightarrow> instruction \<Rightarrow> 'e riscv_state \<Rightarrow> 'e riscv_state option" where
  "RV32ILui lib instruction = lib_UnaryOp lib (\<lambda>a. a) instruction"

text \<open>The sum is taken in 64 bits, the width of \<^verbatim>\<open>address()\<close>, and cut to 32.\<close>

definition RV32IAuipc :: "'e mpact \<Rightarrow> instruction \<Rightarrow> 'e riscv_state \<Rightarrow> 'e riscv_state option" where
  "RV32IAuipc lib instruction =
     lib_UnaryOp lib (\<lambda>a. ucast ((ucast a :: u64) + inst_address instruction)) instruction"

section \<open>Branches and jumps (exercise 4)\<close>

text \<open>\<^verbatim>\<open>BranchConditional<OperandType>\<close>; \<open>conv\<close> reads a register value as the operand type.\<close>

definition BranchConditional ::
  "'e mpact \<Rightarrow> (u32 \<Rightarrow> 'a) \<Rightarrow> instruction \<Rightarrow> ('a \<Rightarrow> 'a \<Rightarrow> bool) \<Rightarrow> 'e riscv_state \<Rightarrow>
   'e riscv_state option" where
  "BranchConditional lib conv instruction cond s = do {
     a \<leftarrow> GetInstructionSource lib instruction 0 s;
     b \<leftarrow> GetInstructionSource lib instruction 1 s;
     if cond (conv a) (conv b) then do {
       offset \<leftarrow> GetInstructionSource lib instruction 2 s;
       let target = (ucast ((ucast offset :: u64) + inst_address instruction) :: u32);
       SubmitDestination lib instruction 0 target s
     } else Some s
   }"

definition RV32IBeq :: "'e mpact \<Rightarrow> instruction \<Rightarrow> 'e riscv_state \<Rightarrow> 'e riscv_state option" where
  "RV32IBeq lib instruction = BranchConditional lib (\<lambda>x. x) instruction (\<lambda>a b. a = b)"

definition RV32IBge :: "'e mpact \<Rightarrow> instruction \<Rightarrow> 'e riscv_state \<Rightarrow> 'e riscv_state option" where
  "RV32IBge lib instruction = BranchConditional lib sint instruction (\<lambda>a b. a \<ge> b)"

definition RV32IBgeu :: "'e mpact \<Rightarrow> instruction \<Rightarrow> 'e riscv_state \<Rightarrow> 'e riscv_state option" where
  "RV32IBgeu lib instruction = BranchConditional lib (\<lambda>x. x) instruction (\<lambda>a b. a \<ge> b)"

definition RV32IBlt :: "'e mpact \<Rightarrow> instruction \<Rightarrow> 'e riscv_state \<Rightarrow> 'e riscv_state option" where
  "RV32IBlt lib instruction = BranchConditional lib sint instruction (\<lambda>a b. a < b)"

definition RV32IBltu :: "'e mpact \<Rightarrow> instruction \<Rightarrow> 'e riscv_state \<Rightarrow> 'e riscv_state option" where
  "RV32IBltu lib instruction = BranchConditional lib (\<lambda>x. x) instruction (\<lambda>a b. a < b)"

definition RV32IBne :: "'e mpact \<Rightarrow> instruction \<Rightarrow> 'e riscv_state \<Rightarrow> 'e riscv_state option" where
  "RV32IBne lib instruction = BranchConditional lib (\<lambda>x. x) instruction (\<lambda>a b. a \<noteq> b)"

definition RV32IJal :: "'e mpact \<Rightarrow> instruction \<Rightarrow> 'e riscv_state \<Rightarrow> 'e riscv_state option" where
  "RV32IJal lib instruction s = do {
     offset \<leftarrow> GetInstructionSource lib instruction 0 s;
     let target = (ucast ((ucast offset :: u64) + inst_address instruction) :: u32);
     let return_address =
       (ucast (inst_address instruction + of_nat (inst_size instruction)) :: u32);
     s \<leftarrow> SubmitDestination lib instruction 0 target s;
     SubmitDestination lib instruction 1 return_address s
   }"

definition RV32IJalr :: "'e mpact \<Rightarrow> instruction \<Rightarrow> 'e riscv_state \<Rightarrow> 'e riscv_state option" where
  "RV32IJalr lib instruction s = do {
     reg_base \<leftarrow> GetInstructionSource lib instruction 0 s;
     offset \<leftarrow> GetInstructionSource lib instruction 1 s;
     let target = offset + reg_base;
     let return_address =
       (ucast (inst_address instruction + of_nat (inst_size instruction)) :: u32);
     s \<leftarrow> SubmitDestination lib instruction 0 target s;
     SubmitDestination lib instruction 1 return_address s
   }"

section \<open>Stores (exercise 5)\<close>

text \<open>\<^verbatim>\<open>StoreValue<ValueType>\<close>, for a value type of \<open>n\<close> bytes: the value operand is read at
  that width, which keeps its low bytes.\<close>

definition StoreValue ::
  "nat \<Rightarrow> 'e mpact \<Rightarrow> 'e memory_if \<Rightarrow> instruction \<Rightarrow> 'e riscv_state \<Rightarrow> 'e riscv_state option" where
  "StoreValue n lib mem instruction s = do {
     base \<leftarrow> GetInstructionSource lib instruction 0 s;
     offset \<leftarrow> GetInstructionSource lib instruction 1 s;
     let address = base + offset;
     value \<leftarrow> GetInstructionSource lib instruction 2 s;
     Some (StoreMemory mem (ucast address) (le_bytes n value) s)
   }"

definition RV32ISw ::
  "'e mpact \<Rightarrow> 'e memory_if \<Rightarrow> instruction \<Rightarrow> 'e riscv_state \<Rightarrow> 'e riscv_state option" where
  "RV32ISw = StoreValue 4"

definition RV32ISh ::
  "'e mpact \<Rightarrow> 'e memory_if \<Rightarrow> instruction \<Rightarrow> 'e riscv_state \<Rightarrow> 'e riscv_state option" where
  "RV32ISh = StoreValue 2"

definition RV32ISb ::
  "'e mpact \<Rightarrow> 'e memory_if \<Rightarrow> instruction \<Rightarrow> 'e riscv_state \<Rightarrow> 'e riscv_state option" where
  "RV32ISb = StoreValue 1"

section \<open>Loads (exercise 6)\<close>

text \<open>
  \<^verbatim>\<open>LoadValue<ValueType>\<close> computes the address and starts the load with the child instruction
  and a context that holds the data buffer; \<open>exec\<close> executes the child with that context (the
  bytes of the buffer).
\<close>

definition LoadValue ::
  "nat \<Rightarrow> 'e mpact \<Rightarrow> 'e memory_if \<Rightarrow>
   (instruction \<Rightarrow> u8 list \<Rightarrow> 'e riscv_state \<Rightarrow> 'e riscv_state option) \<Rightarrow>
   instruction \<Rightarrow> 'e riscv_state \<Rightarrow> 'e riscv_state option" where
  "LoadValue n lib mem exec instruction s = do {
     base \<leftarrow> GetInstructionSource lib instruction 0 s;
     offset \<leftarrow> GetInstructionSource lib instruction 1 s;
     let address = base + offset;
     LoadMemory mem (ucast address) n (map_option exec (inst_child instruction)) s
   }"

text \<open>\<^verbatim>\<open>LoadValueChild<ValueType>\<close>; \<open>get\<close> reads the value type from the buffer and converts it
  to \<^verbatim>\<open>uint32_t\<close>.\<close>

definition LoadValueChild ::
  "(u8 list \<Rightarrow> u32) \<Rightarrow> 'e mpact \<Rightarrow> instruction \<Rightarrow> u8 list \<Rightarrow> 'e riscv_state \<Rightarrow>
   'e riscv_state option" where
  "LoadValueChild get lib instruction context s =
     (let value = get context in SubmitDestination lib instruction 0 value s)"

definition get_uint32 :: "u8 list \<Rightarrow> u32" where "get_uint32 bs = le_word (take 4 bs)"
definition get_uint16 :: "u8 list \<Rightarrow> u32" where "get_uint16 bs = ucast (le_word (take 2 bs) :: u16)"
definition get_int16 :: "u8 list \<Rightarrow> u32" where "get_int16 bs = scast (le_word (take 2 bs) :: u16)"
definition get_uint8 :: "u8 list \<Rightarrow> u32" where "get_uint8 bs = ucast (le_word (take 1 bs) :: u8)"
definition get_int8 :: "u8 list \<Rightarrow> u32" where "get_int8 bs = scast (le_word (take 1 bs) :: u8)"

type_synonym 'e child_exec =
  "instruction \<Rightarrow> u8 list \<Rightarrow> 'e riscv_state \<Rightarrow> 'e riscv_state option"

definition RV32ILw ::
  "'e mpact \<Rightarrow> 'e memory_if \<Rightarrow> 'e child_exec \<Rightarrow> instruction \<Rightarrow> 'e riscv_state \<Rightarrow>
   'e riscv_state option" where
  "RV32ILw = LoadValue 4"

definition RV32ILwChild :: "'e mpact \<Rightarrow> 'e child_exec" where
  "RV32ILwChild = LoadValueChild get_uint32"

definition RV32ILh ::
  "'e mpact \<Rightarrow> 'e memory_if \<Rightarrow> 'e child_exec \<Rightarrow> instruction \<Rightarrow> 'e riscv_state \<Rightarrow>
   'e riscv_state option" where
  "RV32ILh = LoadValue 2"

definition RV32ILhChild :: "'e mpact \<Rightarrow> 'e child_exec" where
  "RV32ILhChild = LoadValueChild get_int16"

definition RV32ILhu ::
  "'e mpact \<Rightarrow> 'e memory_if \<Rightarrow> 'e child_exec \<Rightarrow> instruction \<Rightarrow> 'e riscv_state \<Rightarrow>
   'e riscv_state option" where
  "RV32ILhu = LoadValue 2"

definition RV32ILhuChild :: "'e mpact \<Rightarrow> 'e child_exec" where
  "RV32ILhuChild = LoadValueChild get_uint16"

definition RV32ILb ::
  "'e mpact \<Rightarrow> 'e memory_if \<Rightarrow> 'e child_exec \<Rightarrow> instruction \<Rightarrow> 'e riscv_state \<Rightarrow>
   'e riscv_state option" where
  "RV32ILb = LoadValue 1"

definition RV32ILbChild :: "'e mpact \<Rightarrow> 'e child_exec" where
  "RV32ILbChild = LoadValueChild get_int8"

definition RV32ILbu ::
  "'e mpact \<Rightarrow> 'e memory_if \<Rightarrow> 'e child_exec \<Rightarrow> instruction \<Rightarrow> 'e riscv_state \<Rightarrow>
   'e riscv_state option" where
  "RV32ILbu = LoadValue 1"

definition RV32ILbuChild :: "'e mpact \<Rightarrow> 'e child_exec" where
  "RV32ILbuChild = LoadValueChild get_uint8"

section \<open>Fence, ebreak and the CSR stubs\<close>

text \<open>The fields \<^verbatim>\<open>fm\<close>, \<^verbatim>\<open>predecessor\<close> and \<^verbatim>\<open>successor\<close> of the immediate.\<close>

definition fence_fields :: "u32 \<Rightarrow> nat \<times> nat \<times> nat" where
  "fence_fields bits =
     (unat (drop_bit 8 bits AND 0xf), unat (drop_bit 4 bits AND 0xf), unat (bits AND 0xf))"

definition RV32IFence :: "'e mpact \<Rightarrow> instruction \<Rightarrow> 'e riscv_state \<Rightarrow> 'e riscv_state option" where
  "RV32IFence lib instruction s = do {
     bits \<leftarrow> GetInstructionSource lib instruction 0 s;
     let (fm, predecessor, successor) = fence_fields bits;
     Some (Fence fm predecessor successor s)
   }"

definition RV32IEbreak :: "instruction \<Rightarrow> 'e riscv_state \<Rightarrow> 'e riscv_state" where
  "RV32IEbreak instruction s = EBreak (Some instruction) s"

definition RV32ZiCsrs :: "instruction \<Rightarrow> 'e riscv_state \<Rightarrow> 'e riscv_state" where
  "RV32ZiCsrs instruction s = s"

definition RV32ZiCsrwNr :: "instruction \<Rightarrow> 'e riscv_state \<Rightarrow> 'e riscv_state" where
  "RV32ZiCsrwNr instruction s = s"

definition RV32ZiCsrsNw :: "instruction \<Rightarrow> 'e riscv_state \<Rightarrow> 'e riscv_state" where
  "RV32ZiCsrsNw instruction s = s"

section \<open>Executing an instruction\<close>

text \<open>
  A child part runs with the context of the load; only the child functions read a context, and
  reading it without one is a null dereference (\<open>None\<close>).
\<close>

fun execute_child :: "'e mpact \<Rightarrow> 'e child_exec" where
  "execute_child lib inst context s =
     (case inst_semfunc inst of
        fn_RV32ILwChild \<Rightarrow> RV32ILwChild lib inst context s
      | fn_RV32ILhChild \<Rightarrow> RV32ILhChild lib inst context s
      | fn_RV32ILhuChild \<Rightarrow> RV32ILhuChild lib inst context s
      | fn_RV32ILbChild \<Rightarrow> RV32ILbChild lib inst context s
      | fn_RV32ILbuChild \<Rightarrow> RV32ILbuChild lib inst context s
      | _ \<Rightarrow> None)"

text \<open>\<^verbatim>\<open>Instruction::Execute(nullptr)\<close> calls the semantic function of the instruction.\<close>

definition Execute ::
  "'e mpact \<Rightarrow> 'e memory_if \<Rightarrow> instruction \<Rightarrow> 'e riscv_state \<Rightarrow> 'e riscv_state option" where
  "Execute lib mem inst s =
     (case inst_semfunc inst of
        fn_RV32IllegalInstruction \<Rightarrow> Some (RV32IllegalInstruction lib inst s)
      | fn_RV32IAdd \<Rightarrow> RV32IAdd lib inst s
      | fn_RV32IAnd \<Rightarrow> RV32IAnd lib inst s
      | fn_RV32IOr \<Rightarrow> RV32IOr lib inst s
      | fn_RV32ISll \<Rightarrow> RV32ISll lib inst s
      | fn_RV32ISltu \<Rightarrow> RV32ISltu lib inst s
      | fn_RV32ISra \<Rightarrow> RV32ISra lib inst s
      | fn_RV32ISrl \<Rightarrow> RV32ISrl lib inst s
      | fn_RV32ISub \<Rightarrow> RV32ISub lib inst s
      | fn_RV32IXor \<Rightarrow> RV32IXor lib inst s
      | fn_RV32ILui \<Rightarrow> RV32ILui lib inst s
      | fn_RV32IAuipc \<Rightarrow> RV32IAuipc lib inst s
      | fn_RV32IBeq \<Rightarrow> RV32IBeq lib inst s
      | fn_RV32IBge \<Rightarrow> RV32IBge lib inst s
      | fn_RV32IBgeu \<Rightarrow> RV32IBgeu lib inst s
      | fn_RV32IBlt \<Rightarrow> RV32IBlt lib inst s
      | fn_RV32IBltu \<Rightarrow> RV32IBltu lib inst s
      | fn_RV32IBne \<Rightarrow> RV32IBne lib inst s
      | fn_RV32IJal \<Rightarrow> RV32IJal lib inst s
      | fn_RV32IJalr \<Rightarrow> RV32IJalr lib inst s
      | fn_RV32ISb \<Rightarrow> RV32ISb lib mem inst s
      | fn_RV32ISh \<Rightarrow> RV32ISh lib mem inst s
      | fn_RV32ISw \<Rightarrow> RV32ISw lib mem inst s
      | fn_RV32ILb \<Rightarrow> RV32ILb lib mem (execute_child lib) inst s
      | fn_RV32ILbu \<Rightarrow> RV32ILbu lib mem (execute_child lib) inst s
      | fn_RV32ILh \<Rightarrow> RV32ILh lib mem (execute_child lib) inst s
      | fn_RV32ILhu \<Rightarrow> RV32ILhu lib mem (execute_child lib) inst s
      | fn_RV32ILw \<Rightarrow> RV32ILw lib mem (execute_child lib) inst s
      | fn_RV32IFence \<Rightarrow> RV32IFence lib inst s
      | fn_RV32IEbreak \<Rightarrow> Some (RV32IEbreak inst s)
      | fn_RV32ZiCsrs \<Rightarrow> Some (RV32ZiCsrs inst s)
      | fn_RV32ZiCsrwNr \<Rightarrow> Some (RV32ZiCsrwNr inst s)
      | fn_RV32ZiCsrsNw \<Rightarrow> Some (RV32ZiCsrsNw inst s)
      | _ \<Rightarrow> None)"

section \<open>Effects\<close>

text \<open>
  What one instruction does to the state, for any library that keeps its documented promises:
  \<open>reg_write s r v s'\<close> says that register object \<open>r\<close> got a new buffer holding \<open>v\<close> and
  nothing else changed.
\<close>

definition reg_write :: "'e riscv_state \<Rightarrow> reg_id \<Rightarrow> u32 \<Rightarrow> 'e riscv_state \<Rightarrow> bool" where
  "reg_write s r v s' \<longleftrightarrow>
     (\<exists>i. i \<noteq> db_id (reg_db s r) \<and>
        s' = s\<lparr>reg_db := (reg_db s)(r := \<lparr>db_id = i, db_bytes = le_bytes 4 v\<rparr>)\<rparr>)"

definition dest_write :: "'e riscv_state \<Rightarrow> dest_operand \<Rightarrow> u32 \<Rightarrow> 'e riscv_state \<Rightarrow> bool" where
  "dest_write s d v s' \<longleftrightarrow>
     (case d of DevNullOperand \<Rightarrow> s' = s | RegisterDestination r l n \<Rightarrow> reg_write s r v s')"

fun source_value :: "source_operand \<Rightarrow> 'e riscv_state \<Rightarrow> u32" where
  "source_value (ImmediateOperand v) s = v"
| "source_value (IntLiteralOperand v n) s = v"
| "source_value (RegisterSource r n) s = db_get32 (reg_db s r)"

context mpact_operands
begin

lemma read_value: "lib_read lib op s = source_value op s"
  by (cases op) (simp_all add: read_immediate read_literal read_register)

lemma submit_write: "dest_ready d \<Longrightarrow> dest_write s d v (lib_submit lib d v s)"
  using submit_register [of s _ _ v]
  by (cases d) (auto simp: dest_write_def submit_devnull reg_write_def)

lemma submit_destination:
  assumes "Destination inst i = Some d" and "dest_ready d"
  shows "\<exists>s'. SubmitDestination lib inst i v s = Some s' \<and> dest_write s d v s'"
  using assms submit_write by (auto simp: SubmitDestination_def)

lemma binary_op_effect:
  assumes "Source inst 0 = Some a" and "Source inst 1 = Some b"
    and "Destination inst 0 = Some d" and "dest_ready d"
  shows "\<exists>s'. lib_BinaryOp lib f inst s = Some s' \<and>
           dest_write s d (f (source_value a s) (source_value b s)) s'"
  using submit_destination [OF assms(3,4)] assms(1,2)
  by (simp add: binary_op GetInstructionSource_def read_value)

lemma unary_op_effect:
  assumes "Source inst 0 = Some a" and "Destination inst 0 = Some d" and "dest_ready d"
  shows "\<exists>s'. lib_UnaryOp lib g inst s = Some s' \<and> dest_write s d (g (source_value a s)) s'"
  using submit_destination [OF assms(2,3)] assms(1)
  by (simp add: unary_op GetInstructionSource_def read_value)

lemma branch_effect:
  assumes "Source inst 0 = Some a" and "Source inst 1 = Some b" and "Source inst 2 = Some c"
    and "Destination inst 0 = Some d" and "dest_ready d"
  shows "\<exists>s'. BranchConditional lib conv inst cond s = Some s' \<and>
           (if cond (conv (source_value a s)) (conv (source_value b s))
            then dest_write s d (source_value c s + ucast (inst_address inst)) s' else s' = s)"
  using submit_destination [OF assms(4,5)] assms(1-3)
  by (simp add: BranchConditional_def GetInstructionSource_def read_value ucast_add_64_32)


lemma jal_effect:
  assumes "Source inst 0 = Some a"
    and "Destination inst 0 = Some d" and "dest_ready d"
    and "Destination inst 1 = Some d'" and "dest_ready d'"
  shows "\<exists>s1 s2. RV32IJal lib inst s = Some s2 \<and>
           dest_write s d (source_value a s + ucast (inst_address inst)) s1 \<and>
           dest_write s1 d' (ucast (inst_address inst) + of_nat (inst_size inst)) s2"
proof -
  obtain s1 where s1: "SubmitDestination lib inst 0 (source_value a s + ucast (inst_address inst)) s = Some s1"
    "dest_write s d (source_value a s + ucast (inst_address inst)) s1"
    using submit_destination [OF assms(2,3)] by blast
  obtain s2 where "SubmitDestination lib inst 1 (ucast (inst_address inst) + of_nat (inst_size inst)) s1 = Some s2"
    "dest_write s1 d' (ucast (inst_address inst) + of_nat (inst_size inst)) s2"
    using submit_destination [OF assms(4,5)] by blast
  with s1 show ?thesis
    using assms(1)
    by (auto simp: RV32IJal_def GetInstructionSource_def read_value ucast_add_64_32)
qed

lemma jalr_effect:
  assumes "Source inst 0 = Some a" and "Source inst 1 = Some b"
    and "Destination inst 0 = Some d" and "dest_ready d"
    and "Destination inst 1 = Some d'" and "dest_ready d'"
  shows "\<exists>s1 s2. RV32IJalr lib inst s = Some s2 \<and>
           dest_write s d (source_value b s + source_value a s) s1 \<and>
           dest_write s1 d' (ucast (inst_address inst) + of_nat (inst_size inst)) s2"
proof -
  obtain s1 where s1: "SubmitDestination lib inst 0 (source_value b s + source_value a s) s = Some s1"
    "dest_write s d (source_value b s + source_value a s) s1"
    using submit_destination [OF assms(3,4)] by blast
  obtain s2 where "SubmitDestination lib inst 1 (ucast (inst_address inst) + of_nat (inst_size inst)) s1 = Some s2"
    "dest_write s1 d' (ucast (inst_address inst) + of_nat (inst_size inst)) s2"
    using submit_destination [OF assms(5,6)] by blast
  with s1 show ?thesis
    using assms(1,2)
    by (auto simp: RV32IJalr_def GetInstructionSource_def read_value ucast_add_64_32)
qed

lemma store_effect:
  assumes "Source inst 0 = Some a" and "Source inst 1 = Some b" and "Source inst 2 = Some c"
  shows "StoreValue n lib mem inst s =
    Some (StoreMemory mem (ucast (source_value a s + source_value b s)) (le_bytes n (source_value c s)) s)"
  using assms by (simp add: StoreValue_def GetInstructionSource_def read_value)

lemma load_effect:
  assumes "Source inst 0 = Some a" and "Source inst 1 = Some b"
  shows "LoadValue n lib mem exec inst s =
    LoadMemory mem (ucast (source_value a s + source_value b s)) n (map_option exec (inst_child inst)) s"
  using assms by (simp add: LoadValue_def GetInstructionSource_def read_value)

lemma load_child_effect:
  assumes "Destination inst 0 = Some d" and "dest_ready d"
  shows "\<exists>s'. LoadValueChild get lib inst ctx s = Some s' \<and> dest_write s d (get ctx) s'"
  using submit_destination [OF assms] by (simp add: LoadValueChild_def)

lemma fence_effect:
  "Source inst 0 = Some a \<Longrightarrow> RV32IFence lib inst s = Some s"
  by (simp add: RV32IFence_def GetInstructionSource_def Fence_def split: prod.split)

end

end
