(* ===== verification/Execution.thy ===== *)
theory Execution
  imports Semantics
begin

text \<open>
  Every semantic function finds the operands it reads: an instruction object built by the
  decoder has, part by part, the operands its description lists, and executing it never
  dereferences a missing operand.
\<close>

section \<open>Every decoded instruction executes\<close>

lemma operands_source:
  "operands_of p inst \<Longrightarrow> Suc i \<le> length (p_sources p) \<Longrightarrow> \<exists>a. Source inst i = Some a"
  by (auto simp: operands_of_def Source_def Suc_le_eq)

lemma operands_dest:
  "operands_of p inst \<Longrightarrow> Suc i \<le> length (p_dests p) \<Longrightarrow> \<exists>d. Destination inst i = Some d \<and> dest_ready d"
  by (auto simp: operands_of_def Destination_def list_all_length Suc_le_eq)

context mpact_operands
begin

lemma binary_op_runs:
  assumes "operands_of p inst" and "2 \<le> length (p_sources p)" and "1 \<le> length (p_dests p)"
  shows "\<exists>s'. lib_BinaryOp lib f inst s = Some s'"
  using operands_source [OF assms(1), of 0] operands_source [OF assms(1), of 1]
    operands_dest [OF assms(1), of 0] binary_op_effect assms(2,3) by fastforce

lemma unary_op_runs:
  assumes "operands_of p inst" and "1 \<le> length (p_sources p)" and "1 \<le> length (p_dests p)"
  shows "\<exists>s'. lib_UnaryOp lib f inst s = Some s'"
  using operands_source [OF assms(1), of 0] operands_dest [OF assms(1), of 0] unary_op_effect
    assms(2,3) by fastforce

lemma branch_runs:
  assumes "operands_of p inst" and "3 \<le> length (p_sources p)" and "1 \<le> length (p_dests p)"
  shows "\<exists>s'. BranchConditional lib conv inst cond s = Some s'"
proof -
  obtain a b c d where "Source inst 0 = Some a" "Source inst 1 = Some b" "Source inst 2 = Some c"
    "Destination inst 0 = Some d" "dest_ready d"
    using operands_source [OF assms(1), of 0] operands_source [OF assms(1), of 1]
      operands_source [OF assms(1), of 2] operands_dest [OF assms(1), of 0] assms(2,3) by auto
  from branch_effect [OF this] show ?thesis by blast
qed

lemma jal_runs:
  assumes "operands_of p inst" and "1 \<le> length (p_sources p)" and "2 \<le> length (p_dests p)"
  shows "\<exists>s'. RV32IJal lib inst s = Some s'"
proof -
  obtain a d d' where "Source inst 0 = Some a" "Destination inst 0 = Some d" "dest_ready d"
    "Destination inst 1 = Some d'" "dest_ready d'"
    using operands_source [OF assms(1), of 0] operands_dest [OF assms(1), of 0]
      operands_dest [OF assms(1), of 1] assms(2,3) by auto
  from jal_effect [OF this] show ?thesis by blast
qed

lemma jalr_runs:
  assumes "operands_of p inst" and "2 \<le> length (p_sources p)" and "2 \<le> length (p_dests p)"
  shows "\<exists>s'. RV32IJalr lib inst s = Some s'"
proof -
  obtain a b d d' where "Source inst 0 = Some a" "Source inst 1 = Some b"
    "Destination inst 0 = Some d" "dest_ready d" "Destination inst 1 = Some d'" "dest_ready d'"
    using operands_source [OF assms(1), of 0] operands_source [OF assms(1), of 1]
      operands_dest [OF assms(1), of 0] operands_dest [OF assms(1), of 1] assms(2,3) by auto
  from jalr_effect [OF this] show ?thesis by blast
qed

lemma store_runs:
  assumes "operands_of p inst" and "3 \<le> length (p_sources p)"
  shows "\<exists>s'. StoreValue n lib mem inst s = Some s'"
proof -
  obtain a b c where "Source inst 0 = Some a" "Source inst 1 = Some b" "Source inst 2 = Some c"
    using operands_source [OF assms(1), of 0] operands_source [OF assms(1), of 1]
      operands_source [OF assms(1), of 2] assms(2) by auto
  from store_effect [OF this] show ?thesis by blast
qed

lemma load_child_runs:
  assumes "operands_of p inst" and "1 \<le> length (p_dests p)"
  shows "\<exists>s'. LoadValueChild get lib inst ctx s = Some s'"
  using operands_dest [OF assms(1), of 0] load_child_effect assms(2) by fastforce

lemma load_runs:
  assumes "operands_of p inst" and "2 \<le> length (p_sources p)"
    and "inst_child inst = Some c" and "\<And>ctx s. \<exists>s'. exec c ctx s = Some s'"
  shows "\<exists>s'. LoadValue n lib mem exec inst s = Some s'"
proof -
  obtain a b where "Source inst 0 = Some a" "Source inst 1 = Some b"
    using operands_source [OF assms(1), of 0] operands_source [OF assms(1), of 1] assms(2) by auto
  from load_effect [OF this] assms(3,4) show ?thesis
    by (simp add: LoadMemory_def Let_def)
qed

lemma fence_runs:
  assumes "operands_of p inst" and "1 \<le> length (p_sources p)"
  shows "\<exists>s'. RV32IFence lib inst s = Some s'"
  using operands_source [OF assms(1), of 0] fence_effect assms(2) by fastforce

lemmas alu_defs =
  RV32IAdd_def RV32IAnd_def RV32IOr_def RV32ISll_def RV32ISltu_def RV32ISra_def RV32ISrl_def
  RV32ISub_def RV32IXor_def RV32ILui_def RV32IAuipc_def

lemmas branch_defs =
  RV32IBeq_def RV32IBge_def RV32IBgeu_def RV32IBlt_def RV32IBltu_def RV32IBne_def

lemmas memory_defs =
  RV32ISw_def RV32ISh_def RV32ISb_def RV32ILw_def RV32ILh_def RV32ILhu_def RV32ILb_def RV32ILbu_def

lemmas child_defs =
  RV32ILwChild_def RV32ILhChild_def RV32ILhuChild_def RV32ILbChild_def RV32ILbuChild_def

lemma execute_child_runs:
  assumes "op_child (riscv32_op L op) = Some p" and "operands_of p c"
  shows "\<exists>s'. execute_child lib c ctx s = Some s'"
  using assms load_child_runs [OF assms(2)]
  by (cases op) (auto simp: isa_defs operands_of_def child_defs)

lemma execute_load_runs:
  assumes "operands_of (op_main (riscv32_op L op)) inst"
    and "rel_option operands_of (op_child (riscv32_op L op)) (inst_child inst)"
    and "op_child (riscv32_op L op) \<noteq> None"
  shows "\<exists>s'. LoadValue n lib mem (execute_child lib) inst s = Some s'"
proof -
  obtain p c where pc: "op_child (riscv32_op L op) = Some p" "inst_child inst = Some c" "operands_of p c"
    using assms(2,3) by (auto elim: option.rel_cases)
  have "2 \<le> length (p_sources (op_main (riscv32_op L op)))"
    using assms(3) by (cases op) (auto simp: isa_defs)
  from load_runs [OF assms(1) this pc(2)] execute_child_runs [OF pc(1,3)]
  show ?thesis by blast
qed

theorem execute_runs:
  assumes main: "operands_of (op_main (riscv32_op L op)) inst"
    and child: "rel_option operands_of (op_child (riscv32_op L op)) (inst_child inst)"
  shows "\<exists>s'. Execute lib mem inst s = Some s'"
proof -
  have f: "inst_semfunc inst = p_semfunc (op_main (riscv32_op L op))"
    using main by (simp add: operands_of_def)
  note runs = binary_op_runs [OF main] unary_op_runs [OF main] branch_runs [OF main]
    jal_runs [OF main] jalr_runs [OF main] store_runs [OF main] fence_runs [OF main]
    execute_load_runs [OF main child]
  show ?thesis
    by (cases op; use f runs in \<open>simp add: Execute_def isa_defs alu_defs branch_defs memory_defs\<close>)
qed

end

section \<open>What an instruction can change\<close>

text \<open>The instruction objects the decoder makes.\<close>

definition inst_ok :: "instruction \<Rightarrow> bool" where
  "inst_ok inst \<longleftrightarrow>
     (\<exists>L op. operands_of (op_main (riscv32_op L op)) inst \<and>
        rel_option operands_of (op_child (riscv32_op L op)) (inst_child inst))"

text \<open>Registers only; memory and registers; an illegal instruction; a breakpoint.\<close>

inductive exec_out :: "'e mpact \<Rightarrow> 'e memory_if \<Rightarrow> instruction \<Rightarrow> 'e riscv_state \<Rightarrow> 'e riscv_state \<Rightarrow> bool"
  for lib mem inst where
  out_regs: "exec_out lib mem inst s (s\<lparr>reg_db := f\<rparr>)"
| out_store: "exec_out lib mem inst s (StoreMemory mem a bs s)"
| out_load: "exec_out lib mem inst s (s\<lparr>env := lr_env (mif_load mem (st_memory s) a n c (env s)), reg_db := f\<rparr>)"
| out_illegal: "exec_out lib mem inst s (RV32IllegalInstruction lib inst s)"
| out_ebreak: "exec_out lib mem inst s (EBreak (Some inst) s)"

inductive_cases exec_outE: "exec_out lib mem inst s s'"

definition reg_only :: "'e riscv_state \<Rightarrow> 'e riscv_state \<Rightarrow> bool" where
  "reg_only s s' \<longleftrightarrow> (\<exists>f. s' = s\<lparr>reg_db := f\<rparr>)"

lemma reg_only_refl [simp]: "reg_only s s"
  unfolding reg_only_def by (rule exI [of _ "reg_db s"]) simp

lemma reg_only_trans: "reg_only s t \<Longrightarrow> reg_only t u \<Longrightarrow> reg_only s u"
  by (auto simp: reg_only_def)

lemma reg_only_out: "reg_only s s' \<Longrightarrow> exec_out lib mem inst s s'"
  by (auto simp: reg_only_def out_regs)

lemma operands_ready:
  "operands_of p inst \<Longrightarrow> Destination inst i = Some d \<Longrightarrow> dest_ready d"
  by (auto simp: operands_of_def Destination_def list_all_length split: if_splits)

lemma dest_write_reg_only: "dest_write s d v s' \<Longrightarrow> reg_only s s'"
  by (auto simp: dest_write_def reg_write_def reg_only_def split: dest_operand.splits
      intro: exI [of _ "reg_db s"])

context mpact_operands
begin

lemma submit_reg_only:
  assumes "operands_of p inst" and "SubmitDestination lib inst i v s = Some s'"
  shows "reg_only s s'"
  using assms submit_write operands_ready [OF assms(1)] dest_write_reg_only
  by (fastforce simp: SubmitDestination_def)

lemma binary_op_reg_only:
  "operands_of p inst \<Longrightarrow> lib_BinaryOp lib f inst s = Some s' \<Longrightarrow> reg_only s s'"
  by (auto simp: binary_op split: option.splits dest: submit_reg_only)

lemma unary_op_reg_only:
  "operands_of p inst \<Longrightarrow> lib_UnaryOp lib f inst s = Some s' \<Longrightarrow> reg_only s s'"
  by (auto simp: unary_op split: option.splits dest: submit_reg_only)

lemma branch_reg_only:
  "operands_of p inst \<Longrightarrow> BranchConditional lib conv inst cond s = Some s' \<Longrightarrow> reg_only s s'"
  by (auto simp: BranchConditional_def bind_eq_Some_conv split: if_splits dest: submit_reg_only)

lemma jal_reg_only: "operands_of p inst \<Longrightarrow> RV32IJal lib inst s = Some s' \<Longrightarrow> reg_only s s'"
  by (clarsimp simp: RV32IJal_def bind_eq_Some_conv Let_def) (meson submit_reg_only reg_only_trans)

lemma jalr_reg_only: "operands_of p inst \<Longrightarrow> RV32IJalr lib inst s = Some s' \<Longrightarrow> reg_only s s'"
  by (clarsimp simp: RV32IJalr_def bind_eq_Some_conv Let_def) (meson submit_reg_only reg_only_trans)

lemma fence_reg_only: "RV32IFence lib inst s = Some s' \<Longrightarrow> reg_only s s'"
  by (auto simp: RV32IFence_def Fence_def bind_eq_Some_conv split: prod.splits)

lemma store_out: "StoreValue n lib mem inst s = Some s' \<Longrightarrow> exec_out lib mem inst s s'"
  by (auto simp: StoreValue_def bind_eq_Some_conv Let_def out_store)

lemma child_reg_only:
  assumes "operands_of p c" and "execute_child lib c ctx s = Some s'"
  shows "reg_only s s'"
  using assms(2)
  by (auto simp: child_defs LoadValueChild_def Let_def split: SemFunc.splits
      dest: submit_reg_only [OF assms(1)])

lemma load_out:
  assumes c: "\<And>c. inst_child inst = Some c \<Longrightarrow> \<exists>p. operands_of p c"
    and "LoadValue n lib mem (execute_child lib) inst s = Some s'"
  shows "exec_out lib mem inst s s'"
proof -
  obtain a where l: "LoadMemory mem a n (map_option (execute_child lib) (inst_child inst)) s = Some s'"
    using assms(2) by (auto simp: LoadValue_def bind_eq_Some_conv Let_def)
  let ?r = "\<lambda>b. mif_load mem (st_memory s) a n b (env s)"
  have load: "exec_out lib mem inst s (s\<lparr>env := lr_env (?r b)\<rparr>)" for b
    using out_load [where s = s and f = "reg_db s" and a = a and n = n and c = b] by simp
  show ?thesis
  proof (cases "inst_child inst")
    case None
    then show ?thesis using l load by (auto simp: LoadMemory_def Let_def)
  next
    case (Some i)
    from c [OF this] obtain p where p: "operands_of p i" by blast
    show ?thesis
    proof (cases "lr_child (?r True)")
      case True
      then have "execute_child lib i (lr_data (?r True)) (s\<lparr>env := lr_env (?r True)\<rparr>) = Some s'"
        using l Some by (simp add: LoadMemory_def Let_def del: execute_child.simps)
      from child_reg_only [OF p this] show ?thesis by (auto simp: reg_only_def out_load)
    next
      case False
      then show ?thesis using l Some load by (simp add: LoadMemory_def Let_def) blast
    qed
  qed
qed

theorem execute_out:
  assumes "inst_ok inst" and ex: "Execute lib mem inst s = Some s'"
  shows "exec_out lib mem inst s s'"
proof -
  obtain L op where ok: "operands_of (op_main (riscv32_op L op)) inst"
    "rel_option operands_of (op_child (riscv32_op L op)) (inst_child inst)"
    using assms(1) by (auto simp: inst_ok_def)
  have c: "inst_child inst = Some c \<Longrightarrow> \<exists>p. operands_of p c" for c
    using ok(2) by (auto elim: option.rel_cases)
  have lo: "exec_out lib mem inst s s'" if "LoadValue n lib mem (execute_child lib) inst s = Some s'" for n
    using c that by (rule load_out)
  note r = binary_op_reg_only [OF ok(1)] unary_op_reg_only [OF ok(1)] branch_reg_only [OF ok(1)]
    jal_reg_only [OF ok(1)] jalr_reg_only [OF ok(1)] fence_reg_only
  show ?thesis
    using ex
    by (cases "inst_semfunc inst")
       (auto simp: Execute_def alu_defs branch_defs memory_defs RV32IEbreak_def RV32ZiCsrs_def
          RV32ZiCsrwNr_def RV32ZiCsrsNw_def
          intro: out_illegal out_ebreak reg_only_out [OF reg_only_refl]
          dest: reg_only_out [OF r(1)] reg_only_out [OF r(2)] reg_only_out [OF r(3)]
            reg_only_out [OF r(4)] reg_only_out [OF r(5)] reg_only_out [OF r(6)] store_out lo)
qed

lemma inst_ok_runs: "inst_ok inst \<Longrightarrow> \<exists>s'. Execute lib mem inst s = Some s'"
  using execute_runs by (auto simp: inst_ok_def)

end

lemma decoded_inst_ok:
  assumes "DecodeInstruction lib mem dec a s = (inst, dec', s')"
  shows "inst_ok inst" "inst_address inst = a"
  using assms encoding_getters.isa_Decode_operands
  by (fastforce simp: DecodeInstruction_def Let_def inst_ok_def split: prod.splits)+

end
