(* ===== verification/Register_File.thy ===== *)
theory Register_File
  imports Decoder
begin

text \<open>
  The register table the simulator sets up: the pc and the registers \<open>x0\<close> to \<open>x31\<close> exist
  and are distinct objects. Under this invariant decoding an instruction other than a CSR
  access leaves the state alone, and its operands are the ones the fields of the word name.
\<close>

section \<open>The register file\<close>

abbreviation xreg :: "'e riscv_state \<Rightarrow> nat \<Rightarrow> reg_id" where
  "xreg s i \<equiv> the (registers s (xreg_name i))"

definition xregs_ok :: "'e riscv_state \<Rightarrow> bool" where
  "xregs_ok s \<longleftrightarrow>
     (\<forall>i < 32. registers s (xreg_name i) \<noteq> None) \<and>
     registers s kPcName = st_pc s \<and> st_pc s \<noteq> None \<and>
     (\<forall>i < 32. \<forall>j < 32. xreg s i = xreg s j \<longrightarrow> i = j) \<and>
     (\<forall>i < 32. registers s (xreg_name i) \<noteq> st_pc s)"

abbreviation pc_reg :: "'e riscv_state \<Rightarrow> reg_id" where
  "pc_reg s \<equiv> the (st_pc s)"

lemma xregs_okD:
  assumes "xregs_ok s"
  shows "i < 32 \<Longrightarrow> registers s (xreg_name i) = Some (xreg s i)"
    and "registers s kPcName = Some (pc_reg s)"
    and "i < 32 \<Longrightarrow> j < 32 \<Longrightarrow> xreg s i = xreg s j \<longleftrightarrow> i = j"
    and "i < 32 \<Longrightarrow> xreg s i \<noteq> pc_reg s"
  using assms by (auto simp: xregs_ok_def)

lemma xregs_ok_inj:
  assumes "xregs_ok s"
  shows "inj_on (registers s) (insert kPcName (xreg_name ` {..<32}))"
proof -
  note d = xregs_okD [OF assms]
  have "inj_on (registers s) (xreg_name ` {..<32})"
  proof (rule inj_onI)
    fix x y assume "x \<in> xreg_name ` {..<32}" "y \<in> xreg_name ` {..<32}" and eq: "registers s x = registers s y"
    then obtain i j where ij: "i < 32" "j < 32" "x = xreg_name i" "y = xreg_name j" by auto
    then have "xreg s i = xreg s j" using eq by simp
    with ij d(3) show "x = y" by simp
  qed
  moreover have "registers s kPcName \<notin> registers s ` xreg_name ` {..<32}"
    using assms by (force simp: xregs_ok_def)
  ultimately show ?thesis by (auto simp: inj_on_insert)
qed

definition xval :: "'e riscv_state \<Rightarrow> nat \<Rightarrow> u32" where
  "xval s i = (if i = 0 then 0 else db_get32 (reg_db s (xreg s i)))"

definition pc_value :: "'e riscv_state \<Rightarrow> u32" where
  "pc_value s = db_get32 (reg_db s (pc_reg s))"

fun source_of :: "'e riscv_state \<Rightarrow> u32 \<Rightarrow> SourceOpEnum \<Rightarrow> source_operand option" where
  "source_of s w Src_kRs1 =
     Some (if unat (ExtractRs1 w) = 0 then IntLiteralOperand 0 (xreg_alias ! 0)
           else RegisterSource (xreg s (unat (ExtractRs1 w))) (xreg_alias ! unat (ExtractRs1 w)))"
| "source_of s w Src_kRs2 =
     Some (if unat (ExtractRs2 w) = 0 then IntLiteralOperand 0 (xreg_alias ! 0)
           else RegisterSource (xreg s (unat (ExtractRs2 w))) (xreg_alias ! unat (ExtractRs2 w)))"
| "source_of s w Src_kBimm12 = Some (ImmediateOperand (ExtractBImm w))"
| "source_of s w Src_kImm12 = Some (ImmediateOperand (ExtractImm12 w))"
| "source_of s w Src_kUimm5 = Some (ImmediateOperand (ExtractUimm5 w))"
| "source_of s w Src_kJimm20 = Some (ImmediateOperand (ExtractJImm w))"
| "source_of s w Src_kSimm12 = Some (ImmediateOperand (ExtractSImm w))"
| "source_of s w Src_kUimm20 = Some (ImmediateOperand (ExtractUimm32 w))"
| "source_of s w Src_kCsr = Some (RegisterSource (the (registers s ''CSR'')) ''CSR'')"
| "source_of s w Src_kNone = None"

fun dest_of :: "'e riscv_state \<Rightarrow> u32 \<Rightarrow> DestOpEnum \<Rightarrow> dest_operand option" where
  "dest_of s w Dst_kRd =
     Some (if unat (ExtractRd w) = 0 then DevNullOperand
           else RegisterDestination (xreg s (unat (ExtractRd w))) 0 (xreg_alias ! unat (ExtractRd w)))"
| "dest_of s w Dst_kNextPc = Some (RegisterDestination (pc_reg s) 0 kPcName)"
| "dest_of s w Dst_kCsr = Some (RegisterDestination (the (registers s ''CSR'')) 0 ''CSR'')"
| "dest_of s w Dst_kNone = None"

lemma GetRegister_found: "registers s name = Some r \<Longrightarrow> GetRegister lib name s = ((r, False), s)"
  by (simp add: GetRegister_def)

lemma GetRegister_xreg:
  assumes "xregs_ok s"
  shows "i < 32 \<Longrightarrow> GetRegister lib (xreg_name i) s = ((xreg s i, False), s)"
    and "GetRegister lib kPcName s = ((pc_reg s, False), s)"
  by (rule GetRegister_found; use xregs_okD [OF assms] in blast)+

lemma GetSource_found:
  assumes "xregs_ok s" and "op \<noteq> Src_kCsr"
  shows "GetSource lib enc op s = (source_of s (inst_word enc) op, s)"
  using assms(2) Extract_reg_bounds [of "inst_word enc"]
  by (cases op) (simp_all add: xreg_source_def GetRegisterSourceOp_def GetRegister_xreg [OF assms(1)])

lemma GetDestination_found:
  assumes "xregs_ok s" and "d \<noteq> Dst_kCsr"
  shows "GetDestination lib enc d 0 s = (dest_of s (inst_word enc) d, s)"
  using assms(2) Extract_reg_bounds [of "inst_word enc"]
  by (cases d) (simp_all add: GetRegisterDestinationOp_def GetRegister_xreg [OF assms(1)] Let_def)

lemma get_all_pure:
  "(\<And>x. x \<in> set xs \<Longrightarrow> f x s = (g x, s)) \<Longrightarrow> get_all f xs s = (map g xs, s)"
  by (induction xs) simp_all

lemma get_all_found:
  assumes "xregs_ok s"
  shows "Src_kCsr \<notin> set ops \<Longrightarrow>
      get_all (eif_source (encoding_interface lib enc)) ops s = (map (source_of s (inst_word enc)) ops, s)"
    and "Dst_kCsr \<notin> set ds \<Longrightarrow>
      get_all (\<lambda>d. eif_dest (encoding_interface lib enc) d 0) ds s = (map (dest_of s (inst_word enc)) ds, s)"
  by (rule get_all_pure;
      auto simp: encoding_interface_def intro!: GetSource_found GetDestination_found assms)+

definition csr_op :: "OpcodeEnum \<Rightarrow> bool" where
  "csr_op op \<longleftrightarrow> op \<in> {kCsrs, kCsrwNr, kCsrsNw}"

lemma not_csr_parts:
  "\<not> csr_op op \<Longrightarrow> Src_kCsr \<notin> set (p_sources (op_main (riscv32_op L op)))"
  "\<not> csr_op op \<Longrightarrow> Dst_kCsr \<notin> set (p_dests (op_main (riscv32_op L op)))"
  "op_child (riscv32_op L op) = Some p \<Longrightarrow> Src_kCsr \<notin> set (p_sources p) \<and> Dst_kCsr \<notin> set (p_dests p)"
  by (cases op; auto simp: isa_defs csr_op_def)+

definition part_inst :: "'e riscv_state \<Rightarrow> u32 \<Rightarrow> u64 \<Rightarrow> nat \<Rightarrow> OpcodeEnum \<Rightarrow> op_part \<Rightarrow> instruction option \<Rightarrow> instruction" where
  "part_inst s w address sz op p child =
     Instruction address sz op (map (source_of s w) (p_sources p)) (map (dest_of s w) (p_dests p))
       (p_semfunc p) child"

definition decoded :: "nat \<Rightarrow> u64 \<Rightarrow> u32 \<Rightarrow> OpcodeEnum \<Rightarrow> 'e riscv_state \<Rightarrow> instruction" where
  "decoded L address w op s =
     (let e = riscv32_op L op
      in part_inst s w address (op_size e) op (op_main e)
           (map_option (\<lambda>p. part_inst s w address (op_size e) op p None) (op_child e)))"

lemma isa_Decode_found:
  assumes "xregs_ok s" and "\<not> csr_op (GetOpcode enc)"
  shows "isa_Decode L address (encoding_interface lib enc) s =
    (decoded L address (inst_word enc) (GetOpcode enc) s, s)"
proof -
  let ?e = "riscv32_op L (GetOpcode enc)"
  have main: "build_part (encoding_interface lib enc) address sz 0 (op_main ?e) child s =
      (part_inst s (inst_word enc) address sz (GetOpcode enc) (op_main ?e) child, s)" for sz child
    using not_csr_parts(1,2) [OF assms(2)]
    by (simp add: build_part_def get_all_found [OF assms(1)] part_inst_def)
       (simp add: encoding_interface_def)
  have child: "build_part (encoding_interface lib enc) address sz 0 p None s =
      (part_inst s (inst_word enc) address sz (GetOpcode enc) p None, s)"
    if "op_child ?e = Some p" for sz p
    using not_csr_parts(3) [OF that]
    by (simp add: build_part_def get_all_found [OF assms(1)] part_inst_def)
       (simp add: encoding_interface_def)
  have "eif_opcode (encoding_interface lib enc) = GetOpcode enc"
    by (simp add: encoding_interface_def)
  then show ?thesis
    using child by (cases "op_child ?e") (simp_all add: isa_Decode_def main decoded_def Let_def)
qed

end
