(* ===== verification/RV32I_Spec.thy ===== *)
theory RV32I_Spec
  imports Prelude
begin

text \<open>
  The instruction set architecture the simulator is to implement, written from the RISC-V
  unprivileged manual and independently of the code: an abstract syntax with fields of their
  architectural width, the manual's encodings, and the effect of an instruction on the pc, the
  32 integer registers and the memory. Only the instructions the decoder knows are here: \<^verbatim>\<open>slt\<close>,
  \<^verbatim>\<open>srl\<close>, \<^verbatim>\<open>sra\<close>, \<^verbatim>\<open>slti\<close>, \<^verbatim>\<open>sltiu\<close> and \<^verbatim>\<open>ecall\<close> are not. Exceptions are not here either: the manual
  raises one for a jump to a target that is not a multiple of four, where this text and the
  simulator go on at the target.
\<close>

section \<open>Instructions\<close>

type_synonym regnum = "5 word"

datatype alu_op = A_ADD | A_SUB | A_SLL | A_SLTU | A_XOR | A_OR | A_AND
datatype alui_op = I_ADDI | I_XORI | I_ORI | I_ANDI
datatype shift_op = S_SLLI | S_SRLI | S_SRAI
datatype branch_op = B_BEQ | B_BNE | B_BLT | B_BGE | B_BLTU | B_BGEU
datatype store_op = M_SB | M_SH | M_SW
datatype load_op = L_LB | L_LH | L_LW | L_LBU | L_LHU

text \<open>Immediates are the encoded bits: of branches and \<open>JAL\<close>, those above the zero bit 0.
  \<open>FENCE\<close> carries the register fields the base ISA reserves and tells implementations to ignore.\<close>

datatype rv_inst =
    OP alu_op regnum regnum regnum
  | OP_IMM alui_op regnum regnum "12 word"
  | SHIFT shift_op regnum regnum regnum
  | LUI regnum "20 word"
  | AUIPC regnum "20 word"
  | BRANCH branch_op regnum regnum "12 word"
  | JAL regnum "20 word"
  | JALR regnum regnum "12 word"
  | STORE store_op regnum regnum "12 word"
  | LOAD load_op regnum regnum "12 word"
  | FENCE "12 word" regnum regnum

section \<open>Encodings\<close>

definition place :: "nat \<Rightarrow> 'a::len word \<Rightarrow> u32" where
  "place off v = push_bit off (ucast v)"

definition enc_R :: "7 word \<Rightarrow> regnum \<Rightarrow> regnum \<Rightarrow> 3 word \<Rightarrow> regnum \<Rightarrow> 7 word \<Rightarrow> u32" where
  "enc_R f7 rs2 rs1 f3 rd opc =
     place 25 f7 OR place 20 rs2 OR place 15 rs1 OR place 12 f3 OR place 7 rd OR place 0 opc"

definition enc_I :: "12 word \<Rightarrow> regnum \<Rightarrow> 3 word \<Rightarrow> regnum \<Rightarrow> 7 word \<Rightarrow> u32" where
  "enc_I imm rs1 f3 rd opc =
     place 20 imm OR place 15 rs1 OR place 12 f3 OR place 7 rd OR place 0 opc"

definition enc_S :: "12 word \<Rightarrow> regnum \<Rightarrow> regnum \<Rightarrow> 3 word \<Rightarrow> 7 word \<Rightarrow> u32" where
  "enc_S imm rs2 rs1 f3 opc =
     enc_R (ucast (drop_bit 5 imm)) rs2 rs1 f3 (ucast imm) opc"

text \<open>\<open>imm\<close> is \<open>imm[12:1]\<close>: the word holds \<open>imm[12|10:5]\<close> on top and \<open>imm[4:1|11]\<close> in the
  place of \<open>rd\<close>.\<close>

definition enc_B :: "12 word \<Rightarrow> regnum \<Rightarrow> regnum \<Rightarrow> 3 word \<Rightarrow> 7 word \<Rightarrow> u32" where
  "enc_B imm rs2 rs1 f3 opc =
     enc_R (ucast (push_bit 6 (drop_bit 11 imm) OR take_bit 6 (drop_bit 4 imm))) rs2 rs1 f3
       (ucast (push_bit 1 (take_bit 4 imm) OR take_bit 1 (drop_bit 10 imm))) opc"

definition enc_U :: "20 word \<Rightarrow> regnum \<Rightarrow> 7 word \<Rightarrow> u32" where
  "enc_U imm rd opc = place 12 imm OR place 7 rd OR place 0 opc"

text \<open>\<open>imm\<close> is \<open>imm[20:1]\<close>, encoded as \<open>imm[20|10:1|11|19:12]\<close>.\<close>

definition enc_J :: "20 word \<Rightarrow> regnum \<Rightarrow> 7 word \<Rightarrow> u32" where
  "enc_J imm rd opc =
     enc_U (push_bit 19 (drop_bit 19 imm) OR push_bit 9 (take_bit 10 imm) OR
            push_bit 8 (take_bit 1 (drop_bit 10 imm)) OR take_bit 8 (drop_bit 11 imm)) rd opc"

fun alu_codes :: "alu_op \<Rightarrow> 7 word \<times> 3 word" where
  "alu_codes A_ADD = (0, 0)"
| "alu_codes A_SUB = (32, 0)"
| "alu_codes A_SLL = (0, 1)"
| "alu_codes A_SLTU = (0, 3)"
| "alu_codes A_XOR = (0, 4)"
| "alu_codes A_OR = (0, 6)"
| "alu_codes A_AND = (0, 7)"

fun alui_code :: "alui_op \<Rightarrow> 3 word" where
  "alui_code I_ADDI = 0"
| "alui_code I_XORI = 4"
| "alui_code I_ORI = 6"
| "alui_code I_ANDI = 7"

fun shift_codes :: "shift_op \<Rightarrow> 7 word \<times> 3 word" where
  "shift_codes S_SLLI = (0, 1)"
| "shift_codes S_SRLI = (0, 5)"
| "shift_codes S_SRAI = (32, 5)"

fun branch_code :: "branch_op \<Rightarrow> 3 word" where
  "branch_code B_BEQ = 0"
| "branch_code B_BNE = 1"
| "branch_code B_BLT = 4"
| "branch_code B_BGE = 5"
| "branch_code B_BLTU = 6"
| "branch_code B_BGEU = 7"

fun store_code :: "store_op \<Rightarrow> 3 word" where
  "store_code M_SB = 0"
| "store_code M_SH = 1"
| "store_code M_SW = 2"

fun load_code :: "load_op \<Rightarrow> 3 word" where
  "load_code L_LB = 0"
| "load_code L_LH = 1"
| "load_code L_LW = 2"
| "load_code L_LBU = 4"
| "load_code L_LHU = 5"

fun encode :: "rv_inst \<Rightarrow> u32" where
  "encode (OP op rd rs1 rs2) =
     enc_R (fst (alu_codes op)) rs2 rs1 (snd (alu_codes op)) rd 0x33"
| "encode (OP_IMM op rd rs1 imm) = enc_I imm rs1 (alui_code op) rd 0x13"
| "encode (SHIFT op rd rs1 shamt) =
     enc_R (fst (shift_codes op)) shamt rs1 (snd (shift_codes op)) rd 0x13"
| "encode (LUI rd imm) = enc_U imm rd 0x37"
| "encode (AUIPC rd imm) = enc_U imm rd 0x17"
| "encode (BRANCH op rs1 rs2 imm) = enc_B imm rs2 rs1 (branch_code op) 0x63"
| "encode (JAL rd imm) = enc_J imm rd 0x6f"
| "encode (JALR rd rs1 imm) = enc_I imm rs1 0 rd 0x67"
| "encode (STORE op rs1 rs2 imm) = enc_S imm rs2 rs1 (store_code op) 0x23"
| "encode (LOAD op rd rs1 imm) = enc_I imm rs1 (load_code op) rd 0x03"
| "encode (FENCE imm rs1 rd) = enc_I imm rs1 0 rd 0x0f"

section \<open>Effects\<close>

text \<open>
  The memory is addressed with the 64-bit addresses of the simulator's memory; the effective
  addresses of loads and stores are 32-bit sums.
\<close>

record rv32 =
  rv_pc :: u32
  rv_x :: "regnum \<Rightarrow> u32"
  rv_mem :: "u64 \<Rightarrow> u8"

definition rv_set :: "regnum \<Rightarrow> u32 \<Rightarrow> rv32 \<Rightarrow> rv32" where
  "rv_set rd v m = (if rd = 0 then m else m\<lparr>rv_x := (rv_x m)(rd := v)\<rparr>)"

definition rv_next :: "rv32 \<Rightarrow> rv32" where
  "rv_next m = m\<lparr>rv_pc := rv_pc m + 4\<rparr>"

fun alu :: "alu_op \<Rightarrow> u32 \<Rightarrow> u32 \<Rightarrow> u32" where
  "alu A_ADD a b = a + b"
| "alu A_SUB a b = a - b"
| "alu A_SLL a b = push_bit (unat (take_bit 5 b)) a"
| "alu A_SLTU a b = (if unat a < unat b then 1 else 0)"
| "alu A_XOR a b = a XOR b"
| "alu A_OR a b = a OR b"
| "alu A_AND a b = a AND b"

fun alui :: "alui_op \<Rightarrow> u32 \<Rightarrow> u32 \<Rightarrow> u32" where
  "alui I_ADDI a b = a + b"
| "alui I_XORI a b = a XOR b"
| "alui I_ORI a b = a OR b"
| "alui I_ANDI a b = a AND b"

fun shift :: "shift_op \<Rightarrow> u32 \<Rightarrow> nat \<Rightarrow> u32" where
  "shift S_SLLI a n = push_bit n a"
| "shift S_SRLI a n = drop_bit n a"
| "shift S_SRAI a n = word_of_int (sint a div 2 ^ n)"

fun branch_taken :: "branch_op \<Rightarrow> u32 \<Rightarrow> u32 \<Rightarrow> bool" where
  "branch_taken B_BEQ a b = (a = b)"
| "branch_taken B_BNE a b = (a \<noteq> b)"
| "branch_taken B_BLT a b = (sint a < sint b)"
| "branch_taken B_BGE a b = (sint b \<le> sint a)"
| "branch_taken B_BLTU a b = (unat a < unat b)"
| "branch_taken B_BGEU a b = (unat b \<le> unat a)"

fun store_size :: "store_op \<Rightarrow> nat" where
  "store_size M_SB = 1"
| "store_size M_SH = 2"
| "store_size M_SW = 4"

definition rv_bytes :: "rv32 \<Rightarrow> u32 \<Rightarrow> nat \<Rightarrow> u8 list" where
  "rv_bytes m a n = map (\<lambda>i. rv_mem m (ucast a + of_nat i)) [0..<n]"

fun load_value :: "load_op \<Rightarrow> rv32 \<Rightarrow> u32 \<Rightarrow> u32" where
  "load_value L_LB m a = scast (le_word (rv_bytes m a 1) :: u8)"
| "load_value L_LH m a = scast (le_word (rv_bytes m a 2) :: u16)"
| "load_value L_LW m a = le_word (rv_bytes m a 4)"
| "load_value L_LBU m a = ucast (le_word (rv_bytes m a 1) :: u8)"
| "load_value L_LHU m a = ucast (le_word (rv_bytes m a 2) :: u16)"

definition rv_store :: "u32 \<Rightarrow> u8 list \<Rightarrow> rv32 \<Rightarrow> rv32" where
  "rv_store a bs m =
     m\<lparr>rv_mem := (\<lambda>x. if unat (x - ucast a) < length bs then bs ! unat (x - ucast a) else rv_mem m x)\<rparr>"

text \<open>The manual's \<open>JALR\<close> clears the lowest bit of the target.\<close>

fun rv_exec :: "rv_inst \<Rightarrow> rv32 \<Rightarrow> rv32" where
  "rv_exec (OP op rd rs1 rs2) m = rv_next (rv_set rd (alu op (rv_x m rs1) (rv_x m rs2)) m)"
| "rv_exec (OP_IMM op rd rs1 imm) m = rv_next (rv_set rd (alui op (rv_x m rs1) (scast imm)) m)"
| "rv_exec (SHIFT op rd rs1 shamt) m =
     rv_next (rv_set rd (shift op (rv_x m rs1) (unat shamt)) m)"
| "rv_exec (LUI rd imm) m = rv_next (rv_set rd (push_bit 12 (ucast imm)) m)"
| "rv_exec (AUIPC rd imm) m = rv_next (rv_set rd (rv_pc m + push_bit 12 (ucast imm)) m)"
| "rv_exec (BRANCH op rs1 rs2 imm) m =
     (if branch_taken op (rv_x m rs1) (rv_x m rs2)
      then m\<lparr>rv_pc := rv_pc m + push_bit 1 (scast imm)\<rparr> else rv_next m)"
| "rv_exec (JAL rd imm) m =
     (rv_set rd (rv_pc m + 4) m)\<lparr>rv_pc := rv_pc m + push_bit 1 (scast imm)\<rparr>"
| "rv_exec (JALR rd rs1 imm) m =
     (rv_set rd (rv_pc m + 4) m)\<lparr>rv_pc := (rv_x m rs1 + scast imm) AND NOT 1\<rparr>"
| "rv_exec (STORE op rs1 rs2 imm) m =
     rv_next (rv_store (rv_x m rs1 + scast imm) (le_bytes (store_size op) (rv_x m rs2)) m)"
| "rv_exec (LOAD op rd rs1 imm) m =
     rv_next (rv_set rd (load_value op m (rv_x m rs1 + scast imm)) m)"
| "rv_exec (FENCE imm rs1 rd) m = rv_next m"

end
