(* ===== verification/Codec.thy ===== *)
theory Codec
  imports Bin_Decoder RV32I_Spec
begin

text \<open>
  The decoder against the manual's encodings: the fields, immediates and opcode the decoder
  finds in an encoded instruction are the ones that were encoded, and every word the decoder
  gives an opcode of the base ISA is the encoding of an instruction.
\<close>

section \<open>Fields of the encodings\<close>

lemma bit_place [bit_simps]:
  fixes v :: "'a::len word"
  shows "bit (place off v) i \<longleftrightarrow> off \<le> i \<and> i < 32 \<and> bit v (i - off)"
  by (auto simp: place_def bit_simps dest: bit_imp_le_length)

lemma bits_at_or: "bits_at off n (a OR b) = bits_at off n a OR bits_at off n b"
  by (simp add: bits_at_def)

lemma bits_at_place_same:
  fixes v :: "'a::len word"
  assumes "LENGTH('a) = n" and "off + n \<le> 32"
  shows "bits_at off n (place off v) = ucast v"
  by (rule bit_word_eqI) (use assms in \<open>auto simp: bit_simps dest: bit_imp_le_length\<close>)

lemma bits_at_place_other:
  fixes v :: "'a::len word"
  assumes "off + n \<le> p \<or> p + LENGTH('a) \<le> off"
  shows "bits_at off n (place p v) = 0"
  by (rule bit_word_eqI) (use assms in \<open>auto simp: bit_simps dest: bit_imp_le_length\<close>)

lemma bits_at_place_part:
  fixes v :: "'a::len word"
  assumes "p \<le> off" and "off + n \<le> p + LENGTH('a)" and "p + LENGTH('a) \<le> 32"
  shows "bits_at off n (place p v) = ucast (take_bit n (drop_bit (off - p) v))"
  by (rule bit_word_eqI) (use assms in \<open>auto simp: bit_simps dest: bit_imp_le_length\<close>)

lemmas bits_at_place = bits_at_or bits_at_place_same bits_at_place_other bits_at_place_part

lemma enc_R_fields:
  "bits_at 0 7 (enc_R f7 rs2 rs1 f3 rd opc) = ucast opc"
  "bits_at 7 5 (enc_R f7 rs2 rs1 f3 rd opc) = ucast rd"
  "bits_at 12 3 (enc_R f7 rs2 rs1 f3 rd opc) = ucast f3"
  "bits_at 15 5 (enc_R f7 rs2 rs1 f3 rd opc) = ucast rs1"
  "bits_at 20 5 (enc_R f7 rs2 rs1 f3 rd opc) = ucast rs2"
  "bits_at 25 7 (enc_R f7 rs2 rs1 f3 rd opc) = ucast f7"
  by (simp_all add: enc_R_def bits_at_or bits_at_place_same bits_at_place_other)

lemma enc_I_fields:
  "bits_at 0 7 (enc_I imm rs1 f3 rd opc) = ucast opc"
  "bits_at 7 5 (enc_I imm rs1 f3 rd opc) = ucast rd"
  "bits_at 12 3 (enc_I imm rs1 f3 rd opc) = ucast f3"
  "bits_at 15 5 (enc_I imm rs1 f3 rd opc) = ucast rs1"
  "bits_at 20 12 (enc_I imm rs1 f3 rd opc) = ucast imm"
  by (simp_all add: enc_I_def bits_at_or bits_at_place_same bits_at_place_other)

lemma enc_U_fields:
  "bits_at 0 7 (enc_U imm rd opc) = ucast opc"
  "bits_at 7 5 (enc_U imm rd opc) = ucast rd"
  "bits_at 12 20 (enc_U imm rd opc) = ucast imm"
  by (simp_all add: enc_U_def bits_at_or bits_at_place_same bits_at_place_other)

section \<open>Immediates\<close>

lemma ucast_bits_at: "unat (ucast (v :: 5 word) :: u32) = unat v"
  using unsigned_less [of v, where ?'a = nat]
  by (simp add: unsigned_ucast_eq take_bit_nat_eq_self_iff)

lemma signed_take_bit_ucast:
  fixes v :: "'a::len word"
  assumes "LENGTH('a) = Suc n" and "n < 31"
  shows "signed_take_bit n (ucast v :: u32) = scast v"
  by (rule bit_word_eqI) (use assms in \<open>auto simp: bit_simps min_def dest: bit_imp_le_length\<close>)

lemma ExtractImm12_enc_I: "ExtractImm12 (enc_I imm rs1 f3 rd opc) = scast imm"
  by (simp add: field_simps32 enc_I_fields signed_take_bit_ucast)

lemma ExtractUimm32_enc_U: "ExtractUimm32 (enc_U imm rd opc) = push_bit 12 (ucast imm)"
  by (simp add: field_simps32 enc_U_fields)

lemma ExtractSImm_enc_S: "ExtractSImm (enc_S imm rs2 rs1 f3 opc) = scast imm"
proof -
  have "push_bit 5 (ucast (ucast (drop_bit 5 imm) :: 7 word)) OR ucast (ucast imm :: 5 word) = (ucast imm :: u32)"
    by (rule bit_word_eqI) (auto simp: bit_simps dest: bit_imp_le_length)
  then show ?thesis by (simp add: field_simps32 enc_S_def enc_R_fields signed_take_bit_ucast)
qed

text \<open>The branch and jump offsets are stored permuted.\<close>

lemma enc_R_parts:
  "bits_at 31 1 (enc_R f7 rs2 rs1 f3 rd opc) = ucast (take_bit 1 (drop_bit 6 f7))"
  "bits_at 25 6 (enc_R f7 rs2 rs1 f3 rd opc) = ucast (take_bit 6 f7)"
  "bits_at 7 1 (enc_R f7 rs2 rs1 f3 rd opc) = ucast (take_bit 1 rd)"
  "bits_at 8 4 (enc_R f7 rs2 rs1 f3 rd opc) = ucast (take_bit 4 (drop_bit 1 rd))"
  by (simp_all add: enc_R_def bits_at_or bits_at_place_other bits_at_place_part)

lemma enc_B_parts:
  fixes imm :: "12 word"
  shows
  "take_bit 1 (drop_bit 6 (ucast (push_bit 6 (drop_bit 11 imm) OR take_bit 6 (drop_bit 4 imm)) :: 7 word)) =
     ucast (take_bit 1 (drop_bit 11 imm))"
  "take_bit 6 (ucast (push_bit 6 (drop_bit 11 imm) OR take_bit 6 (drop_bit 4 imm)) :: 7 word) =
     ucast (take_bit 6 (drop_bit 4 imm))"
  "take_bit 1 (ucast (push_bit 1 (take_bit 4 imm) OR take_bit 1 (drop_bit 10 imm)) :: 5 word) =
     ucast (take_bit 1 (drop_bit 10 imm))"
  "take_bit 4 (drop_bit 1 (ucast (push_bit 1 (take_bit 4 imm) OR take_bit 1 (drop_bit 10 imm)) :: 5 word)) =
     ucast (take_bit 4 imm)"
  by (rule bit_word_eqI; simp only: bit_simps o_apply; auto dest: bit_imp_le_length simp del: bit_0)+

lemma B_join:
  "push_bit 12 (ucast (take_bit 1 (drop_bit 11 imm))) OR push_bit 11 (ucast (take_bit 1 (drop_bit 10 imm))) OR
   push_bit 5 (ucast (take_bit 6 (drop_bit 4 imm))) OR push_bit 1 (ucast (take_bit 4 imm)) =
   (push_bit 1 (ucast (imm :: 12 word)) :: u32)" (is "?l = ?r")
proof (rule bit_word_eqI)
  fix i assume "i < LENGTH(32)"
  consider "i = 12" | "i = 11" | "5 \<le> i \<and> i < 11" | "1 \<le> i \<and> i < 5" | "i = 0" | "12 < i"
    by linarith
  then show "bit ?l i = bit ?r i"
    by cases (simp_all only: bit_simps, auto simp del: bit_0 dest: bit_imp_le_length)
qed

lemma enc_U_parts:
  "bits_at 31 1 (enc_U imm rd opc) = ucast (take_bit 1 (drop_bit 19 imm))"
  "bits_at 12 8 (enc_U imm rd opc) = ucast (take_bit 8 imm)"
  "bits_at 20 1 (enc_U imm rd opc) = ucast (take_bit 1 (drop_bit 8 imm))"
  "bits_at 21 10 (enc_U imm rd opc) = ucast (take_bit 10 (drop_bit 9 imm))"
  by (simp_all add: enc_U_def bits_at_or bits_at_place_other bits_at_place_part)

definition jperm :: "20 word \<Rightarrow> 20 word" where
  "jperm imm =
    push_bit 19 (drop_bit 19 imm) OR push_bit 9 (take_bit 10 imm) OR
    push_bit 8 (take_bit 1 (drop_bit 10 imm)) OR take_bit 8 (drop_bit 11 imm)"
lemma enc_J_parts:
  shows
  "take_bit 1 (drop_bit 19 (jperm imm)) = take_bit 1 (drop_bit 19 imm)"
  "take_bit 8 (jperm imm) = take_bit 8 (drop_bit 11 imm)"
  "take_bit 1 (drop_bit 8 (jperm imm)) = take_bit 1 (drop_bit 10 imm)"
  "take_bit 10 (drop_bit 9 (jperm imm)) = take_bit 10 imm"
  unfolding jperm_def
  by (rule bit_word_eqI; simp only: bit_simps o_apply; auto dest: bit_imp_le_length simp del: bit_0)+

lemma J_join:
  "push_bit 20 (ucast (take_bit 1 (drop_bit 19 imm))) OR push_bit 12 (ucast (take_bit 8 (drop_bit 11 imm))) OR
   push_bit 11 (ucast (take_bit 1 (drop_bit 10 imm))) OR push_bit 1 (ucast (take_bit 10 imm)) =
   (push_bit 1 (ucast (imm :: 20 word)) :: u32)" (is "?l = ?r")
proof (rule bit_word_eqI)
  fix i assume "i < LENGTH(32)"
  consider "i = 20" | "i = 11" | "12 \<le> i \<and> i < 20" | "1 \<le> i \<and> i < 11" | "i = 0" | "20 < i"
    by linarith
  then show "bit ?l i = bit ?r i"
    by cases (simp_all only: bit_simps, auto simp del: bit_0 dest: bit_imp_le_length)
qed

lemma signed_take_bit_push_bit_ucast:
  fixes v :: "'a::len word"
  assumes "LENGTH('a) = n" and "n < 31"
  shows "signed_take_bit n (push_bit 1 (ucast v) :: u32) = push_bit 1 (scast v)"
  by (rule bit_word_eqI; simp only: bit_simps;
      use assms len_gt_0 [where ?'a = 'a] in \<open>auto simp: min_def dest: bit_imp_le_length simp del: bit_0\<close>)

lemma ucast_ucast_take_bit:
  fixes v :: "'a::len word"
  assumes "k \<le> LENGTH('b::len)"
  shows "(ucast (ucast (take_bit k v) :: 'b word) :: u32) = ucast (take_bit k v)"
  by (rule bit_word_eqI) (use assms in \<open>auto simp: bit_simps dest: bit_imp_le_length\<close>)

lemma ExtractBImm_enc_B: "ExtractBImm (enc_B imm rs2 rs1 f3 opc) = push_bit 1 (scast imm)"
proof -
  have "ExtractBImm (enc_B imm rs2 rs1 f3 opc) = signed_take_bit 12 (push_bit 1 (ucast imm))"
    unfolding field_simps32 enc_B_def enc_R_parts enc_B_parts
    by (simp add: ucast_ucast_take_bit B_join del: One_nat_def)
  then show ?thesis by (simp add: signed_take_bit_push_bit_ucast del: One_nat_def)
qed


lemma ExtractJImm_enc_J: "ExtractJImm (enc_J imm rd opc) = push_bit 1 (scast imm)"
proof -
  have "ExtractJImm (enc_J imm rd opc) = signed_take_bit 20 (push_bit 1 (ucast imm))"
    unfolding field_simps32 enc_J_def enc_U_parts jperm_def [symmetric] enc_J_parts
    by (simp only: J_join)
  then show ?thesis by (simp add: signed_take_bit_push_bit_ucast del: One_nat_def)
qed

section \<open>Registers and opcodes\<close>

fun opcode_of :: "rv_inst \<Rightarrow> OpcodeEnum" where
  "opcode_of (OP op rd rs1 rs2) =
     (case op of A_ADD \<Rightarrow> kAdd | A_SUB \<Rightarrow> kSub | A_SLL \<Rightarrow> kSll | A_SLTU \<Rightarrow> kSltu | A_XOR \<Rightarrow> kXor
      | A_OR \<Rightarrow> kOr | A_AND \<Rightarrow> kAnd)"
| "opcode_of (OP_IMM op rd rs1 imm) =
     (case op of I_ADDI \<Rightarrow> kAddi | I_XORI \<Rightarrow> kXori | I_ORI \<Rightarrow> kOri | I_ANDI \<Rightarrow> kAndi)"
| "opcode_of (SHIFT op rd rs1 shamt) =
     (case op of S_SLLI \<Rightarrow> kSlli | S_SRLI \<Rightarrow> kSrli | S_SRAI \<Rightarrow> kSrai)"
| "opcode_of (LUI rd imm) = kLui"
| "opcode_of (AUIPC rd imm) = kAuipc"
| "opcode_of (BRANCH op rs1 rs2 imm) =
     (case op of B_BEQ \<Rightarrow> kBeq | B_BNE \<Rightarrow> kBne | B_BLT \<Rightarrow> kBlt | B_BGE \<Rightarrow> kBge | B_BLTU \<Rightarrow> kBltu
      | B_BGEU \<Rightarrow> kBgeu)"
| "opcode_of (JAL rd imm) = kJal"
| "opcode_of (JALR rd rs1 imm) = kJalr"
| "opcode_of (STORE op rs1 rs2 imm) = (case op of M_SB \<Rightarrow> kSb | M_SH \<Rightarrow> kSh | M_SW \<Rightarrow> kSw)"
| "opcode_of (LOAD op rd rs1 imm) =
     (case op of L_LB \<Rightarrow> kLb | L_LH \<Rightarrow> kLh | L_LW \<Rightarrow> kLw | L_LBU \<Rightarrow> kLbu | L_LHU \<Rightarrow> kLhu)"
| "opcode_of (FENCE imm rs1 rd) = kFence"

lemma opcode_of_not_none: "opcode_of i \<noteq> kNone"
  by (cases i)
     (simp_all split: alu_op.split alui_op.split shift_op.split branch_op.split store_op.split
        load_op.split)

lemma encode_pattern: "op_pattern (opcode_of i) (encode i)"
  by (cases i)
     (simp_all add: enc_R_fields enc_I_fields enc_U_fields enc_S_def enc_B_def enc_J_def
        split: alu_op.split alui_op.split shift_op.split branch_op.split store_op.split
        load_op.split)

lemma decode_encode: "DecodeRiscVInst32 (encode i) = opcode_of i"
  using encode_pattern by (simp add: decode_pattern opcode_of_not_none)

lemma enc_regs:
  "unat (ExtractRd (enc_R f7 rs2 rs1 f3 rd opc)) = unat rd"
  "unat (ExtractRs1 (enc_R f7 rs2 rs1 f3 rd opc)) = unat rs1"
  "unat (ExtractRs2 (enc_R f7 rs2 rs1 f3 rd opc)) = unat rs2"
  "ExtractUimm5 (enc_R f7 rs2 rs1 f3 rd opc) = ucast rs2"
  "unat (ExtractRd (enc_I imm rs1 f3 rd opc)) = unat rd"
  "unat (ExtractRs1 (enc_I imm rs1 f3 rd opc)) = unat rs1"
  "unat (ExtractRd (enc_U uimm rd opc)) = unat rd"
  by (simp_all add: field_simps32 enc_R_fields enc_I_fields enc_U_fields ucast_bits_at)

lemma enc_SB_regs:
  "unat (ExtractRs1 (enc_S imm rs2 rs1 f3 opc)) = unat rs1"
  "unat (ExtractRs2 (enc_S imm rs2 rs1 f3 opc)) = unat rs2"
  "unat (ExtractRs1 (enc_B imm rs2 rs1 f3 opc)) = unat rs1"
  "unat (ExtractRs2 (enc_B imm rs2 rs1 f3 opc)) = unat rs2"
  "unat (ExtractRd (enc_J uimm rd opc)) = unat rd"
  by (simp_all add: enc_S_def enc_B_def enc_J_def enc_regs)

lemmas encode_simps =
  enc_regs enc_SB_regs ExtractImm12_enc_I ExtractUimm32_enc_U ExtractSImm_enc_S ExtractBImm_enc_B
  ExtractJImm_enc_J

section \<open>Every base word is an encoding\<close>

lemma enc_R_of_fields:
  "enc_R (ucast (bits_at 25 7 w)) (ucast (bits_at 20 5 w)) (ucast (bits_at 15 5 w))
     (ucast (bits_at 12 3 w)) (ucast (bits_at 7 5 w)) (ucast (bits_at 0 7 w)) = w" (is "?l = w")
proof (rule bit_word_eqI)
  fix i assume "i < LENGTH(32)"
  then consider "i < 7" | "7 \<le> i \<and> i < 12" | "12 \<le> i \<and> i < 15" | "15 \<le> i \<and> i < 20" |
    "20 \<le> i \<and> i < 25" | "25 \<le> i \<and> i < 32"
    by force
  then show "bit ?l i = bit w i"
    unfolding enc_R_def by cases (simp_all only: bit_simps, auto)
qed

lemma enc_I_of_fields:
  "enc_I (ucast (bits_at 20 12 w)) (ucast (bits_at 15 5 w))
     (ucast (bits_at 12 3 w)) (ucast (bits_at 7 5 w)) (ucast (bits_at 0 7 w)) = w" (is "?l = w")
proof (rule bit_word_eqI)
  fix i assume "i < LENGTH(32)"
  then consider "i < 7" | "7 \<le> i \<and> i < 12" | "12 \<le> i \<and> i < 15" | "15 \<le> i \<and> i < 20" |
    "20 \<le> i \<and> i < 32"
    by force
  then show "bit ?l i = bit w i"
    unfolding enc_I_def by cases (simp_all only: bit_simps, auto)
qed

lemma enc_U_of_fields:
  "enc_U (ucast (bits_at 12 20 w)) (ucast (bits_at 7 5 w)) (ucast (bits_at 0 7 w)) = w" (is "?l = w")
proof (rule bit_word_eqI)
  fix i assume "i < LENGTH(32)"
  then consider "i < 7" | "7 \<le> i \<and> i < 12" | "12 \<le> i \<and> i < 32"
    by force
  then show "bit ?l i = bit w i"
    unfolding enc_U_def by cases (simp_all only: bit_simps, auto)
qed

lemma enc_S_surj: "\<exists>imm. enc_S imm rs2 rs1 f3 opc = enc_R f7 rs2 rs1 f3 rd opc"
proof
  let ?imm = "push_bit 5 (ucast f7) OR ucast rd :: 12 word"
  have "ucast (drop_bit 5 ?imm) = f7" "ucast ?imm = rd"
    by (rule bit_word_eqI; simp only: bit_simps o_apply; auto dest: bit_imp_le_length)+
  then show "enc_S ?imm rs2 rs1 f3 opc = enc_R f7 rs2 rs1 f3 rd opc"
    by (simp add: enc_S_def)
qed

lemma enc_B_surj: "\<exists>imm. enc_B imm rs2 rs1 f3 opc = enc_R f7 rs2 rs1 f3 rd opc"
proof
  let ?imm = "push_bit 11 (ucast (drop_bit 6 f7)) OR push_bit 10 (ucast (take_bit 1 rd)) OR
    push_bit 4 (ucast (take_bit 6 f7)) OR ucast (drop_bit 1 rd) :: 12 word"
  have 1: "drop_bit 11 ?imm = ucast (drop_bit 6 f7)"
    by (rule bit_word_eqI; simp only: bit_simps o_apply; auto dest: bit_imp_le_length simp del: bit_0)
  have 2: "take_bit 6 (drop_bit 4 ?imm) = ucast (take_bit 6 f7)"
    by (rule bit_word_eqI; simp only: bit_simps o_apply; auto dest: bit_imp_le_length simp del: bit_0)
  have 3: "take_bit 4 ?imm = ucast (drop_bit 1 rd)"
    by (rule bit_word_eqI; simp only: bit_simps o_apply; auto dest: bit_imp_le_length simp del: bit_0)
  have 4: "take_bit 1 (drop_bit 10 ?imm) = ucast (take_bit 1 rd)"
    by (rule bit_word_eqI; simp only: bit_simps o_apply; auto dest: bit_imp_le_length simp del: bit_0)
  have "ucast (push_bit 6 (ucast (drop_bit 6 f7)) OR ucast (take_bit 6 f7) :: 12 word) = f7" (is "?l = f7")
  proof (rule bit_word_eqI)
    fix i assume "i < LENGTH(7)"
    then consider "i < 6" | "i = 6" by force
    then show "bit ?l i = bit f7 i"
      by cases (simp_all only: bit_simps o_apply, auto simp del: bit_0)
  qed
  moreover have "ucast (push_bit 1 (ucast (drop_bit 1 rd)) OR ucast (take_bit 1 rd) :: 12 word) = rd"
    by (rule bit_word_eqI; simp only: bit_simps o_apply; auto dest: bit_imp_le_length simp del: bit_0)
  ultimately show "enc_B ?imm rs2 rs1 f3 opc = enc_R f7 rs2 rs1 f3 rd opc"
    unfolding enc_B_def 1 2 3 4 by simp
qed

lemma enc_J_surj: "\<exists>imm. enc_J imm rd opc = enc_U v rd opc"
proof
  let ?imm = "push_bit 19 (drop_bit 19 v) OR push_bit 11 (take_bit 8 v) OR
    push_bit 10 (take_bit 1 (drop_bit 8 v)) OR take_bit 10 (drop_bit 9 v)"
  have 1: "drop_bit 19 ?imm = drop_bit 19 v"
    by (rule bit_word_eqI; simp only: bit_simps o_apply; auto dest: bit_imp_le_length simp del: bit_0)
  have 2: "take_bit 10 ?imm = take_bit 10 (drop_bit 9 v)"
    by (rule bit_word_eqI; simp only: bit_simps o_apply; auto dest: bit_imp_le_length simp del: bit_0)
  have 3: "take_bit 1 (drop_bit 10 ?imm) = take_bit 1 (drop_bit 8 v)"
    by (rule bit_word_eqI; simp only: bit_simps o_apply; auto dest: bit_imp_le_length simp del: bit_0)
  have 4: "take_bit 8 (drop_bit 11 ?imm) = take_bit 8 v"
    by (rule bit_word_eqI; simp only: bit_simps o_apply; auto dest: bit_imp_le_length simp del: bit_0)
  have "push_bit 19 (drop_bit 19 v) OR push_bit 9 (take_bit 10 (drop_bit 9 v)) OR
     push_bit 8 (take_bit 1 (drop_bit 8 v)) OR take_bit 8 v = v" (is "?l = v")
  proof (rule bit_word_eqI)
    fix i assume "i < LENGTH(20)"
    then consider "i < 8" | "i = 8" | "9 \<le> i \<and> i < 19" | "i = 19" by force
    then show "bit ?l i = bit v i"
      by cases (simp_all only: bit_simps, auto simp del: bit_0)
  qed
  then show "enc_J ?imm rd opc = enc_U v rd opc"
    unfolding enc_J_def 1 2 3 4 by simp
qed

lemma ucast_ucast_field:
  fixes v :: "'a::len word"
  assumes "LENGTH('a) \<le> 32"
  shows "(ucast (ucast v :: u32) :: 'a word) = v"
  using assms by (intro bit_word_eqI) (auto simp: bit_simps dest: bit_imp_le_length)

lemma is_enc_R:
  assumes "bits_at 25 7 w = ucast f7" and "bits_at 12 3 w = ucast f3" and "bits_at 0 7 w = ucast opc"
  shows "\<exists>rs2 rs1 rd. enc_R f7 rs2 rs1 f3 rd opc = w"
  using enc_R_of_fields [of w] unfolding assms by (simp add: ucast_ucast_field) blast

lemma is_enc_S:
  assumes "bits_at 12 3 w = ucast f3" and "bits_at 0 7 w = ucast opc"
  shows "\<exists>imm rs2 rs1. enc_S imm rs2 rs1 f3 opc = w"
proof -
  have "\<exists>f7 rs2 rs1 rd. enc_R f7 rs2 rs1 f3 rd opc = w"
    using enc_R_of_fields [of w] unfolding assms by (simp add: ucast_ucast_field) blast
  then show ?thesis using enc_S_surj by metis
qed

lemma is_enc_B:
  assumes "bits_at 12 3 w = ucast f3" and "bits_at 0 7 w = ucast opc"
  shows "\<exists>imm rs2 rs1. enc_B imm rs2 rs1 f3 opc = w"
proof -
  have "\<exists>f7 rs2 rs1 rd. enc_R f7 rs2 rs1 f3 rd opc = w"
    using enc_R_of_fields [of w] unfolding assms by (simp add: ucast_ucast_field) blast
  then show ?thesis using enc_B_surj by metis
qed

lemma is_enc_I:
  assumes "bits_at 12 3 w = ucast f3" and "bits_at 0 7 w = ucast opc"
  shows "\<exists>imm rs1 rd. enc_I imm rs1 f3 rd opc = w"
  using enc_I_of_fields [of w] unfolding assms by (simp add: ucast_ucast_field) blast

lemma is_enc_U:
  assumes "bits_at 0 7 w = ucast opc"
  shows "\<exists>imm rd. enc_U imm rd opc = w"
  using enc_U_of_fields [of w] unfolding assms by (simp add: ucast_ucast_field) blast

lemma is_enc_J:
  assumes "bits_at 0 7 w = ucast opc"
  shows "\<exists>imm rd. enc_J imm rd opc = w"
  using is_enc_U [OF assms] enc_J_surj by metis

lemma is_OP:
  assumes "bits_at 25 7 w = ucast (fst (alu_codes op))"
    and "bits_at 12 3 w = ucast (snd (alu_codes op))" and "bits_at 0 7 w = 0x33"
  shows "\<exists>i. encode i = w"
  using is_enc_R [OF assms(1,2), of "0x33"] assms(3) encode.simps(1) [of op] by (simp del: encode.simps) metis

lemma is_OP_IMM:
  assumes "bits_at 12 3 w = ucast (alui_code op)" and "bits_at 0 7 w = 0x13"
  shows "\<exists>i. encode i = w"
  using is_enc_I [OF assms(1), of "0x13"] assms(2) encode.simps(2) [of op] by (simp del: encode.simps) metis

lemma is_SHIFT:
  assumes "bits_at 25 7 w = ucast (fst (shift_codes op))"
    and "bits_at 12 3 w = ucast (snd (shift_codes op))" and "bits_at 0 7 w = 0x13"
  shows "\<exists>i. encode i = w"
  using is_enc_R [OF assms(1,2), of "0x13"] assms(3) encode.simps(3) [of op] by (simp del: encode.simps) metis

lemma is_LUI: "bits_at 0 7 w = 0x37 \<Longrightarrow> \<exists>i. encode i = w"
  using is_enc_U [of w "0x37"] encode.simps(4) by (simp del: encode.simps) metis

lemma is_AUIPC: "bits_at 0 7 w = 0x17 \<Longrightarrow> \<exists>i. encode i = w"
  using is_enc_U [of w "0x17"] encode.simps(5) by (simp del: encode.simps) metis

lemma is_BRANCH:
  assumes "bits_at 12 3 w = ucast (branch_code op)" and "bits_at 0 7 w = 0x63"
  shows "\<exists>i. encode i = w"
  using is_enc_B [OF assms(1), of "0x63"] assms(2) encode.simps(6) [of op] by (simp del: encode.simps) metis

lemma is_JAL: "bits_at 0 7 w = 0x6f \<Longrightarrow> \<exists>i. encode i = w"
  using is_enc_J [of w "0x6f"] encode.simps(7) by (simp del: encode.simps) metis

lemma is_JALR: "bits_at 12 3 w = 0 \<Longrightarrow> bits_at 0 7 w = 0x67 \<Longrightarrow> \<exists>i. encode i = w"
  using is_enc_I [of w 0 "0x67"] encode.simps(8) by (simp del: encode.simps) metis

lemma is_STORE:
  assumes "bits_at 12 3 w = ucast (store_code op)" and "bits_at 0 7 w = 0x23"
  shows "\<exists>i. encode i = w"
  using is_enc_S [OF assms(1), of "0x23"] assms(2) encode.simps(9) [of op] by (simp del: encode.simps) metis

lemma is_LOAD:
  assumes "bits_at 12 3 w = ucast (load_code op)" and "bits_at 0 7 w = 0x03"
  shows "\<exists>i. encode i = w"
  using is_enc_I [OF assms(1), of "0x03"] assms(2) encode.simps(10) [of op] by (simp del: encode.simps) metis

lemma is_FENCE: "bits_at 12 3 w = 0 \<Longrightarrow> bits_at 0 7 w = 0x0f \<Longrightarrow> \<exists>i. encode i = w"
  using is_enc_I [of w 0 "0x0f"] encode.simps(11) by (simp del: encode.simps) metis

lemmas is_encode =
  is_OP [of w A_ADD] is_OP [of w A_SUB] is_OP [of w A_SLL] is_OP [of w A_SLTU] is_OP [of w A_XOR]
  is_OP [of w A_OR] is_OP [of w A_AND]
  is_OP_IMM [of w I_ADDI] is_OP_IMM [of w I_XORI] is_OP_IMM [of w I_ORI] is_OP_IMM [of w I_ANDI]
  is_SHIFT [of w S_SLLI] is_SHIFT [of w S_SRLI] is_SHIFT [of w S_SRAI]
  is_LUI is_AUIPC
  is_BRANCH [of w B_BEQ] is_BRANCH [of w B_BNE] is_BRANCH [of w B_BLT] is_BRANCH [of w B_BGE]
  is_BRANCH [of w B_BLTU] is_BRANCH [of w B_BGEU]
  is_JAL is_JALR
  is_STORE [of w M_SB] is_STORE [of w M_SH] is_STORE [of w M_SW]
  is_LOAD [of w L_LB] is_LOAD [of w L_LH] is_LOAD [of w L_LW] is_LOAD [of w L_LBU] is_LOAD [of w L_LHU]
  is_FENCE for w

definition base_opcode :: "OpcodeEnum \<Rightarrow> bool" where
  "base_opcode op \<longleftrightarrow> op \<notin> {kNone, kEbreak, kCsrs, kCsrwNr, kCsrsNw}"

lemma base_opcode_encoding:
  assumes "base_opcode (DecodeRiscVInst32 w)"
  shows "\<exists>i. encode i = w"
proof -
  have "op_pattern (DecodeRiscVInst32 w) w"
    using assms decode_pattern [of _ w] by (auto simp: base_opcode_def)
  then show ?thesis
    using assms by (cases "DecodeRiscVInst32 w") (simp_all add: base_opcode_def is_encode)
qed

lemma base_opcode_of: "base_opcode (opcode_of i)"
  by (cases i)
     (simp_all add: base_opcode_def split: alu_op.split alui_op.split shift_op.split branch_op.split
        store_op.split load_op.split)

lemma base_opcode_iff: "base_opcode (DecodeRiscVInst32 w) \<longleftrightarrow> w \<in> range encode"
  using base_opcode_encoding base_opcode_of decode_encode by (metis image_iff rangeI)

section \<open>Words without an opcode\<close>

lemma decode_none_pattern: "DecodeRiscVInst32 w = kNone \<longleftrightarrow> (\<forall>op. \<not> op_pattern op w)"
  by (metis decode_pattern op_pattern.simps(1))

lemma decode_none_by_opcode:
  assumes "\<And>op. \<not> op_pattern op w"
  shows "DecodeRiscVInst32 w = kNone"
  using assms by (simp add: decode_none_pattern)

end
