(* ===== verification/Instruction_Refinement.thy ===== *)
theory Instruction_Refinement
  imports Execution Register_File Codec
begin

text \<open>
  The semantic functions against the instruction set manual: executing the instruction object
  decoded from the encoding of an instruction does to the registers, the pc and the memory what
  \<open>rv_exec\<close> says. \<open>rv_of\<close> reads the architectural state off the simulator's state.
\<close>

section \<open>Operands of a decoded instruction\<close>

fun source_val :: "'e riscv_state \<Rightarrow> u32 \<Rightarrow> SourceOpEnum \<Rightarrow> u32" where
  "source_val s w Src_kRs1 = xval s (unat (ExtractRs1 w))"
| "source_val s w Src_kRs2 = xval s (unat (ExtractRs2 w))"
| "source_val s w Src_kBimm12 = ExtractBImm w"
| "source_val s w Src_kImm12 = ExtractImm12 w"
| "source_val s w Src_kUimm5 = ExtractUimm5 w"
| "source_val s w Src_kJimm20 = ExtractJImm w"
| "source_val s w Src_kSimm12 = ExtractSImm w"
| "source_val s w Src_kUimm20 = ExtractUimm32 w"
| "source_val s w Src_kCsr = db_get32 (reg_db s (the (registers s ''CSR'')))"
| "source_val s w Src_kNone = 0"

lemma source_of_val:
  "A \<noteq> Src_kNone \<Longrightarrow> \<exists>a. source_of s w A = Some a \<and> source_value a s = source_val s w A"
  by (cases A) (simp_all add: xval_def)

lemma decoded_parts [simp]:
  "inst_address (decoded L a w op s) = a"
  "inst_opcode (decoded L a w op s) = op"
  "inst_size (decoded L a w op s) = op_size (riscv32_op L op)"
  "inst_semfunc (decoded L a w op s) = p_semfunc (op_main (riscv32_op L op))"
  "inst_child (decoded L a w op s) =
     map_option (\<lambda>p. part_inst s w a (op_size (riscv32_op L op)) op p None) (op_child (riscv32_op L op))"
  by (simp_all add: decoded_def part_inst_def Let_def)

lemma decoded_Source:
  "k < length (p_sources (op_main (riscv32_op L op))) \<Longrightarrow>
   Source (decoded L a w op s) k = source_of s w (p_sources (op_main (riscv32_op L op)) ! k)"
  by (simp add: Source_def decoded_def part_inst_def Let_def)

lemma decoded_Destination:
  "k < length (p_dests (op_main (riscv32_op L op))) \<Longrightarrow>
   Destination (decoded L a w op s) k = dest_of s w (p_dests (op_main (riscv32_op L op)) ! k)"
  by (simp add: Destination_def decoded_def part_inst_def Let_def)

lemma part_inst_Destination:
  "k < length (p_dests p) \<Longrightarrow> Destination (part_inst s w a sz op p c) k = dest_of s w (p_dests p ! k)"
  by (simp add: Destination_def part_inst_def)

section \<open>Writing registers\<close>

definition rd_write :: "'e riscv_state \<Rightarrow> u32 \<Rightarrow> u32 \<Rightarrow> 'e riscv_state \<Rightarrow> bool" where
  "rd_write s w v s' \<longleftrightarrow> (\<exists>d. dest_of s w Dst_kRd = Some d \<and> dest_write s d v s')"

lemma dest_of_ready: "dest_of s w d = Some x \<Longrightarrow> dest_ready x"
  by (cases d) (auto split: if_splits)

definition rv_of :: "('e \<Rightarrow> u64 \<Rightarrow> u8) \<Rightarrow> u32 \<Rightarrow> 'e riscv_state \<Rightarrow> rv32" where
  "rv_of bytes pc s = \<lparr>rv_pc = pc, rv_x = (\<lambda>r. xval s (unat r)), rv_mem = bytes (env s)\<rparr>"

lemma rv_of_simps [simp]:
  "rv_pc (rv_of bytes pc s) = pc" "rv_x (rv_of bytes pc s) r = xval s (unat r)"
  "rv_mem (rv_of bytes pc s) = bytes (env s)"
  by (simp_all add: rv_of_def)

definition same_frame :: "'e riscv_state \<Rightarrow> 'e riscv_state \<Rightarrow> bool" where
  "same_frame s s' \<longleftrightarrow>
     registers s' = registers s \<and> st_pc s' = st_pc s \<and> st_memory s' = st_memory s \<and>
     st_xlen s' = st_xlen s \<and> on_ebreak s' = on_ebreak s \<and> on_ecall s' = on_ecall s \<and>
     on_wfi s' = on_wfi s \<and> slog s' = slog s"

lemma same_frame_refl [simp]: "same_frame s s"
  by (simp add: same_frame_def)

lemma same_frame_trans: "same_frame s s' \<Longrightarrow> same_frame s' s'' \<Longrightarrow> same_frame s s''"
  by (simp add: same_frame_def)

lemma same_frame_env [simp]: "same_frame s (s\<lparr>env := e\<rparr>)"
  by (simp add: same_frame_def)

lemma same_frame_reg [simp]: "same_frame s (s\<lparr>reg_db := f\<rparr>)"
  by (simp add: same_frame_def)

lemma xregs_ok_frame: "same_frame s s' \<Longrightarrow> xregs_ok s' = xregs_ok s"
  by (simp add: same_frame_def xregs_ok_def)

lemma decoded_frame: "same_frame s s' \<Longrightarrow> decoded L a w op s' = decoded L a w op s"
proof -
  assume "same_frame s s'"
  then have "source_of s' w = source_of s w" "dest_of s' w = dest_of s w"
    by (intro ext, case_tac x; simp add: same_frame_def)+
  then show ?thesis by (simp add: decoded_def part_inst_def)
qed

abbreviation pc_db :: "'e riscv_state \<Rightarrow> data_buffer" where
  "pc_db s \<equiv> reg_db s (pc_reg s)"

lemma db_get32_le_bytes [simp]: "db_get32 \<lparr>db_id = i, db_bytes = le_bytes 4 v\<rparr> = v"
  by (simp add: db_get32_def)

lemma unat_regnum_less: "unat (r :: regnum) < 32"
  using unsigned_less [of r, where ?'a = nat] by simp

lemma rd_write_effect:
  assumes "rd_write s w v s'" and ok: "xregs_ok s" and rd: "unat (ExtractRd w) = unat rd"
  shows "rv_of bytes pc s' = rv_set rd v (rv_of bytes pc s)" "pc_db s' = pc_db s"
    "same_frame s s'" "env s' = env s"
proof -
  have "rv_of bytes pc s' = rv_set rd v (rv_of bytes pc s) \<and> pc_db s' = pc_db s \<and> same_frame s s' \<and> env s' = env s"
  proof (cases "rd = 0")
    case True
    then show ?thesis using assms by (simp add: rd_write_def dest_write_def rv_set_def)
  next
    case False
    then have nz: "unat rd \<noteq> 0" by (simp add: unat_eq_0)
    then obtain i where s': "s' = s\<lparr>reg_db := (reg_db s)(xreg s (unat rd) := \<lparr>db_id = i, db_bytes = le_bytes 4 v\<rparr>)\<rparr>"
      using assms(1) rd by (auto simp: rd_write_def dest_write_def reg_write_def)
    have "xval s' (unat r) = (if r = rd then v else xval s (unat r))" for r :: regnum
      using xregs_okD(3) [OF ok, of "unat r" "unat rd"] unat_regnum_less nz
      by (auto simp: s' xval_def word_unat_eq_iff)
    then show ?thesis
      using False xregs_okD(4) [OF ok, of "unat rd"] unat_regnum_less
      by (auto simp: s' rv_set_def rv_of_def fun_eq_iff)
  qed
  then show "rv_of bytes pc s' = rv_set rd v (rv_of bytes pc s)" "pc_db s' = pc_db s"
    "same_frame s s'" "env s' = env s" by blast+
qed

lemma pc_write_effect:
  assumes "dest_write s (RegisterDestination (pc_reg s) 0 n) v s'" and ok: "xregs_ok s"
  shows "rv_of bytes p s' = rv_of bytes p s" "db_get32 (pc_db s') = v"
    "db_id (pc_db s') \<noteq> db_id (pc_db s)" "same_frame s s'" "env s' = env s"
proof -
  obtain i where i: "i \<noteq> db_id (pc_db s)"
    and s': "s' = s\<lparr>reg_db := (reg_db s)(pc_reg s := \<lparr>db_id = i, db_bytes = le_bytes 4 v\<rparr>)\<rparr>"
    using assms(1) by (auto simp: dest_write_def reg_write_def)
  have "xval s' (unat r) = xval s (unat r)" for r :: regnum
    using xregs_okD(4) [OF ok, of "unat r"] unat_regnum_less by (auto simp: s' xval_def)
  then show "rv_of bytes p s' = rv_of bytes p s" by (simp add: rv_of_def s')
  show "db_get32 (pc_db s') = v" "db_id (pc_db s') \<noteq> db_id (pc_db s)" "same_frame s s'" "env s' = env s"
    using i by (simp_all add: s')
qed

section \<open>What executing an instruction is to achieve\<close>

text \<open>The next pc as the loops of \<^verbatim>\<open>Step\<close> and \<^verbatim>\<open>Run\<close> find it: a new buffer in the pc
  register overrides the address after the instruction.\<close>

definition next_pc :: "u32 \<Rightarrow> nat \<Rightarrow> 'e riscv_state \<Rightarrow> 'e riscv_state \<Rightarrow> u32" where
  "next_pc pc sz s s' =
     (if db_id (pc_db s) \<noteq> db_id (pc_db s') then db_get32 (pc_db s') else pc + of_nat sz)"

text \<open>What the memory may do to the environment during one instruction.\<close>

inductive mem_effect :: "'e memory_if \<Rightarrow> mem_handle \<Rightarrow> 'e \<Rightarrow> 'e \<Rightarrow> bool" for mem h where
  no_access: "mem_effect mem h e e"
| a_load: "mem_effect mem h e (lr_env (mif_load mem h a n True e))"
| a_store: "mem_effect mem h e (mif_store mem h a bs e)"

definition exec_effect ::
  "'e memory_if \<Rightarrow> ('e \<Rightarrow> u64 \<Rightarrow> u8) \<Rightarrow> u32 \<Rightarrow> rv_inst \<Rightarrow> 'e riscv_state \<Rightarrow> 'e riscv_state \<Rightarrow> bool" where
  "exec_effect mem bytes pc i s s' \<longleftrightarrow>
     rv_of bytes (next_pc pc 4 s s') s' = rv_exec i (rv_of bytes pc s) \<and> same_frame s s' \<and>
     (db_id (pc_db s) = db_id (pc_db s') \<longrightarrow> pc_db s' = pc_db s) \<and>
     mem_effect mem (st_memory s) (env s) (env s')"

definition word_inst :: "nat \<Rightarrow> u32 \<Rightarrow> rv_inst \<Rightarrow> 'e riscv_state \<Rightarrow> instruction" where
  "word_inst L pc i s = decoded L (ucast pc) (encode i) (opcode_of i) s"

lemma and_31: "b AND 31 = take_bit 5 b" for b :: u32
  by (simp add: take_bit_eq_mask mask_numeral)

lemma shamt_and_31 [simp]: "(ucast (n :: regnum) :: u32) AND 31 = ucast n"
  by (rule bit_word_eqI; simp only: and_31 bit_simps; auto dest: bit_imp_le_length)

definition writes_rd :: "'e riscv_state option \<Rightarrow> 'e riscv_state \<Rightarrow> u32 \<Rightarrow> u32 \<Rightarrow> bool" where
  "writes_rd r s w v \<longleftrightarrow> (\<exists>s'. r = Some s' \<and> rd_write s w v s')"

definition runs_as ::
  "'e memory_if \<Rightarrow> ('e \<Rightarrow> u64 \<Rightarrow> u8) \<Rightarrow> u32 \<Rightarrow> rv_inst \<Rightarrow> 'e riscv_state \<Rightarrow> 'e riscv_state option \<Rightarrow> bool" where
  "runs_as mem bytes pc i s r \<longleftrightarrow> (\<exists>s'. r = Some s' \<and> exec_effect mem bytes pc i s s')"

lemma rd_write_exec:
  assumes "writes_rd r s w v" and "xregs_ok s" and "unat (ExtractRd w) = unat rd"
    and "rv_exec i (rv_of bytes pc s) = rv_next (rv_set rd v (rv_of bytes pc s))"
  shows "runs_as mem bytes pc i s r"
proof -
  obtain s' where r: "r = Some s'" and "rd_write s w v s'"
    using assms(1) by (auto simp: writes_rd_def)
  note e = rd_write_effect [OF this(2) assms(2,3)]
  have "rv_of bytes (pc + 4) s' = (rv_of bytes pc s')\<lparr>rv_pc := pc + 4\<rparr>" by (simp add: rv_of_def)
  also have "\<dots> = rv_next (rv_set rd v (rv_of bytes pc s))"
    unfolding e(1) by (simp add: rv_next_def rv_set_def)
  finally show ?thesis
    using e assms(4) r by (simp add: runs_as_def exec_effect_def next_pc_def same_frame_def no_access)
qed

context mpact_operands
begin

lemma exec_binary:
  assumes ok: "xregs_ok s" and op: "op_main (riscv32_op L op) = \<lparr>p_sources = [A, B], p_dests = [Dst_kRd], p_semfunc = f\<rparr>"
    and "A \<noteq> Src_kNone" and "B \<noteq> Src_kNone" and v: "g (source_val s w A) (source_val s w B) = v"
  shows "writes_rd (lib_BinaryOp lib g (decoded L a w op s) s) s w v"
proof -
  obtain x y where xy: "source_of s w A = Some x" "source_value x s = source_val s w A"
    "source_of s w B = Some y" "source_value y s = source_val s w B"
    using source_of_val assms(3,4) by metis
  obtain d where d: "dest_of s w Dst_kRd = Some d" by simp
  have I: "Source (decoded L a w op s) 0 = Some x" "Source (decoded L a w op s) 1 = Some y"
    "Destination (decoded L a w op s) 0 = Some d"
    using xy d by (simp_all add: decoded_Source decoded_Destination op)
  show ?thesis
    using binary_op_effect [OF I dest_of_ready [OF d], of g s] xy d v
    unfolding rd_write_def writes_rd_def by metis
qed

lemma exec_unary:
  assumes ok: "xregs_ok s" and op: "op_main (riscv32_op L op) = \<lparr>p_sources = [A], p_dests = [Dst_kRd], p_semfunc = f\<rparr>"
    and "A \<noteq> Src_kNone" and v: "g (source_val s w A) = v"
  shows "writes_rd (lib_UnaryOp lib g (decoded L a w op s) s) s w v"
proof -
  obtain x where x: "source_of s w A = Some x" "source_value x s = source_val s w A"
    using source_of_val assms(3) by metis
  obtain d where d: "dest_of s w Dst_kRd = Some d" by simp
  have I: "Source (decoded L a w op s) 0 = Some x" "Destination (decoded L a w op s) 0 = Some d"
    using x d by (simp_all add: decoded_Source decoded_Destination op)
  show ?thesis
    using unary_op_effect [OF I dest_of_ready [OF d], of g s] x d v
    unfolding rd_write_def writes_rd_def by metis
qed

lemma exec_OP:
  assumes ok: "xregs_ok s"
  shows "runs_as mem bytes pc (OP op rd rs1 rs2) s
           (Execute lib mem (word_inst L pc (OP op rd rs1 rs2) s) s)"
proof (rule rd_write_exec [OF _ ok])
  show "writes_rd (Execute lib mem (word_inst L pc (OP op rd rs1 rs2) s) s) s
      (encode (OP op rd rs1 rs2)) (alu op (xval s (unat rs1)) (xval s (unat rs2)))"
    by (cases op)
       (auto simp: word_inst_def Execute_def isa_defs alu_defs encode_simps and_31
          word_less_nat_alt intro!: exec_binary [OF ok])
qed (simp_all add: encode_simps)

lemma exec_OP_IMM:
  assumes ok: "xregs_ok s"
  shows "runs_as mem bytes pc (OP_IMM op rd rs1 imm) s
           (Execute lib mem (word_inst L pc (OP_IMM op rd rs1 imm) s) s)"
proof (rule rd_write_exec [OF _ ok])
  show "writes_rd (Execute lib mem (word_inst L pc (OP_IMM op rd rs1 imm) s) s) s
      (encode (OP_IMM op rd rs1 imm)) (alui op (xval s (unat rs1)) (scast imm))"
    by (cases op)
       (auto simp: word_inst_def Execute_def isa_defs alu_defs encode_simps
          intro!: exec_binary [OF ok])
qed (simp_all add: encode_simps)

lemma exec_SHIFT:
  assumes ok: "xregs_ok s"
  shows "runs_as mem bytes pc (SHIFT op rd rs1 shamt) s
           (Execute lib mem (word_inst L pc (SHIFT op rd rs1 shamt) s) s)"
proof (rule rd_write_exec [OF _ ok])
  show "writes_rd (Execute lib mem (word_inst L pc (SHIFT op rd rs1 shamt) s) s) s
      (encode (SHIFT op rd rs1 shamt)) (shift op (xval s (unat rs1)) (unat shamt))"
    by (cases op)
       (auto simp: word_inst_def Execute_def isa_defs alu_defs encode_simps drop_bit_eq_div
          ucast_bits_at intro!: exec_binary [OF ok])
qed (simp_all add: encode_simps)

lemma exec_LUI:
  assumes ok: "xregs_ok s"
  shows "runs_as mem bytes pc (LUI rd imm) s (Execute lib mem (word_inst L pc (LUI rd imm) s) s)"
proof (rule rd_write_exec [OF _ ok])
  show "writes_rd (Execute lib mem (word_inst L pc (LUI rd imm) s) s) s
      (encode (LUI rd imm)) (push_bit 12 (ucast imm))"
    by (auto simp: word_inst_def Execute_def isa_defs alu_defs encode_simps
          intro!: exec_unary [OF ok])
qed (simp_all add: encode_simps)

lemma exec_AUIPC:
  assumes ok: "xregs_ok s"
  shows "runs_as mem bytes pc (AUIPC rd imm) s (Execute lib mem (word_inst L pc (AUIPC rd imm) s) s)"
proof (rule rd_write_exec [OF _ ok])
  show "writes_rd (Execute lib mem (word_inst L pc (AUIPC rd imm) s) s) s
      (encode (AUIPC rd imm)) (pc + push_bit 12 (ucast imm))"
    by (auto simp: word_inst_def Execute_def isa_defs alu_defs encode_simps ucast_add_64_32
          intro!: exec_unary [OF ok])
qed (simp_all add: encode_simps)

end

section \<open>Branches and jumps\<close>

lemma pc_write_exec:
  assumes "dest_write s (RegisterDestination (pc_reg s) 0 n) v s'" and "xregs_ok s"
    and "rv_exec i (rv_of bytes pc s) = (rv_of bytes pc s)\<lparr>rv_pc := v\<rparr>"
  shows "runs_as mem bytes pc i s (Some s')"
proof -
  note e = pc_write_effect [OF assms(1,2)]
  have "rv_of bytes v s' = (rv_of bytes pc s')\<lparr>rv_pc := v\<rparr>" by (simp add: rv_of_def)
  with e assms(3) show ?thesis
    by (simp add: runs_as_def exec_effect_def next_pc_def same_frame_def no_access)
qed

lemma unchanged_exec:
  assumes "rv_exec i (rv_of bytes pc s) = rv_next (rv_of bytes pc s)"
  shows "runs_as mem bytes pc i s (Some s)"
  using assms
  by (simp add: runs_as_def exec_effect_def next_pc_def no_access rv_next_def rv_of_def)

text \<open>Writing the target, then the return address.\<close>

lemma link_write_exec:
  assumes pc: "dest_write s (RegisterDestination (pc_reg s) 0 n) v s1" and ok: "xregs_ok s"
    and rd: "rd_write s1 w (pc + 4) s2" and num: "unat (ExtractRd w) = unat rd"
    and spec: "rv_exec i (rv_of bytes pc s) = (rv_set rd (pc + 4) (rv_of bytes pc s))\<lparr>rv_pc := v\<rparr>"
  shows "runs_as mem bytes pc i s (Some s2)"
proof -
  note p = pc_write_effect [OF pc ok]
  have ok1: "xregs_ok s1" using p(4) ok by (simp add: xregs_ok_frame)
  note r = rd_write_effect [OF rd ok1 num]
  have regs: "pc_reg s1 = pc_reg s" "pc_reg s2 = pc_reg s"
    using p(4) r(3) by (simp_all add: same_frame_def)
  have "rv_of bytes v s2 = (rv_of bytes pc s2)\<lparr>rv_pc := v\<rparr>" by (simp add: rv_of_def)
  also have "\<dots> = (rv_set rd (pc + 4) (rv_of bytes pc s))\<lparr>rv_pc := v\<rparr>" by (simp add: r(1) p(1))
  finally show ?thesis
    using p r spec regs
    by (auto simp: runs_as_def exec_effect_def next_pc_def no_access intro: same_frame_trans)
qed

lemma even_and_not_1: "even v \<Longrightarrow> v AND NOT 1 = v" for v :: u32
  by (rule bit_word_eqI) (auto simp: bit_simps bit_1_iff bit_0)

context mpact_operands
begin

lemma exec_branch:
  assumes ok: "xregs_ok s"
    and op: "op_main (riscv32_op L op) =
      \<lparr>p_sources = [Src_kRs1, Src_kRs2, Src_kBimm12], p_dests = [Dst_kNextPc], p_semfunc = f\<rparr>"
    and w: "unat (ExtractRs1 w) = unat rs1" "unat (ExtractRs2 w) = unat rs2"
      "ExtractBImm w = push_bit 1 (scast imm)"
    and cond: "\<And>x y. cond (conv x) (conv y) = branch_taken b x y"
  shows "runs_as mem bytes pc (BRANCH b rs1 rs2 imm) s
           (BranchConditional lib conv (decoded L (ucast pc) w op s) cond s)"
proof -
  let ?I = "decoded L (ucast pc) w op s" and ?d = "RegisterDestination (pc_reg s) 0 kPcName"
  obtain x y where xy: "source_of s w Src_kRs1 = Some x" "source_value x s = xval s (unat rs1)"
    "source_of s w Src_kRs2 = Some y" "source_value y s = xval s (unat rs2)"
    using source_of_val [of Src_kRs1 s w] source_of_val [of Src_kRs2 s w] w by auto
  have I: "Source ?I 0 = Some x" "Source ?I 1 = Some y"
    "Source ?I 2 = Some (ImmediateOperand (push_bit 1 (scast imm)))" "Destination ?I 0 = Some ?d"
    using xy w by (simp_all add: decoded_Source decoded_Destination op)
  obtain s' where s': "BranchConditional lib conv ?I cond s = Some s'"
    "if branch_taken b (xval s (unat rs1)) (xval s (unat rs2))
     then dest_write s ?d (push_bit 1 (scast imm) + pc) s' else s' = s"
    using branch_effect [OF I, of conv cond s] by (auto simp: cond xy(2,4) cong: if_cong)
  show ?thesis
  proof (cases "branch_taken b (xval s (unat rs1)) (xval s (unat rs2))")
    case True
    with s' have "dest_write s ?d (push_bit 1 (scast imm) + pc) s'" by simp
    then show ?thesis
      unfolding s'(1) by (rule pc_write_exec) (use ok True in \<open>simp_all add: add.commute\<close>)
  next
    case False
    with s' show ?thesis by (simp add: unchanged_exec)
  qed
qed

lemma exec_BRANCH:
  assumes ok: "xregs_ok s"
  shows "runs_as mem bytes pc (BRANCH op rs1 rs2 imm) s
           (Execute lib mem (word_inst L pc (BRANCH op rs1 rs2 imm) s) s)"
  by (cases op)
     (auto simp: word_inst_def Execute_def isa_defs branch_defs word_less_nat_alt word_le_nat_alt
        encode_simps intro!: exec_branch [OF ok])

lemma exec_JAL:
  assumes ok: "xregs_ok s"
  shows "runs_as mem bytes pc (JAL rd imm) s (Execute lib mem (word_inst L pc (JAL rd imm) s) s)"
proof -
  let ?w = "encode (JAL rd imm)" and ?d = "RegisterDestination (pc_reg s) 0 kPcName"
  let ?I = "decoded L (ucast pc) ?w kJal s" and ?off = "push_bit 1 (scast imm) :: u32"
  obtain d where d: "dest_of s ?w Dst_kRd = Some d" by simp
  have I: "Source ?I 0 = Some (ImmediateOperand ?off)" "Destination ?I 0 = Some ?d" "dest_ready ?d"
    "Destination ?I 1 = Some d" "dest_ready d"
    using d dest_of_ready [OF d]
    by (simp_all add: decoded_Source decoded_Destination isa_defs encode_simps)
  obtain s1 s2 where e: "RV32IJal lib ?I s = Some s2" "dest_write s ?d (?off + pc) s1"
    "dest_write s1 d (pc + 4) s2"
    using jal_effect [OF I, of s] by (auto simp: isa_defs)
  have "same_frame s s1" using pc_write_effect [OF e(2) ok] by simp
  then have "dest_of s1 ?w Dst_kRd = dest_of s ?w Dst_kRd" by (simp add: same_frame_def)
  with e(3) d have "rd_write s1 ?w (pc + 4) s2" by (auto simp: rd_write_def simp del: dest_of.simps)
  then have "runs_as mem bytes pc (JAL rd imm) s (Some s2)"
    by (rule link_write_exec [OF e(2) ok]) (simp_all add: encode_simps add.commute)
  then show ?thesis using e(1) by (simp add: word_inst_def Execute_def isa_defs)
qed

lemma exec_JALR_writes:
  assumes ok: "xregs_ok s"
  shows "\<exists>s1 s2. Execute lib mem (word_inst L pc (JALR rd rs1 imm) s) s = Some s2 \<and>
    dest_write s (RegisterDestination (pc_reg s) 0 kPcName) (scast imm + xval s (unat rs1)) s1 \<and>
    rd_write s1 (encode (JALR rd rs1 imm)) (pc + 4) s2 \<and>
    unat (ExtractRd (encode (JALR rd rs1 imm))) = unat rd"
proof -
  let ?w = "encode (JALR rd rs1 imm)" and ?d = "RegisterDestination (pc_reg s) 0 kPcName"
  let ?I = "decoded L (ucast pc) ?w kJalr s" and ?off = "scast imm :: u32"
  obtain d where d: "dest_of s ?w Dst_kRd = Some d" by simp
  obtain x where x: "source_of s ?w Src_kRs1 = Some x" "source_value x s = xval s (unat rs1)"
    using source_of_val [of Src_kRs1 s ?w] by (auto simp: encode_simps)
  have I: "Source ?I 0 = Some x" "Source ?I 1 = Some (ImmediateOperand ?off)"
    "Destination ?I 0 = Some ?d" "dest_ready ?d" "Destination ?I 1 = Some d" "dest_ready d"
    using d dest_of_ready [OF d] x
    by (simp_all add: decoded_Source decoded_Destination isa_defs encode_simps)
  obtain s1 s2 where e: "RV32IJalr lib ?I s = Some s2"
    "dest_write s ?d (?off + xval s (unat rs1)) s1" "dest_write s1 d (pc + 4) s2"
    using jalr_effect [OF I, of s] x by (auto simp: isa_defs)
  have "same_frame s s1" using pc_write_effect [OF e(2) ok] by simp
  then have "dest_of s1 ?w Dst_kRd = dest_of s ?w Dst_kRd" by (simp add: same_frame_def)
  with e(3) d have "rd_write s1 ?w (pc + 4) s2" by (auto simp: rd_write_def simp del: dest_of.simps)
  moreover have "Execute lib mem (word_inst L pc (JALR rd rs1 imm) s) s = Some s2"
    using e(1) by (simp add: word_inst_def Execute_def isa_defs)
  ultimately show ?thesis using e(2) by (auto simp: encode_simps)
qed

lemma exec_JALR:
  assumes ok: "xregs_ok s" and ev: "even (xval s (unat rs1) + scast imm)"
  shows "runs_as mem bytes pc (JALR rd rs1 imm) s
           (Execute lib mem (word_inst L pc (JALR rd rs1 imm) s) s)"
proof -
  obtain s1 s2 where e: "Execute lib mem (word_inst L pc (JALR rd rs1 imm) s) s = Some s2"
    "dest_write s (RegisterDestination (pc_reg s) 0 kPcName) (scast imm + xval s (unat rs1)) s1"
    "rd_write s1 (encode (JALR rd rs1 imm)) (pc + 4) s2"
    "unat (ExtractRd (encode (JALR rd rs1 imm))) = unat rd"
    using exec_JALR_writes [OF ok] by blast
  have target: "(xval s (unat rs1) + scast imm) AND NOT 1 = scast imm + xval s (unat rs1)"
    unfolding even_and_not_1 [OF ev] by (rule add.commute)
  show ?thesis
    unfolding e(1)
    by (rule link_write_exec [OF e(2) ok e(3,4)]) (simp only: rv_exec.simps rv_of_simps target)
qed

lemma exec_FENCE:
  shows "runs_as mem bytes pc (FENCE imm rs1 rd) s
           (Execute lib mem (word_inst L pc (FENCE imm rs1 rd) s) s)"
proof -
  have "RV32IFence lib (word_inst L pc (FENCE imm rs1 rd) s) s = Some s"
    by (rule fence_effect [where a = "ImmediateOperand (scast imm)"])
       (simp add: word_inst_def decoded_Source isa_defs encode_simps)
  then have "Execute lib mem (word_inst L pc (FENCE imm rs1 rd) s) s = Some s"
    by (simp add: word_inst_def Execute_def isa_defs)
  then show ?thesis by (simp add: unchanged_exec)
qed

end

text \<open>The access of each load, and the getter its child reads the buffer with.\<close>

fun load_size :: "load_op \<Rightarrow> nat" where
  "load_size L_LB = 1"
| "load_size L_LH = 2"
| "load_size L_LW = 4"
| "load_size L_LBU = 1"
| "load_size L_LHU = 2"

fun load_getter :: "load_op \<Rightarrow> u8 list \<Rightarrow> u32" where
  "load_getter L_LB = get_int8"
| "load_getter L_LH = get_int16"
| "load_getter L_LW = get_uint32"
| "load_getter L_LBU = get_uint8"
| "load_getter L_LHU = get_uint16"

lemma load_getter_value: "load_getter op (rv_bytes m a (load_size op)) = load_value op m a"
  by (cases op)
     (simp_all add: rv_bytes_def get_int8_def get_int16_def get_uint32_def get_uint8_def get_uint16_def)

lemma xval_env [simp]: "xval (s\<lparr>env := e\<rparr>) i = xval s i"
  by (simp add: xval_def)

text \<open>The condition under which the code and the manual agree on \<open>JALR\<close>: the code does not
  clear the lowest bit of the target.\<close>

fun jalr_even :: "rv_inst \<Rightarrow> rv32 \<Rightarrow> bool" where
  "jalr_even (JALR rd rs1 imm) m = even (rv_x m rs1 + scast imm)"
| "jalr_even _ m = True"

lemma jalr_even_cong: "rv_x m = rv_x m' \<Longrightarrow> jalr_even i m = jalr_even i m'"
  by (cases i) simp_all

section \<open>Loads and stores\<close>

locale rv32_machine = mpact_operands lib + mpact_memory mem h bytes
  for lib :: "'e mpact" and mem :: "'e memory_if" and h and bytes
begin

lemma execute_STORE:
  "Execute lib mem (word_inst L pc (STORE op rs1 rs2 imm) s) s =
     Some (s\<lparr>env := mif_store mem (st_memory s) (ucast (xval s (unat rs1) + scast imm))
       (le_bytes (store_size op) (xval s (unat rs2))) (env s)\<rparr>)"
proof -
  let ?w = "encode (STORE op rs1 rs2 imm)" and ?I = "word_inst L pc (STORE op rs1 rs2 imm) s"
  obtain x y where xy: "source_of s ?w Src_kRs1 = Some x" "source_value x s = xval s (unat rs1)"
    "source_of s ?w Src_kRs2 = Some y" "source_value y s = xval s (unat rs2)"
    using source_of_val [of Src_kRs1 s ?w] source_of_val [of Src_kRs2 s ?w] by (auto simp: encode_simps)
  have I: "Source ?I 0 = Some x" "Source ?I 1 = Some (ImmediateOperand (scast imm))" "Source ?I 2 = Some y"
    using xy by (cases op; simp add: word_inst_def decoded_Source isa_defs encode_simps)+
  have "Execute lib mem ?I s = StoreValue (store_size op) lib mem ?I s"
    by (cases op) (simp_all add: word_inst_def Execute_def isa_defs memory_defs)
  then show ?thesis unfolding store_effect [OF I] by (simp add: StoreMemory_def xy(2,4))
qed

lemma exec_STORE:
  assumes h: "st_memory s = h"
  shows "runs_as mem bytes pc (STORE op rs1 rs2 imm) s
           (Execute lib mem (word_inst L pc (STORE op rs1 rs2 imm) s) s)"
proof -
  let ?e = "mif_store mem h (ucast (xval s (unat rs1) + scast imm)) (le_bytes (store_size op) (xval s (unat rs2))) (env s)"
  have "rv_of bytes (pc + 4) (s\<lparr>env := ?e\<rparr>) = rv_exec (STORE op rs1 rs2 imm) (rv_of bytes pc s)"
    by (simp add: rv_of_def rv_next_def rv_store_def store_bytes cong: if_cong)
  then show ?thesis
    unfolding execute_STORE h by (simp add: runs_as_def exec_effect_def next_pc_def h a_store)
qed

lemma exec_LOAD:
  assumes h: "st_memory s = h" and ok: "xregs_ok s"
  shows "runs_as mem bytes pc (LOAD op rd rs1 imm) s
           (Execute lib mem (word_inst L pc (LOAD op rd rs1 imm) s) s)"
proof -
  let ?w = "encode (LOAD op rd rs1 imm)" and ?I = "word_inst L pc (LOAD op rd rs1 imm) s"
  let ?a = "xval s (unat rs1) + scast imm" and ?n = "load_size op"
  let ?r = "mif_load mem h (ucast ?a) ?n True (env s)"
  let ?s1 = "s\<lparr>env := lr_env ?r\<rparr>"
  obtain x where x: "source_of s ?w Src_kRs1 = Some x" "source_value x s = xval s (unat rs1)"
    using source_of_val [of Src_kRs1 s ?w] by (auto simp: encode_simps)
  obtain d where d: "dest_of s ?w Dst_kRd = Some d" by simp
  have I: "Source ?I 0 = Some x" "Source ?I 1 = Some (ImmediateOperand (scast imm))"
    using x by (cases op; simp add: word_inst_def decoded_Source isa_defs encode_simps)+
  obtain c where c: "inst_child ?I = Some c" "Destination c 0 = Some d"
    "\<And>ctx u. execute_child lib c ctx u = LoadValueChild (load_getter op) lib c ctx u"
    using d by (cases op) (auto simp: word_inst_def isa_defs part_inst_Destination child_defs
        part_inst_def Destination_def)
  have "Execute lib mem ?I s = LoadValue ?n lib mem (execute_child lib) ?I s"
    by (cases op) (simp_all add: word_inst_def Execute_def isa_defs memory_defs)
  also have "\<dots> = LoadValueChild (load_getter op) lib c (lr_data ?r) ?s1"
    unfolding load_effect [OF I] by (simp add: LoadMemory_def Let_def x(2) h c load_child del: execute_child.simps)
  finally have ex: "Execute lib mem ?I s = LoadValueChild (load_getter op) lib c (lr_data ?r) ?s1" .
  have data: "lr_data ?r = rv_bytes (rv_of bytes pc s) ?a ?n"
    by (simp add: load_data rv_bytes_def)
  obtain s2 where s2: "Execute lib mem ?I s = Some s2"
    "dest_write ?s1 d (load_value op (rv_of bytes pc s) ?a) s2"
    using load_child_effect [OF c(2) dest_of_ready [OF d], of "load_getter op" "lr_data ?r" ?s1]
    unfolding ex unfolding data load_getter_value by auto
  have rw: "rd_write ?s1 ?w (load_value op (rv_of bytes pc s) ?a) s2"
    using s2(2) d by (auto simp: rd_write_def)
  have ok1: "xregs_ok ?s1" using ok by (simp add: xregs_ok_def)
  have num: "unat (ExtractRd ?w) = unat rd" by (simp add: encode_simps)
  note e = rd_write_effect [OF rw ok1 num]
  have same: "rv_of bytes pc ?s1 = rv_of bytes pc s"
    by (simp add: rv_of_def load_bytes)
  have "rv_of bytes (pc + 4) s2 = (rv_of bytes pc s2)\<lparr>rv_pc := pc + 4\<rparr>" by (simp add: rv_of_def)
  also have "\<dots> = rv_exec (LOAD op rd rs1 imm) (rv_of bytes pc s)"
    unfolding e(1) same by (simp add: rv_next_def rv_set_def)
  finally show ?thesis
    using e(2-4) s2(1) by (simp add: runs_as_def exec_effect_def next_pc_def same_frame_def h a_load)
qed

theorem instruction_refines:
  assumes "st_memory s = h" and "xregs_ok s" and "jalr_even i (rv_of bytes pc s)"
  shows "runs_as mem bytes pc i s (Execute lib mem (word_inst L pc i s) s)"
  using assms exec_OP exec_OP_IMM exec_SHIFT exec_LUI exec_AUIPC exec_BRANCH exec_JAL exec_JALR
    exec_STORE exec_LOAD exec_FENCE
  by (cases i) simp_all

end

end
