(* ===== verification/Word_Reader.thy ===== *)
theory Word_Reader
  imports Instruction_Refinement
begin

text \<open>
  Reading a whole instruction off a word with the decoder's opcode and extractors. It is the
  inverse of the manual's encoding, which makes the two formats of \<open>RV32I_Spec\<close> and
  \<^verbatim>\<open>riscv32i.bin_fmt\<close> the same format.
\<close>

section \<open>Reading an instruction off a word\<close>

text \<open>The instruction the opcode and the extractors make of a word: what a disassembler built on
  the decoder would print.\<close>

definition reg_field :: "u32 \<Rightarrow> regnum" where
  "reg_field v = ucast v"

definition inst_of :: "u32 \<Rightarrow> rv_inst option" where
  "inst_of w =
     (let rd = reg_field (ExtractRd w); rs1 = reg_field (ExtractRs1 w); rs2 = reg_field (ExtractRs2 w);
          shamt = reg_field (ExtractUimm5 w); imm = ucast (ExtractImm12 w);
          simm = ucast (ExtractSImm w); bimm = ucast (drop_bit 1 (ExtractBImm w));
          jimm = ucast (drop_bit 1 (ExtractJImm w)); uimm = ucast (drop_bit 12 (ExtractUimm32 w))
      in case DecodeRiscVInst32 w of
           kAdd \<Rightarrow> Some (OP A_ADD rd rs1 rs2)
         | kSub \<Rightarrow> Some (OP A_SUB rd rs1 rs2)
         | kSll \<Rightarrow> Some (OP A_SLL rd rs1 rs2)
         | kSltu \<Rightarrow> Some (OP A_SLTU rd rs1 rs2)
         | kXor \<Rightarrow> Some (OP A_XOR rd rs1 rs2)
         | kOr \<Rightarrow> Some (OP A_OR rd rs1 rs2)
         | kAnd \<Rightarrow> Some (OP A_AND rd rs1 rs2)
         | kAddi \<Rightarrow> Some (OP_IMM I_ADDI rd rs1 imm)
         | kXori \<Rightarrow> Some (OP_IMM I_XORI rd rs1 imm)
         | kOri \<Rightarrow> Some (OP_IMM I_ORI rd rs1 imm)
         | kAndi \<Rightarrow> Some (OP_IMM I_ANDI rd rs1 imm)
         | kSlli \<Rightarrow> Some (SHIFT S_SLLI rd rs1 shamt)
         | kSrli \<Rightarrow> Some (SHIFT S_SRLI rd rs1 shamt)
         | kSrai \<Rightarrow> Some (SHIFT S_SRAI rd rs1 shamt)
         | kLui \<Rightarrow> Some (LUI rd uimm)
         | kAuipc \<Rightarrow> Some (AUIPC rd uimm)
         | kBeq \<Rightarrow> Some (BRANCH B_BEQ rs1 rs2 bimm)
         | kBne \<Rightarrow> Some (BRANCH B_BNE rs1 rs2 bimm)
         | kBlt \<Rightarrow> Some (BRANCH B_BLT rs1 rs2 bimm)
         | kBge \<Rightarrow> Some (BRANCH B_BGE rs1 rs2 bimm)
         | kBltu \<Rightarrow> Some (BRANCH B_BLTU rs1 rs2 bimm)
         | kBgeu \<Rightarrow> Some (BRANCH B_BGEU rs1 rs2 bimm)
         | kJal \<Rightarrow> Some (JAL rd jimm)
         | kJalr \<Rightarrow> Some (JALR rd rs1 imm)
         | kSb \<Rightarrow> Some (STORE M_SB rs1 rs2 simm)
         | kSh \<Rightarrow> Some (STORE M_SH rs1 rs2 simm)
         | kSw \<Rightarrow> Some (STORE M_SW rs1 rs2 simm)
         | kLb \<Rightarrow> Some (LOAD L_LB rd rs1 imm)
         | kLh \<Rightarrow> Some (LOAD L_LH rd rs1 imm)
         | kLw \<Rightarrow> Some (LOAD L_LW rd rs1 imm)
         | kLbu \<Rightarrow> Some (LOAD L_LBU rd rs1 imm)
         | kLhu \<Rightarrow> Some (LOAD L_LHU rd rs1 imm)
         | kFence \<Rightarrow> Some (FENCE imm rs1 rd)
         | _ \<Rightarrow> None)"

lemma reg_field_eq: "unat (ExtractRd w) = unat (r :: regnum) \<Longrightarrow> reg_field (ExtractRd w) = r"
  "unat (ExtractRs1 w) = unat r \<Longrightarrow> reg_field (ExtractRs1 w) = r"
  "unat (ExtractRs2 w) = unat r \<Longrightarrow> reg_field (ExtractRs2 w) = r"
  by (simp_all add: reg_field_def word_unat_eq_iff [where 'a = 5] unsigned_ucast_eq take_bit_nat_eq_self_iff unat_regnum_less)

lemma ucast_scast12 [simp]: "(ucast (scast (v :: 12 word) :: u32) :: 12 word) = v"
  by (rule bit_word_eqI) (simp add: bit_simps)

lemma ucast_offset_B [simp]: "(ucast (drop_bit 1 (push_bit 1 (scast (v :: 12 word)) :: u32)) :: 12 word) = v"
  by (rule bit_word_eqI) (simp add: bit_simps del: bit_0 push_bit_Suc One_nat_def)

lemma ucast_offset_J [simp]: "(ucast (drop_bit 1 (push_bit 1 (scast (v :: 20 word)) :: u32)) :: 20 word) = v"
  by (rule bit_word_eqI) (simp add: bit_simps del: bit_0 push_bit_Suc One_nat_def)

lemma ucast_offset_U [simp]: "(ucast (drop_bit 12 (push_bit 12 (ucast (v :: 20 word)) :: u32)) :: 20 word) = v"
  by (rule bit_word_eqI) (simp add: bit_simps)

lemma reg_field_ucast [simp]: "reg_field (ucast (r :: regnum)) = r"
  by (simp add: reg_field_def ucast_ucast_field)

lemma encode_reg_fields:
  "reg_field (ExtractRd (enc_R f7 rs2 rs1 f3 rd opc)) = rd"
  "reg_field (ExtractRs1 (enc_R f7 rs2 rs1 f3 rd opc)) = rs1"
  "reg_field (ExtractRs2 (enc_R f7 rs2 rs1 f3 rd opc)) = rs2"
  "reg_field (ExtractRd (enc_I imm rs1 f3 rd opc)) = rd"
  "reg_field (ExtractRs1 (enc_I imm rs1 f3 rd opc)) = rs1"
  "reg_field (ExtractRd (enc_U uimm rd opc)) = rd"
  "reg_field (ExtractRs1 (enc_S imm rs2 rs1 f3 opc)) = rs1"
  "reg_field (ExtractRs2 (enc_S imm rs2 rs1 f3 opc)) = rs2"
  "reg_field (ExtractRs1 (enc_B imm rs2 rs1 f3 opc)) = rs1"
  "reg_field (ExtractRs2 (enc_B imm rs2 rs1 f3 opc)) = rs2"
  "reg_field (ExtractRd (enc_J uimm rd opc)) = rd"
  by (rule reg_field_eq; simp add: encode_simps)+

lemma inst_of_encode: "inst_of (encode i) = Some i"
proof -
  have d: "DecodeRiscVInst32 (encode i) = opcode_of i" by (rule decode_encode)
  show ?thesis
    unfolding inst_of_def d Let_def
    by (cases i)
       (auto simp: encode_reg_fields encode_simps One_nat_def [symmetric] simp del: One_nat_def push_bit_Suc
          split: alu_op.split alui_op.split shift_op.split branch_op.split store_op.split load_op.split)
qed

lemma inst_of_base: "inst_of w = Some i \<Longrightarrow> base_opcode (DecodeRiscVInst32 w)"
  by (cases "DecodeRiscVInst32 w") (simp_all add: inst_of_def base_opcode_def)

end
