(* ===== verification/Top.thy ===== *)
theory Top
  imports Semantics
begin

text \<open>
  \<^verbatim>\<open>other/rv32i_top.{h,cc}\<close>: the top of the simulator, \<^verbatim>\<open>RV32ITop\<close>. It owns the memory, the
  state, the decoder with its decode cache and the breakpoint managers, executes instructions,
  and serves the debug interface. Memory, watcher, decode cache, breakpoint manager and program
  error controller are library objects: together they are the external world \<open>'x\<close>, and
  their operations the record \<open>host\<close>.
\<close>

section \<open>The library objects of the simulator\<close>

datatype semihost_callback = HaltCallback | ExceptionCallback string

text \<open>
  Accesses through the watcher may call the semihosting callbacks it was given. The decode
  cache is looked up by address and filled by the decoder it was created with; the breakpoint
  manager writes memory and invalidates cache entries, so its operations act on the whole world.
  \<open>h_SemiHost\<close> is the construction of a watcher and of the semihost that registers its addresses
  with it.
\<close>

record 'x host_reply =
  hr_data :: "u8 list"
  hr_child :: bool
  hr_callbacks :: "semihost_callback list"
  hr_ext :: 'x

record semihost_addresses =
  tohost_ready :: u64
  tohost :: u64
  fromhost_ready :: u64
  fromhost :: u64

record 'x host =
  h_load :: "mem_handle \<Rightarrow> u64 \<Rightarrow> nat \<Rightarrow> bool \<Rightarrow> 'x \<Rightarrow> 'x host_reply"
  h_store :: "mem_handle \<Rightarrow> u64 \<Rightarrow> u8 list \<Rightarrow> 'x \<Rightarrow> semihost_callback list \<times> 'x"
  h_cached :: "u64 \<Rightarrow> 'x \<Rightarrow> instruction option"
  h_cache :: "u64 \<Rightarrow> instruction \<Rightarrow> 'x \<Rightarrow> 'x"
  h_HasBreakpoint :: "u64 \<Rightarrow> 'x \<Rightarrow> bool"
  h_IsBreakpoint :: "u64 \<Rightarrow> 'x \<Rightarrow> bool"
  h_SetBreakpoint :: "u64 \<Rightarrow> 'x \<Rightarrow> status \<times> 'x"
  h_ClearBreakpoint :: "u64 \<Rightarrow> 'x \<Rightarrow> status \<times> 'x"
  h_ClearAllBreakpoints :: "'x \<Rightarrow> 'x"
  h_EnableBreakpoint :: "u64 \<Rightarrow> 'x \<Rightarrow> status \<times> 'x"
  h_DisableBreakpoint :: "u64 \<Rightarrow> 'x \<Rightarrow> status \<times> 'x"
  h_SemiHost :: "semihost_addresses \<Rightarrow> 'x \<Rightarrow> 'x"
  h_AsString :: "instruction \<Rightarrow> string"

section \<open>State\<close>

datatype RunStatus = Run_kHalted | Run_kRunning | Run_kSingleStep

datatype HaltReason =
  Halt_kNone | Halt_kSoftwareBreakpoint | Halt_kUserRequest | Halt_kSemihostHaltRequest

text \<open>What instructions can reach beyond the RISC-V state: the external world, and the halt
  flag and reason that \<^verbatim>\<open>RequestHalt\<close> sets.\<close>

record 'x top_env =
  ext :: 'x
  halt_reason :: HaltReason
  halted :: bool

text \<open>
  \<open>previous_pc\<close> is \<open>None\<close> while the member is indeterminate; \<open>run_halted\<close> says whether the
  notification object exists and, if so, whether it has been notified.
\<close>

record 'x top =
  state :: "'x top_env riscv_state"
  run_status :: RunStatus
  previous_pc :: "u32 option"
  run_halted :: "bool option"
  top_pc :: reg_id
  rv32_decoder :: riscv32_decoder
  counter_opcode :: "OpcodeEnum \<Rightarrow> u64"
  counter_num_instructions :: u64
  semihosting :: bool

abbreviation t_env :: "'x top \<Rightarrow> 'x top_env" where
  "t_env t \<equiv> env (state t)"

definition map_env :: "('x top_env \<Rightarrow> 'x top_env) \<Rightarrow> 'x top \<Rightarrow> 'x top" where
  "map_env f t = t\<lparr>state := (state t)\<lparr>env := f (t_env t)\<rparr>\<rparr>"

definition set_ext :: "'x \<Rightarrow> 'x top \<Rightarrow> 'x top" where
  "set_ext x = map_env (\<lambda>e. e\<lparr>ext := x\<rparr>)"

definition set_halt_reason :: "HaltReason \<Rightarrow> 'x top \<Rightarrow> 'x top" where
  "set_halt_reason r = map_env (\<lambda>e. e\<lparr>halt_reason := r\<rparr>)"

definition set_halted :: "bool \<Rightarrow> 'x top \<Rightarrow> 'x top" where
  "set_halted b = map_env (\<lambda>e. e\<lparr>halted := b\<rparr>)"

section \<open>Requests to halt\<close>

definition RequestHalt :: "HaltReason \<Rightarrow> 'x top_env \<Rightarrow> 'x top_env" where
  "RequestHalt reason e = e\<lparr>halt_reason := reason, halted := True\<rparr>"

text \<open>The callbacks \<^verbatim>\<open>SetUpSemiHosting\<close> passes: both request a halt for the semihost.\<close>

fun run_callback :: "semihost_callback \<Rightarrow> 'x top_env \<Rightarrow> 'x top_env" where
  "run_callback HaltCallback e = RequestHalt Halt_kSemihostHaltRequest e"
| "run_callback (ExceptionCallback m) e = RequestHalt Halt_kSemihostHaltRequest e"

definition run_callbacks :: "semihost_callback list \<Rightarrow> 'x top_env \<Rightarrow> 'x top_env" where
  "run_callbacks cbs e = fold run_callback cbs e"

text \<open>The memory objects as the RISC-V state and the decoder see them.\<close>

definition mem_of :: "'x host \<Rightarrow> 'x top_env memory_if" where
  "mem_of H =
     \<lparr>mif_load = (\<lambda>h a n c e.
        let r = h_load H h a n c (ext e)
        in \<lparr>lr_data = hr_data r, lr_child = hr_child r,
            lr_env = run_callbacks (hr_callbacks r) (e\<lparr>ext := hr_ext r\<rparr>)\<rparr>),
      mif_store = (\<lambda>h a bs e.
        let (cbs, x) = h_store H h a bs (ext e) in run_callbacks cbs (e\<lparr>ext := x\<rparr>))\<rparr>"

text \<open>The handler the constructor adds for \<^verbatim>\<open>ebreak\<close>.\<close>

definition ebreak_handler :: "'x host \<Rightarrow> 'x top_env handler" where
  "ebreak_handler H inst e =
     (case inst of
        Some i \<Rightarrow>
          if h_HasBreakpoint H (inst_address i) (ext e)
          then (True, RequestHalt Halt_kSoftwareBreakpoint e) else (False, e)
      | None \<Rightarrow> (False, e))"

section \<open>Construction\<close>

definition kRegisterAliases :: "string list" where
  "kRegisterAliases =
    [''zero'', ''ra'', ''sp'', ''gp'', ''tp'',  ''t0'',  ''t1'', ''t2'', ''s0'', ''s1'', ''a0'',
     ''a1'',   ''a2'', ''a3'', ''a4'', ''a5'',  ''a6'',  ''a7'', ''s2'', ''s3'', ''s4'', ''s5'',
     ''s6'',   ''s7'', ''s8'', ''s9'', ''s10'', ''s11'', ''t3'', ''t4'', ''t5'', ''t6'']"

definition add_xreg ::
  "'e mpact \<Rightarrow> nat \<Rightarrow> 'e riscv_state \<Rightarrow> 'e riscv_state" where
  "add_xreg lib i s =
     (let reg_name = xreg_name i;
          (_, s) = lib_AddRegister lib reg_name s;
          (_, s) = AddRegisterAlias lib reg_name (kRegisterAliases ! i) s
      in s)"

definition RV32ITop_ctor :: "'x top_env mpact \<Rightarrow> 'x host \<Rightarrow> 'x \<Rightarrow> 'x top" where
  "RV32ITop_ctor lib H x =
     (let e = \<lparr>ext = x, halt_reason = Halt_kNone, halted = False\<rparr>;
          s = RiscVState_ctor lib RV32 (Some FlatMemory) e;
          ((pc, _), s) = GetRegister lib kPcName s;
          s = AddEbreakHandler (ebreak_handler H) s;
          s = fold (add_xreg lib) [0..<32] s
      in \<lparr>state = s, run_status = Run_kHalted, previous_pc = None, run_halted = None,
          top_pc = pc,
          rv32_decoder =
            \<lparr>dec_memory = FlatMemory, riscv_encoding = \<lparr>inst_word = 0, enc_opcode = kNone\<rparr>\<rparr>,
          counter_opcode = (\<lambda>_. 0), counter_num_instructions = 0, semihosting = False\<rparr>)"

section \<open>Executing instructions\<close>

text \<open>The decode cache, backed by the decoder it was created with.\<close>

definition GetDecodedInstruction ::
  "'x top_env mpact \<Rightarrow> 'x host \<Rightarrow> u64 \<Rightarrow> 'x top \<Rightarrow> instruction \<times> 'x top" where
  "GetDecodedInstruction lib H address t =
     (case h_cached H address (ext (t_env t)) of
        Some inst \<Rightarrow> (inst, t)
      | None \<Rightarrow>
          (let (inst, dec, s) = DecodeInstruction lib (mem_of H) (rv32_decoder t) address (state t);
               t = t\<lparr>state := s, rv32_decoder := dec\<rparr>
           in (inst, set_ext (h_cache H address inst (ext (t_env t))) t)))"

definition count_instruction :: "instruction \<Rightarrow> 'x top \<Rightarrow> 'x top" where
  "count_instruction inst t =
     t\<lparr>counter_opcode := (counter_opcode t)(inst_opcode inst := counter_opcode t (inst_opcode inst) + 1),
       counter_num_instructions := counter_num_instructions t + 1\<rparr>"

definition pc_data_buffer :: "'x top \<Rightarrow> data_buffer" where
  "pc_data_buffer t = reg_db (state t) (top_pc t)"

text \<open>\<^verbatim>\<open>db->Set<uint32_t>(0, v)\<close> on the buffer of the pc register: the buffer stays the same.\<close>

definition set_pc_value :: "u32 \<Rightarrow> 'x top \<Rightarrow> 'x top" where
  "set_pc_value v t =
     t\<lparr>state := (state t)\<lparr>reg_db := (reg_db (state t))
         (top_pc t := (pc_data_buffer t)\<lparr>db_bytes := le_bytes 4 v\<rparr>)\<rparr>\<rparr>"

text \<open>
  One turn of the loops of \<^verbatim>\<open>Step\<close> and \<^verbatim>\<open>Run\<close>: \<open>pc_db\<close> is the identity of the buffer the pc
  register held, \<open>next_pc\<close> the address of the next instruction. A different buffer in the pc
  register means that the instruction wrote the program counter.
\<close>

definition loop_body ::
  "'x top_env mpact \<Rightarrow> 'x host \<Rightarrow> nat \<times> u32 \<times> 'x top \<Rightarrow> (nat \<times> u32 \<times> 'x top) option" where
  "loop_body lib H = (\<lambda>(pc_db, next_pc, t). do {
     let pc = next_pc;
     let (inst, t) = GetDecodedInstruction lib H (ucast pc) t;
     s \<leftarrow> Execute lib (mem_of H) inst (state t);
     let t = t\<lparr>state := s\<rparr>;
     let next_pc = next_pc + of_nat (inst_size inst);
     let tmp_db = pc_data_buffer t;
     let (pc_db, next_pc) =
       (if pc_db \<noteq> db_id tmp_db then (db_id tmp_db, db_get32 tmp_db) else (pc_db, next_pc));
     Some (pc_db, next_pc, count_instruction inst t)
   })"

text \<open>The loop of \<^verbatim>\<open>Step\<close>, with \<open>n\<close> turns left, the count so far, and the last \<open>pc\<close> (\<open>None\<close>
  while the variable is uninitialized).\<close>

fun step_loop ::
  "'x top_env mpact \<Rightarrow> 'x host \<Rightarrow> nat \<Rightarrow> int \<Rightarrow> u32 option \<Rightarrow> nat \<times> u32 \<times> 'x top \<Rightarrow>
   (int \<times> u32 option \<times> nat \<times> u32 \<times> 'x top) option" where
  "step_loop lib H 0 count pc (pc_db, next_pc, t) = Some (count, pc, pc_db, next_pc, t)"
| "step_loop lib H (Suc n) count pc (pc_db, next_pc, t) =
     (case loop_body lib H (pc_db, next_pc, t) of
        None \<Rightarrow> None
      | Some (pc_db', next_pc', t') \<Rightarrow>
          if halted (t_env t') then Some (count + 1, Some next_pc, pc_db', next_pc', t')
          else step_loop lib H n (count + 1) (Some next_pc) (pc_db', next_pc', t'))"

text \<open>
  Stepping over the software breakpoint the core stopped at, as \<^verbatim>\<open>Step\<close> and \<^verbatim>\<open>Run\<close> do it:
  \<open>Inl\<close> is the early return when the breakpoint cannot be enabled again. The address is the
  indeterminate \<open>previous_pc\<close> when none was recorded (\<open>None\<close>).
\<close>

definition step_over_breakpoint ::
  "'x top_env mpact \<Rightarrow> 'x host \<Rightarrow> 'x top \<Rightarrow> ((status + unit) \<times> 'x top) option" where
  "step_over_breakpoint lib H t = do {
     bp_pc \<leftarrow> map_option ucast (previous_pc t);
     let (st, x) = h_DisableBreakpoint H bp_pc (ext (t_env t));
     let t = set_ext x t;
     let (inst, t) = GetDecodedInstruction lib H bp_pc t;
     s \<leftarrow> Execute lib (mem_of H) inst (state t);
     let t = count_instruction inst (t\<lparr>state := s\<rparr>);
     let (st', t) =
       (if status_ok st
        then (let (st', x) = h_EnableBreakpoint H bp_pc (ext (t_env t)) in (st', set_ext x t))
        else (OkStatus, t));
     Some (if status_ok st' then (Inr (), set_halt_reason Halt_kNone t) else (Inl st', t))
   }"

section \<open>Step, Run, Halt and Wait\<close>

text \<open>The part of \<^verbatim>\<open>Step\<close> after the breakpoint: the loop, and storing what it left behind. When the
  loop takes no turn, \<^verbatim>\<open>previous_pc_ = pc\<close> reads the uninitialised \<^verbatim>\<open>pc\<close>, which C++ leaves undefined; the
  model copies the indeterminate value \<open>None\<close> and goes on, and counts as undefined only what uses it.\<close>

definition step_rest ::
  "'x top_env mpact \<Rightarrow> 'x host \<Rightarrow> int \<Rightarrow> int \<Rightarrow> 'x top \<Rightarrow> ((status + int) \<times> 'x top) option" where
  "step_rest lib H num count t = do {
     let pc_db = pc_data_buffer t;
     (count, pc, pc_db, next_pc, t) \<leftarrow>
       step_loop lib H (nat (num - count)) count None (db_id pc_db, db_get32 pc_db, t);
     let t = set_pc_value next_pc (t\<lparr>previous_pc := pc\<rparr>);
     let t = (if \<not> halted (t_env t) then set_halt_reason Halt_kNone t else t);
     Some (Inr count, t\<lparr>run_status := Run_kHalted\<rparr>)
   }"

definition Step ::
  "'x top_env mpact \<Rightarrow> 'x host \<Rightarrow> int \<Rightarrow> 'x top \<Rightarrow> ((status + int) \<times> 'x top) option" where
  "Step lib H num t =
     (if num \<le> 0 then Some (Inl (InvalidArgumentError ''Step count must be > 0''), t)
      else if run_status t \<noteq> Run_kHalted
        then Some (Inl (FailedPreconditionError ''RV32ITop::Step: Core must be halted''), t)
      else do {
        let t = set_halted False (t\<lparr>run_status := Run_kSingleStep\<rparr>);
        if halt_reason (t_env t) = Halt_kSoftwareBreakpoint then do {
          (r, t) \<leftarrow> step_over_breakpoint lib H t;
          case r of Inl st \<Rightarrow> Some (Inl st, t) | Inr _ \<Rightarrow> step_rest lib H num 1 t
        } else step_rest lib H num 0 t
      })"

text \<open>\<^verbatim>\<open>Run\<close> up to the start of its thread.\<close>

definition Run ::
  "'x top_env mpact \<Rightarrow> 'x host \<Rightarrow> 'x top \<Rightarrow> (status \<times> 'x top) option" where
  "Run lib H t =
     (if run_status t = Run_kRunning
        then Some (FailedPreconditionError ''RV32ITop::Run: core is already running'', t)
      else do {
        (r, t) \<leftarrow> (if halt_reason (t_env t) = Halt_kSoftwareBreakpoint
                  then step_over_breakpoint lib H t else Some (Inr (), t));
        case r of
          Inl st \<Rightarrow> Some (st, t)
        | Inr _ \<Rightarrow>
            Some (OkStatus,
              (set_halted False (t\<lparr>run_status := Run_kRunning\<rparr>))\<lparr>run_halted := Some False\<rparr>)
      })"

text \<open>The thread \<^verbatim>\<open>Run\<close> starts, undisturbed by other threads, for at most \<open>fuel\<close> turns: \<open>None\<close>
  is running longer than that or undefined behaviour, which \<^verbatim>\<open>Notify\<close> is on a null pointer and on an
  object that has been notified before (\<^verbatim>\<open>absl::Notification\<close> allows one call). A thread that finds the
  halt flag set before its first turn copies the uninitialised \<^verbatim>\<open>pc\<close>, as \<open>step_rest\<close> does.\<close>

fun run_loop ::
  "'x top_env mpact \<Rightarrow> 'x host \<Rightarrow> nat \<Rightarrow> u32 option \<Rightarrow> nat \<times> u32 \<times> 'x top \<Rightarrow>
   (u32 option \<times> nat \<times> u32 \<times> 'x top) option" where
  "run_loop lib H 0 pc (pc_db, next_pc, t) = None"
| "run_loop lib H (Suc fuel) pc (pc_db, next_pc, t) =
     (if halted (t_env t) then Some (pc, pc_db, next_pc, t)
      else (case loop_body lib H (pc_db, next_pc, t) of
              None \<Rightarrow> None
            | Some l \<Rightarrow> run_loop lib H fuel (Some next_pc) l))"

definition run_thread ::
  "'x top_env mpact \<Rightarrow> 'x host \<Rightarrow> nat \<Rightarrow> 'x top \<Rightarrow> 'x top option" where
  "run_thread lib H fuel t = do {
     let pc_db = pc_data_buffer t;
     (pc, pc_db, next_pc, t) \<leftarrow> run_loop lib H fuel None (db_id pc_db, db_get32 pc_db, t);
     let t = set_pc_value next_pc (t\<lparr>previous_pc := pc\<rparr>);
     if run_halted t = Some False
     then Some (t\<lparr>run_status := Run_kHalted, run_halted := Some True\<rparr>) else None
   }"

lemma run_thread_Some:
  "run_thread lib H fuel t = Some t' \<longleftrightarrow>
     (\<exists>pc d p u. run_loop lib H fuel None (db_id (pc_data_buffer t), db_get32 (pc_data_buffer t), t) = Some (pc, d, p, u) \<and>
        run_halted u = Some False \<and>
        t' = (set_pc_value p (u\<lparr>previous_pc := pc\<rparr>))\<lparr>run_status := Run_kHalted, run_halted := Some True\<rparr>)"
  by (auto simp: run_thread_def Let_def bind_eq_Some_conv set_pc_value_def)

definition Halt :: "'x top \<Rightarrow> status \<times> 'x top" where
  "Halt t =
     (if run_status t = Run_kHalted then (OkStatus, t)
      else if run_status t \<noteq> Run_kRunning
        then (FailedPreconditionError ''RV32ITop::Halt: Core is not running'', t)
      else (OkStatus, set_halted True (set_halt_reason Halt_kUserRequest t)))"

text \<open>\<^verbatim>\<open>Wait\<close>; \<open>None\<close> is blocking on the notification of a run that has not ended.\<close>

definition Wait :: "'x top \<Rightarrow> (status \<times> 'x top) option" where
  "Wait t =
     (if run_status t \<noteq> Run_kRunning then Some (OkStatus, t\<lparr>run_halted := None\<rparr>)
      else if run_halted t = Some True then Some (OkStatus, t\<lparr>run_halted := None\<rparr>)
      else None)"

definition GetRunStatus :: "'x top \<Rightarrow> RunStatus" where
  "GetRunStatus t = run_status t"

definition GetLastHaltReason :: "'x top \<Rightarrow> HaltReason" where
  "GetLastHaltReason t = halt_reason (t_env t)"

section \<open>Run control state\<close>

text \<open>The members only the run control itself changes.\<close>

definition control_same :: "'x top \<Rightarrow> 'x top \<Rightarrow> bool" where
  "control_same t t' \<longleftrightarrow>
     run_status t' = run_status t \<and> previous_pc t' = previous_pc t \<and> run_halted t' = run_halted t \<and>
     top_pc t' = top_pc t \<and> semihosting t' = semihosting t"

lemma control_same_refl [simp]: "control_same t t"
  by (simp add: control_same_def)

lemma control_same_trans: "control_same t u \<Longrightarrow> control_same u v \<Longrightarrow> control_same t v"
  by (simp add: control_same_def)

end
