(* ===== verification/Program_Refinement.thy ===== *)
theory Program_Refinement
  imports Top Word_Reader
begin

text \<open>
  Running a program on the simulator. \<open>rv_step C\<close> is one step of the instruction set manual
  for code at the addresses \<open>C\<close> that is not written while it runs; the turns of the loop of
  \<open>Step\<close> follow it, whatever the decode cache keeps or drops. \<open>host_memory\<close> is what the flat
  memory, the watcher in front of it and the decode cache promise.
\<close>

section \<open>The host memory\<close>

lemma ext_run_callbacks [simp]: "ext (run_callbacks cbs e) = ext e"
proof -
  have "ext (fold run_callback cbs e) = ext e" for e :: "'x top_env"
  proof (induction cbs arbitrary: e)
    case (Cons cb cbs)
    then show ?case by (cases cb) (simp_all add: RequestHalt_def)
  qed simp
  then show ?thesis by (simp add: run_callbacks_def)
qed

lemma callbacks_requests:
  "run_callbacks cbs e = e \<or>
   halted (run_callbacks cbs e) \<and> halt_reason (run_callbacks cbs e) = Halt_kSemihostHaltRequest"
proof (cases cbs rule: rev_cases)
  case (snoc ys cb)
  then show ?thesis by (cases cb) (simp_all add: run_callbacks_def RequestHalt_def)
qed (simp add: run_callbacks_def)

lemma t_env_simps [simp]:
  "t_env (set_ext x t) = (t_env t)\<lparr>ext := x\<rparr>"
  "t_env (set_halt_reason r t) = (t_env t)\<lparr>halt_reason := r\<rparr>"
  "t_env (set_halted b t) = (t_env t)\<lparr>halted := b\<rparr>"
  by (simp_all add: set_ext_def set_halt_reason_def set_halted_def map_env_def)

definition code_memory :: "mem_handle \<Rightarrow> bool" where
  "code_memory h \<longleftrightarrow> h = FlatMemory \<or> h = WatcherMemory"

locale host_memory =
  fixes H :: "'x host" and xbytes :: "'x \<Rightarrow> u64 \<Rightarrow> u8"
  assumes h_load_data:
      "code_memory h \<Longrightarrow> hr_data (h_load H h a n c x) = map (\<lambda>i. xbytes x (a + of_nat i)) [0..<n]"
    and h_load_child: "code_memory h \<Longrightarrow> hr_child (h_load H h a n c x) = c"
    and h_load_bytes: "code_memory h \<Longrightarrow> xbytes (hr_ext (h_load H h a n c x)) = xbytes x"
    and h_load_cached: "code_memory h \<Longrightarrow> h_cached H b (hr_ext (h_load H h a n c x)) = h_cached H b x"
    and h_store_bytes: "code_memory h \<Longrightarrow> xbytes (snd (h_store H h a bs x)) =
         (\<lambda>y. if unat (y - a) < length bs then bs ! unat (y - a) else xbytes x y)"
    and h_store_cached: "code_memory h \<Longrightarrow> h_cached H b (snd (h_store H h a bs x)) = h_cached H b x"
    and h_cache_bytes: "xbytes (h_cache H a inst x) = xbytes x"
    and h_semihost_bytes: "xbytes (h_SemiHost H m x) = xbytes x"
    and h_semihost_cached: "h_cached H b (h_SemiHost H m x) = h_cached H b x"
    and h_cache_lookup:
      "h_cached H b (h_cache H a inst x) = Some j \<Longrightarrow> b = a \<and> j = inst \<or> h_cached H b x = Some j"
begin

lemma mem_of_memory: "code_memory h \<Longrightarrow> mpact_memory (mem_of H) h (\<lambda>e. xbytes (ext e))"
  by unfold_locales
     (simp_all add: mem_of_def h_load_data h_load_child h_load_bytes h_store_bytes Let_def
        case_prod_beta)

lemma mem_effect_cached:
  assumes "code_memory h" and "mem_effect (mem_of H) h e e'"
  shows "h_cached H b (ext e') = h_cached H b (ext e)"
  using assms(2)
proof cases
  case (a_load a n)
  then show ?thesis using assms(1) by (simp add: mem_of_def h_load_cached Let_def)
next
  case (a_store a bs)
  then show ?thesis
    using h_store_cached [OF assms(1), of b a bs "ext e"] by (auto simp: mem_of_def split: prod.split)
qed simp

end

sublocale host_memory \<subseteq> flat: mpact_memory "mem_of H" FlatMemory "\<lambda>e. xbytes (ext e)"
  by (rule mem_of_memory) (simp add: code_memory_def)

sublocale host_memory \<subseteq> watcher: mpact_memory "mem_of H" WatcherMemory "\<lambda>e. xbytes (ext e)"
  by (rule mem_of_memory) (simp add: code_memory_def)

section \<open>Programs\<close>

definition rv_word :: "rv32 \<Rightarrow> u32 \<Rightarrow> u32" where
  "rv_word m a = le_word (rv_bytes m a 4)"

fun writes_to :: "rv_inst \<Rightarrow> rv32 \<Rightarrow> u64 set" where
  "writes_to (STORE op rs1 rs2 imm) m =
     {x. unat (x - ucast (rv_x m rs1 + scast imm)) < store_size op}"
| "writes_to _ m = {}"

definition code_bytes :: "u32 set \<Rightarrow> u64 set" where
  "code_bytes C = {ucast a + of_nat k | a k. a \<in> C \<and> k < 4}"

inductive rv_step :: "u32 set \<Rightarrow> rv32 \<Rightarrow> rv32 \<Rightarrow> bool" for C where
  step: "rv_pc m \<in> C \<Longrightarrow> rv_word m (rv_pc m) = encode i \<Longrightarrow> jalr_even i m \<Longrightarrow>
     writes_to i m \<inter> code_bytes C = {} \<Longrightarrow> rv_step C m (rv_exec i m)"

inductive_cases rv_stepE: "rv_step C m m'"

lemma rv_exec_mem:
  "x \<notin> writes_to i m \<Longrightarrow> rv_mem (rv_exec i m) x = rv_mem m x"
  by (cases i) (auto simp: rv_next_def rv_set_def rv_store_def)

lemma rv_step_code:
  assumes "rv_step C m m'" and "a \<in> C"
  shows "rv_word m' a = rv_word m a"
proof -
  from assms(1) obtain i where m': "m' = rv_exec i m" and "writes_to i m \<inter> code_bytes C = {}"
    by (auto elim: rv_stepE)
  then have "rv_mem m' (ucast a + of_nat k) = rv_mem m (ucast a + of_nat k)" if "k < 4" for k
    unfolding m' using assms(2) that by (intro rv_exec_mem) (auto simp: code_bytes_def)
  then have "rv_bytes m' a 4 = rv_bytes m a 4" by (simp add: rv_bytes_def)
  then show ?thesis by (simp add: rv_word_def)
qed

text \<open>The manual's run is determined: a word encodes one instruction.\<close>

lemma encode_inj: "inj encode"
proof (rule injI)
  fix i j assume eq: "encode i = encode j"
  have "Some i = inst_of (encode i)" by (rule inst_of_encode [symmetric])
  also have "\<dots> = Some j" unfolding eq by (rule inst_of_encode)
  finally show "i = j" by (rule option.inject [THEN iffD1])
qed

lemma rv_step_det:
  assumes "rv_step C m m1" and "rv_step C m m2"
  shows "m1 = m2"
proof -
  obtain i where i: "rv_word m (rv_pc m) = encode i" "m1 = rv_exec i m" using assms(1) by (rule rv_stepE)
  obtain j where j: "rv_word m (rv_pc m) = encode j" "m2 = rv_exec j m" using assms(2) by (rule rv_stepE)
  have "i = j" by (rule injD [OF encode_inj]) (use i(1) j(1) in metis)
  with i(2) j(2) show ?thesis by (simp only:)
qed

lemma rv_step_run_det: "(rv_step C ^^ n) m m1 \<Longrightarrow> (rv_step C ^^ n) m m2 \<Longrightarrow> m1 = m2"
proof (induction n arbitrary: m)
  case (Suc n)
  then show ?case by (metis relpowp_Suc_E2 rv_step_det)
qed simp

section \<open>The simulation relation\<close>

definition cache_ok :: "'x host \<Rightarrow> ('x \<Rightarrow> u64 \<Rightarrow> u8) \<Rightarrow> nat \<Rightarrow> u32 set \<Rightarrow> 'x top \<Rightarrow> bool" where
  "cache_ok H xbytes L C t \<longleftrightarrow>
     (\<forall>a \<in> C. \<forall>inst. h_cached H (ucast a) (ext (t_env t)) = Some inst \<longrightarrow>
        (\<exists>i. rv_word (rv_of (\<lambda>e. xbytes (ext e)) 0 (state t)) a = encode i \<and> inst = word_inst L a i (state t)))"

definition top_ok :: "'x host \<Rightarrow> ('x \<Rightarrow> u64 \<Rightarrow> u8) \<Rightarrow> nat \<Rightarrow> u32 set \<Rightarrow> 'x top \<Rightarrow> bool" where
  "top_ok H xbytes L C t \<longleftrightarrow>
     xregs_ok (state t) \<and> top_pc t = pc_reg (state t) \<and> code_memory (st_memory (state t)) \<and>
     code_memory (dec_memory (rv32_decoder t)) \<and> cache_ok H xbytes L C t"

lemma rv_word_frame: "rv_mem m = rv_mem m' \<Longrightarrow> rv_word m a = rv_word m' a"
  by (simp add: rv_word_def rv_bytes_def)

lemma rv_of_cong:
  "same_frame s s' \<Longrightarrow> reg_db s' = reg_db s \<Longrightarrow> bytes (env s') = bytes (env s) \<Longrightarrow>
   rv_of bytes p s' = rv_of bytes p s"
  by (simp add: rv_of_def xval_def same_frame_def fun_eq_iff)

lemma ucast_inj: "(ucast (a :: u32) :: u64) = ucast b \<longleftrightarrow> a = b"
  by (metis ucast_32_64_32)

lemma encode_inst_unique:
  "encode i = encode j \<Longrightarrow> word_inst L a i s = word_inst L a j s"
  using decode_encode [of i] decode_encode [of j] by (simp add: word_inst_def)

lemma word_inst_frame: "same_frame s s' \<Longrightarrow> word_inst L a i s' = word_inst L a i s"
  by (simp add: word_inst_def decoded_frame)

locale simulator = mpact_operands lib + host_memory H xbytes
  for lib :: "'x top_env mpact" and H :: "'x host" and xbytes
begin

abbreviation mbytes :: "'x top_env \<Rightarrow> u64 \<Rightarrow> u8" where
  "mbytes \<equiv> \<lambda>e. xbytes (ext e)"

text \<open>A cache miss decodes the word at the address, whatever it is.\<close>

lemma fetch_miss:
  assumes xok: "xregs_ok (state t)" and dm: "code_memory (dec_memory (rv32_decoder t))"
    and miss: "h_cached H (ucast pc) (ext (t_env t)) = None"
    and w: "rv_word (rv_of mbytes pc (state t)) pc = w" and ncsr: "\<not> csr_op (DecodeRiscVInst32 w)"
    and inst: "inst = decoded (lib_default_size lib) (ucast pc) w (DecodeRiscVInst32 w) (state t)"
  obtains t' x where "GetDecodedInstruction lib H (ucast pc) t = (inst, t')"
    "same_frame (state t) (state t')" "reg_db (state t') = reg_db (state t)"
    "xbytes (ext (t_env t')) = xbytes (ext (t_env t))"
    "ext (t_env t') = h_cache H (ucast pc) inst x" "\<And>b. h_cached H b x = h_cached H b (ext (t_env t))"
    "x = hr_ext (h_load H (dec_memory (rv32_decoder t)) (ucast pc) 4 False (ext (t_env t)))"
    "dec_memory (rv32_decoder t') = dec_memory (rv32_decoder t)"
    "control_same t t'" "counter_num_instructions t' = counter_num_instructions t"
    "counter_opcode t' = counter_opcode t"
proof -
  let ?dec = "rv32_decoder t" and ?L = "lib_default_size lib"
  let ?r = "h_load H (dec_memory ?dec) (ucast pc) 4 False (ext (t_env t))"
  let ?e1 = "run_callbacks (hr_callbacks ?r) ((t_env t)\<lparr>ext := hr_ext ?r\<rparr>)"
  let ?s1 = "(state t)\<lparr>env := ?e1\<rparr>"
  let ?dec' = "?dec\<lparr>riscv_encoding := ParseInstruction w (riscv_encoding ?dec)\<rparr>"
  have "le_word (hr_data ?r) = w"
    using w by (simp add: h_load_data [OF dm] rv_word_def rv_bytes_def)
  then have dec: "DecodeInstruction lib (mem_of H) ?dec (ucast pc) (state t) = (inst, ?dec', ?s1)"
    using isa_Decode_found [of ?s1 "ParseInstruction w (riscv_encoding ?dec)" ?L "ucast pc" lib] xok ncsr
    by (simp add: DecodeInstruction_def mem_of_def Let_def ParseInstruction_def GetOpcode_def
        xregs_ok_def inst decoded_frame [OF same_frame_env])
  define t' where "t' = set_ext (h_cache H (ucast pc) inst (ext ?e1)) (t\<lparr>state := ?s1, rv32_decoder := ?dec'\<rparr>)"
  have st: "state t' = (state t)\<lparr>env := ?e1\<lparr>ext := h_cache H (ucast pc) inst (ext ?e1)\<rparr>\<rparr>"
    by (simp add: t'_def set_ext_def map_env_def)
  show ?thesis
  proof (rule that [of t' "ext ?e1"])
    show "GetDecodedInstruction lib H (ucast pc) t = (inst, t')"
      using miss by (simp add: GetDecodedInstruction_def dec t'_def Let_def)
  qed (simp_all add: st h_cache_bytes h_load_bytes [OF dm] h_load_cached [OF dm] t'_def set_ext_def
        map_env_def control_same_def)
qed

lemma fetch:
  assumes ok: "top_ok H xbytes (lib_default_size lib) C t" and C: "pc \<in> C"
    and w: "rv_word (rv_of mbytes pc (state t)) pc = encode i"
  obtains t' where
    "GetDecodedInstruction lib H (ucast pc) t = (word_inst (lib_default_size lib) pc i (state t), t')"
    "top_ok H xbytes (lib_default_size lib) C t'" "same_frame (state t) (state t')"
    "reg_db (state t') = reg_db (state t)"
    "rv_of mbytes pc (state t') = rv_of mbytes pc (state t)"
    "top_pc t' = top_pc t" "run_status t' = run_status t"
    "counter_num_instructions t' = counter_num_instructions t"
    "counter_opcode t' = counter_opcode t"
proof (cases "h_cached H (ucast pc) (ext (t_env t))")
  case (Some inst)
  then obtain j where "rv_word (rv_of mbytes 0 (state t)) pc = encode j"
    "inst = word_inst (lib_default_size lib) pc j (state t)"
    using ok C by (auto simp: top_ok_def cache_ok_def)
  moreover have "rv_word (rv_of mbytes 0 (state t)) pc = encode i"
    using w rv_word_frame [of "rv_of mbytes 0 (state t)" "rv_of mbytes pc (state t)" pc] by simp
  ultimately have "inst = word_inst (lib_default_size lib) pc i (state t)"
    using encode_inst_unique by metis
  with Some show ?thesis
    using that [of t] ok by (simp add: GetDecodedInstruction_def)
next
  case None
  let ?L = "lib_default_size lib" and ?inst = "word_inst (lib_default_size lib) pc i (state t)"
  have o: "xregs_ok (state t)" "code_memory (dec_memory (rv32_decoder t))" using ok by (simp_all add: top_ok_def)
  have "\<not> csr_op (DecodeRiscVInst32 (encode i))"
    using base_opcode_of [of i] by (simp add: decode_encode base_opcode_def csr_op_def)
  from fetch_miss [OF o None w this refl] obtain t' x where
    g: "GetDecodedInstruction lib H (ucast pc) t = (?inst, t')"
    and fr: "same_frame (state t) (state t')" and db: "reg_db (state t') = reg_db (state t)"
    and xb: "xbytes (ext (t_env t')) = xbytes (ext (t_env t))"
    and x: "ext (t_env t') = h_cache H (ucast pc) ?inst x" "\<And>b. h_cached H b x = h_cached H b (ext (t_env t))"
    and dm: "dec_memory (rv32_decoder t') = dec_memory (rv32_decoder t)"
    and rest: "control_same t t'" "counter_num_instructions t' = counter_num_instructions t"
      "counter_opcode t' = counter_opcode t"
    unfolding word_inst_def decode_encode by metis
  have "cache_ok H xbytes ?L C t'"
    unfolding cache_ok_def
  proof (intro ballI allI impI)
    fix a inst assume "a \<in> C" and hit: "h_cached H (ucast a) (ext (t_env t')) = Some inst"
    have m: "rv_word (rv_of mbytes 0 (state t')) a = rv_word (rv_of mbytes p (state t)) a" for a p
      using xb by (intro rv_word_frame) simp
    have f: "word_inst ?L a j (state t') = word_inst ?L a j (state t)" for a j
      by (rule word_inst_frame [OF fr])
    from hit consider "a = pc" "inst = ?inst" | "h_cached H (ucast a) (ext (t_env t)) = Some inst"
      using h_cache_lookup [of "ucast a" "ucast pc" ?inst x inst] by (auto simp: x ucast_inj)
    then show "\<exists>i. rv_word (rv_of mbytes 0 (state t')) a = encode i \<and> inst = word_inst ?L a i (state t')"
    proof cases
      case 1
      then show ?thesis using w m [of pc pc] f by auto
    next
      case 2
      then show ?thesis using ok \<open>a \<in> C\<close> m [of a 0] f by (auto simp: top_ok_def cache_ok_def)
    qed
  qed
  then have "top_ok H xbytes ?L C t'"
    using ok dm rest(1) fr xregs_ok_frame [OF fr] by (simp add: top_ok_def control_same_def same_frame_def)
  moreover have "rv_of mbytes pc (state t') = rv_of mbytes pc (state t)"
    by (rule rv_of_cong [OF fr db]) (simp add: xb)
  ultimately show ?thesis
    using that g fr db rest by (simp add: control_same_def)
qed

end

lemma word_inst_size [simp]: "inst_size (word_inst L a i s) = 4"
  using base_opcode_of [of i] by (simp add: word_inst_def op_size_4 base_opcode_def)

lemma count_instruction_simps [simp]:
  "state (count_instruction inst t) = state t" "top_pc (count_instruction inst t) = top_pc t"
  "rv32_decoder (count_instruction inst t) = rv32_decoder t"
  "run_status (count_instruction inst t) = run_status t"
  "counter_num_instructions (count_instruction inst t) = counter_num_instructions t + 1"
  by (simp_all add: count_instruction_def)

lemma top_ok_state:
  assumes "state t' = state t" "top_pc t' = top_pc t" "rv32_decoder t' = rv32_decoder t"
  shows "top_ok H xbytes L C t' = top_ok H xbytes L C t"
  using assms by (simp add: top_ok_def cache_ok_def)

context simulator
begin

lemma execute_word_inst:
  assumes "code_memory (st_memory s)" and "xregs_ok s" and "jalr_even i (rv_of mbytes pc s)"
  obtains s' where "Execute lib (mem_of H) (word_inst L pc i s) s = Some s'"
    "exec_effect (mem_of H) mbytes pc i s s'"
proof -
  have "rv32_machine lib (mem_of H) (st_memory s) mbytes"
    using mem_of_memory [OF assms(1)] mpact_operands_axioms by (rule rv32_machine.intro [rotated])
  from rv32_machine.instruction_refines [OF this refl assms(2,3)] that show ?thesis
    by (auto simp: runs_as_def)
qed

lemma top_ok_effect:
  assumes ok: "top_ok H xbytes L C t" and fr: "same_frame (state t) s'"
    and mem: "mem_effect (mem_of H) (st_memory (state t)) (t_env t) (env s')"
    and code: "\<And>a. a \<in> C \<Longrightarrow> rv_word (rv_of mbytes 0 s') a = rv_word (rv_of mbytes 0 (state t)) a"
  shows "top_ok H xbytes L C (t\<lparr>state := s'\<rparr>)"
proof -
  have cm: "code_memory (st_memory (state t))" using ok by (simp add: top_ok_def)
  have "cache_ok H xbytes L C (t\<lparr>state := s'\<rparr>)"
    using ok code unfolding cache_ok_def top_ok_def
    by (simp add: mem_effect_cached [OF cm mem] word_inst_frame [OF fr])
  then show ?thesis
    using ok fr xregs_ok_frame [OF fr] by (simp add: top_ok_def same_frame_def)
qed

lemma loop_refines:
  assumes ok: "top_ok H xbytes (lib_default_size lib) C t"
    and step: "rv_step C (rv_of mbytes p (state t)) m'"
    and d: "d = db_id (pc_data_buffer t)"
  obtains d' p' t' where "loop_body lib H (d, p, t) = Some (d', p', t')"
    "top_ok H xbytes (lib_default_size lib) C t'" "d' = db_id (pc_data_buffer t')"
    "rv_of mbytes p' (state t') = m'"
    "counter_num_instructions t' = counter_num_instructions t + 1" "run_status t' = run_status t"
proof -
  let ?L = "lib_default_size lib"
  from step obtain i where i: "p \<in> C" "rv_word (rv_of mbytes p (state t)) p = encode i"
    "jalr_even i (rv_of mbytes p (state t))" "m' = rv_exec i (rv_of mbytes p (state t))"
    by (auto elim: rv_stepE)
  obtain t1 where f: "GetDecodedInstruction lib H (ucast p) t = (word_inst ?L p i (state t), t1)"
    "top_ok H xbytes ?L C t1" "same_frame (state t) (state t1)" "reg_db (state t1) = reg_db (state t)"
    "rv_of mbytes p (state t1) = rv_of mbytes p (state t)" "top_pc t1 = top_pc t"
    "run_status t1 = run_status t" "counter_num_instructions t1 = counter_num_instructions t"
    using fetch [OF ok i(1,2)] by metis
  have t1: "code_memory (st_memory (state t1))" "xregs_ok (state t1)" "top_pc t1 = pc_reg (state t1)"
    using f(2) by (simp_all add: top_ok_def)
  obtain s' where s': "Execute lib (mem_of H) (word_inst ?L p i (state t)) (state t1) = Some s'"
    "exec_effect (mem_of H) mbytes p i (state t1) s'"
    using execute_word_inst [OF t1(1,2), of i p ?L] i(3) f(5) word_inst_frame [OF f(3)] by metis
  then have e: "rv_of mbytes (next_pc p 4 (state t1) s') s' = m'" "same_frame (state t1) s'"
    "mem_effect (mem_of H) (st_memory (state t1)) (t_env t1) (env s')"
    using i(4) f(5) by (simp_all add: exec_effect_def)
  define t' where "t' = count_instruction (word_inst ?L p i (state t)) (t1\<lparr>state := s'\<rparr>)"
  have pcr: "top_pc t' = pc_reg s'" and dd: "db_id (pc_db (state t1)) = d"
    using e(2) t1(3) f(4,6) d by (simp_all add: t'_def same_frame_def pc_data_buffer_def)
  have "loop_body lib H (d, p, t) = Some (db_id (pc_data_buffer t'), next_pc p 4 (state t1) s', t')"
    using dd pcr by (simp add: loop_body_def f(1) s'(1) next_pc_def t'_def pc_data_buffer_def Let_def)
  moreover have "rv_word (rv_of mbytes 0 s') a = rv_word (rv_of mbytes 0 (state t1)) a" if "a \<in> C" for a
    using rv_step_code [OF step that] e(1) f(5)
      rv_word_frame [of m' "rv_of mbytes 0 s'" a]
      rv_word_frame [of "rv_of mbytes p (state t)" "rv_of mbytes 0 (state t1)" a]
    by (metis rv_of_simps(3))
  then have "top_ok H xbytes ?L C t'"
    using top_ok_effect [OF f(2) e(2,3)] top_ok_state [of t' "t1\<lparr>state := s'\<rparr>"] by (simp add: t'_def)
  ultimately show ?thesis
    using that e(1) f(7,8) by (simp add: t'_def)
qed

end

text \<open>The architectural state of a halted simulator: the pc register holds the next pc.\<close>

definition top_abs :: "('x \<Rightarrow> u64 \<Rightarrow> u8) \<Rightarrow> 'x top \<Rightarrow> rv32" where
  "top_abs xbytes t = rv_of (\<lambda>e. xbytes (ext e)) (db_get32 (pc_data_buffer t)) (state t)"

lemma set_pc_value_simps [simp]:
  "t_env (set_pc_value v t) = t_env t" "previous_pc (set_pc_value v t) = previous_pc t" "top_pc (set_pc_value v t) = top_pc t"
  "rv32_decoder (set_pc_value v t) = rv32_decoder t" "run_status (set_pc_value v t) = run_status t"
  "state (set_pc_value v t) = (state t)\<lparr>reg_db := (reg_db (state t))
     (top_pc t := (pc_data_buffer t)\<lparr>db_bytes := le_bytes 4 v\<rparr>)\<rparr>"
  "counter_num_instructions (set_pc_value v t) = counter_num_instructions t"
  by (simp_all add: set_pc_value_def)

lemma set_halt_reason_simps [simp]:
  "top_pc (set_halt_reason r t) = top_pc t" "rv32_decoder (set_halt_reason r t) = rv32_decoder t"
  "run_status (set_halt_reason r t) = run_status t"
  "state (set_halt_reason r t) = (state t)\<lparr>env := (t_env t)\<lparr>halt_reason := r\<rparr>\<rparr>"
  "counter_num_instructions (set_halt_reason r t) = counter_num_instructions t"
  by (simp_all add: set_halt_reason_def map_env_def)

lemma set_halted_simps [simp]:
  "top_pc (set_halted b t) = top_pc t" "rv32_decoder (set_halted b t) = rv32_decoder t"
  "run_status (set_halted b t) = run_status t"
  "state (set_halted b t) = (state t)\<lparr>env := (t_env t)\<lparr>halted := b\<rparr>\<rparr>"
  "counter_num_instructions (set_halted b t) = counter_num_instructions t"
  by (simp_all add: set_halted_def map_env_def)

lemma db_get32_set [simp]: "db_get32 (db\<lparr>db_bytes := le_bytes 4 v\<rparr>) = v"
  by (simp add: db_get32_def)

text \<open>\<open>top_ok\<close> and the architectural state depend on the frame, the registers and the external
  world only.\<close>

lemma top_ok_cong:
  assumes fr: "same_frame (state t) (state t')" and x: "ext (t_env t') = ext (t_env t)"
    and "top_pc t' = top_pc t" "rv32_decoder t' = rv32_decoder t"
  shows "top_ok H xbytes L C t' = top_ok H xbytes L C t"
proof -
  have "rv_word (rv_of (\<lambda>e. xbytes (ext e)) 0 (state t')) a = rv_word (rv_of (\<lambda>e. xbytes (ext e)) 0 (state t)) a" for a
    by (rule rv_word_frame) (simp add: x)
  then have "cache_ok H xbytes L C t' = cache_ok H xbytes L C t"
    by (simp add: cache_ok_def x word_inst_frame [OF fr])
  then show ?thesis
    using assms xregs_ok_frame [OF fr] by (simp add: top_ok_def same_frame_def)
qed

lemma top_abs_set_pc:
  assumes ok: "xregs_ok (state t)" and pc: "top_pc t = pc_reg (state t)"
  shows "top_abs xbytes (set_pc_value v t) = rv_of (\<lambda>e. xbytes (ext e)) v (state t)"
proof -
  have "xval (state (set_pc_value v t)) (unat r) = xval (state t) (unat r)" for r :: regnum
    using xregs_okD(4) [OF ok, of "unat r"] unat_regnum_less [of r]
    by (auto simp: set_pc_value_def xval_def pc pc_data_buffer_def)
  then show ?thesis
    by (simp add: top_abs_def rv_of_def set_pc_value_def pc_data_buffer_def)
qed

section \<open>From turns of the loop to Step\<close>

text \<open>A turn of the loop follows the step relation \<open>R\<close> on architectural states while the invariant
  \<open>I\<close> holds. \<open>R\<close> is the manual's step here and that of the whole machine in \<open>Machine\<close>.\<close>

locale turns =
  fixes lib :: "'x top_env mpact" and H :: "'x host" and xbytes :: "'x \<Rightarrow> u64 \<Rightarrow> u8"
    and R :: "rv32 \<Rightarrow> rv32 \<Rightarrow> bool" and I :: "'x top \<Rightarrow> bool"
  assumes turn: "I t \<Longrightarrow> R (rv_of (\<lambda>e. xbytes (ext e)) p (state t)) m' \<Longrightarrow>
      \<exists>d' p' t'. loop_body lib H (db_id (pc_data_buffer t), p, t) = Some (d', p', t') \<and> I t' \<and>
        d' = db_id (pc_data_buffer t') \<and> rv_of (\<lambda>e. xbytes (ext e)) p' (state t') = m' \<and>
        counter_num_instructions t' = counter_num_instructions t + 1 \<and> run_status t' = run_status t"
    and inv_registers: "I t \<Longrightarrow> xregs_ok (state t) \<and> top_pc t = pc_reg (state t)"
    and inv_cong: "I t \<Longrightarrow> same_frame (state t) (state t') \<Longrightarrow> ext (t_env t') = ext (t_env t) \<Longrightarrow>
      top_pc t' = top_pc t \<Longrightarrow> rv32_decoder t' = rv32_decoder t \<Longrightarrow> I t'"
begin

abbreviation abytes :: "'x top_env \<Rightarrow> u64 \<Rightarrow> u8" where
  "abytes \<equiv> \<lambda>e. xbytes (ext e)"

lemma step_loop_follows:
  assumes "I t" and "d = db_id (pc_data_buffer t)"
    and "(R ^^ n) (rv_of abytes p (state t)) m"
  shows "\<exists>k last d' p' t'. step_loop lib H n count pc (d, p, t) = Some (count + int k, last, d', p', t') \<and>
    k \<le> n \<and> (0 < n \<longrightarrow> 0 < k) \<and> (R ^^ k) (rv_of abytes p (state t)) (rv_of abytes p' (state t')) \<and>
    I t' \<and>
    (k < n \<longrightarrow> halted (t_env t')) \<and>
    counter_num_instructions t' = counter_num_instructions t + of_nat k \<and>
    run_status t' = run_status t \<and> (0 < n \<longrightarrow> last \<noteq> None)"
  using assms
proof (induction n arbitrary: count pc d p t)
  case 0
  then show ?case by (auto intro!: exI [of _ 0])
next
  case (Suc n)
  from Suc.prems(3) obtain m1 where m1: "R (rv_of abytes p (state t)) m1" "(R ^^ n) m1 m"
    by (metis relpowp_Suc_D2)
  obtain d1 p1 t1 where b: "loop_body lib H (d, p, t) = Some (d1, p1, t1)"
    "I t1" "d1 = db_id (pc_data_buffer t1)"
    "rv_of abytes p1 (state t1) = m1"
    "counter_num_instructions t1 = counter_num_instructions t + 1" "run_status t1 = run_status t"
    using turn [OF Suc.prems(1) m1(1)] Suc.prems(2) by metis
  show ?case
  proof (cases "halted (t_env t1)")
    case True
    have "(R ^^ 1) (rv_of abytes p (state t)) m1" using m1(1) by (simp only: relpowp_1)
    then show ?thesis
      using b True by (intro exI [of _ 1] exI [of _ "Some p"] exI [of _ d1] exI [of _ p1] exI [of _ t1]) (simp del: relpowp.simps One_nat_def)
  next
    case False
    have rest: "(R ^^ n) (rv_of abytes p1 (state t1)) m" using m1(2) b(4) by simp
    obtain k last d' p' t' where r:
      "step_loop lib H n (count + 1) (Some p) (d1, p1, t1) = Some (count + 1 + int k, last, d', p', t')"
      "k \<le> n" "(R ^^ k) m1 (rv_of abytes p' (state t'))"
      "I t'" "k < n \<longrightarrow> halted (t_env t')"
      "counter_num_instructions t' = counter_num_instructions t1 + of_nat k"
      "run_status t' = run_status t1" "0 < n \<longrightarrow> last \<noteq> None"
      using Suc.IH [OF b(2,3) rest, where count = "count + 1" and pc = "Some p"] b(4) by blast
    have "n = 0 \<Longrightarrow> last = Some p" using r(1) by auto
    moreover have "(R ^^ Suc k) (rv_of abytes p (state t)) (rv_of abytes p' (state t'))"
      using m1(1) r(3) by (rule relpowp_Suc_I2)
    ultimately show ?thesis
      using b False r
      by (intro exI [of _ "Suc k"] exI [of _ last] exI [of _ d'] exI [of _ p'] exI [of _ t'])
         (auto simp: algebra_simps)
  qed
qed

lemma step_rest_follows:
  assumes ok: "I t" and n: "n = nat (num - count)" "0 < n"
    and run: "(R ^^ n) (top_abs xbytes t) m"
  shows "\<exists>k t'. step_rest lib H num count t = Some (Inr (count + int k), t') \<and> 0 < k \<and> k \<le> n \<and>
    (R ^^ k) (top_abs xbytes t) (top_abs xbytes t') \<and>
    I t' \<and> run_status t' = Run_kHalted \<and>
    (k < n \<longrightarrow> halted (t_env t')) \<and> (\<not> halted (t_env t') \<longrightarrow> halt_reason (t_env t') = Halt_kNone) \<and>
    counter_num_instructions t' = counter_num_instructions t + of_nat k \<and> previous_pc t' \<noteq> None"
proof -
  let ?db = "pc_data_buffer t"
  obtain k last d' p' t1 where l:
    "step_loop lib H n count None (db_id ?db, db_get32 ?db, t) = Some (count + int k, last, d', p', t1)"
    "k \<le> n" "0 < k" "(R ^^ k) (top_abs xbytes t) (rv_of abytes p' (state t1))"
    "I t1" "k < n \<longrightarrow> halted (t_env t1)"
    "counter_num_instructions t1 = counter_num_instructions t + of_nat k" "last \<noteq> None"
    using step_loop_follows [OF ok refl, of n "db_get32 ?db" m count None] run n(2)
    by (auto simp: top_abs_def)
  let ?t2 = "set_pc_value p' (t1\<lparr>previous_pc := last\<rparr>)"
  let ?t3 = "if \<not> halted (t_env ?t2) then set_halt_reason Halt_kNone ?t2 else ?t2"
  let ?t' = "?t3\<lparr>run_status := Run_kHalted\<rparr>"
  have x1: "xregs_ok (state t1)" "top_pc t1 = pc_reg (state t1)" using inv_registers [OF l(5)] by simp_all
  have ok': "I ?t'"
    by (rule inv_cong [OF l(5)]) (simp_all add: same_frame_def)
  have "top_abs xbytes ?t2 = rv_of abytes p' (state t1)"
    using top_abs_set_pc [of "t1\<lparr>previous_pc := last\<rparr>"] x1 by simp
  moreover have "top_abs xbytes ?t' = top_abs xbytes ?t2"
    unfolding top_abs_def pc_data_buffer_def
    by (auto intro!: rv_of_cong simp: )
  ultimately have abs': "top_abs xbytes ?t' = rv_of abytes p' (state t1)" by simp
  have "step_rest lib H num count t = Some (Inr (count + int k), ?t')"
    using l(1) n(1) by (simp add: step_rest_def Let_def)
  then show ?thesis
    using l ok' abs'
    by (intro exI [of _ k] exI [of _ ?t']) (auto simp: set_pc_value_def set_halt_reason_def map_env_def)
qed

lemma Step_follows:
  assumes ok: "I t" and st: "run_status t = Run_kHalted"
    and hr: "halt_reason (t_env t) \<noteq> Halt_kSoftwareBreakpoint" and n: "0 < n"
    and run: "(R ^^ n) (top_abs xbytes t) m"
  shows "\<exists>k t'. Step lib H (int n) t = Some (Inr (int k), t') \<and> 0 < k \<and> k \<le> n \<and>
    (R ^^ k) (top_abs xbytes t) (top_abs xbytes t') \<and>
    I t' \<and> run_status t' = Run_kHalted \<and>
    (k < n \<longrightarrow> halted (t_env t')) \<and> (\<not> halted (t_env t') \<longrightarrow> halt_reason (t_env t') = Halt_kNone) \<and>
    counter_num_instructions t' = counter_num_instructions t + of_nat k \<and> previous_pc t' \<noteq> None"
proof -
  let ?t0 = "set_halted False (t\<lparr>run_status := Run_kSingleStep\<rparr>)"
  have ok0: "I ?t0" by (rule inv_cong [OF ok]) (simp_all add: same_frame_def)
  have abs0: "top_abs xbytes ?t0 = top_abs xbytes t"
    unfolding top_abs_def pc_data_buffer_def by (simp add: rv_of_def)
  have "Step lib H (int n) t = step_rest lib H (int n) 0 ?t0"
    using st hr n by (simp add: Step_def)
  with step_rest_follows [OF ok0, of n "int n" 0 m] n run show ?thesis
    unfolding abs0 by simp
qed

end

sublocale simulator \<subseteq> manual: turns lib H xbytes "rv_step C" "top_ok H xbytes (lib_default_size lib) C" for C
proof (unfold_locales, goal_cases)
  case (1 t p m')
  then show ?case using loop_refines [OF 1 refl] by metis
next
  case (2 t)
  then show ?case by (simp add: top_ok_def)
next
  case (3 t t')
  then show ?case using top_ok_cong [of t t'] by simp
qed

context simulator
begin

lemmas Step_simulates = manual.Step_follows

end

end
