(* ===== verification/Construction.thy ===== *)
theory Construction
  imports Program_Refinement
begin

text \<open>
  The state the constructor of \<^verbatim>\<open>RV32ITop\<close> leaves: all 33 registers and the 32 ABI aliases,
  the ebreak handler, counters at zero.
\<close>

section \<open>Register names\<close>

lemma aliases_agree: "kRegisterAliases = xreg_alias"
  by (simp add: kRegisterAliases_def xreg_alias_def)

definition reg_names :: "nat \<Rightarrow> string list" where
  "reg_names n = kPcName # map xreg_name [0..<n] @ take n kRegisterAliases"

lemma distinct_reg_names: "distinct (reg_names 32)"
  unfolding reg_names_def xreg_names
  by (simp add: kPcName_def kRegisterAliases_def)

lemma length_aliases [simp]: "length kRegisterAliases = 32"
  by (simp add: kRegisterAliases_def)

lemma alias_neq:
  assumes "i < 32" "j < 32"
  shows "kRegisterAliases ! i = kRegisterAliases ! j \<longleftrightarrow> i = j"
    and "xreg_name i \<noteq> kRegisterAliases ! j" and "kPcName \<noteq> kRegisterAliases ! i"
proof -
  have d: "distinct kRegisterAliases" "set (map xreg_name [0..<32]) \<inter> set kRegisterAliases = {}"
    "kPcName \<notin> set kRegisterAliases"
    using distinct_reg_names by (simp_all add: reg_names_def)
  show "kRegisterAliases ! i = kRegisterAliases ! j \<longleftrightarrow> i = j"
    using d(1) assms by (simp add: nth_eq_iff_index_eq)
  show "xreg_name i \<noteq> kRegisterAliases ! j"
    using d(2) assms by (metis (no_types, lifting) IntI atLeastLessThan_iff empty_iff image_eqI length_aliases
        list.set_map nth_mem set_upt zero_le)
  show "kPcName \<noteq> kRegisterAliases ! i"
    using d(3) assms by (metis length_aliases nth_mem)
qed

section \<open>Adding the registers\<close>

definition regs_upto :: "nat \<Rightarrow> 'e riscv_state \<Rightarrow> bool" where
  "regs_upto n s \<longleftrightarrow>
     dom (registers s) = set (reg_names n) \<and> registers s kPcName = st_pc s \<and>
     (\<forall>i < n. registers s (kRegisterAliases ! i) = registers s (xreg_name i)) \<and>
     (\<forall>i < n. \<forall>j < n. registers s (xreg_name i) = registers s (xreg_name j) \<longrightarrow> i = j) \<and>
     (\<forall>i < n. registers s (xreg_name i) \<noteq> st_pc s) \<and>
     (\<forall>r \<in> ran (registers s). length (db_bytes (reg_db s r)) = 4)"

definition same_but_xregs :: "'e riscv_state \<Rightarrow> 'e riscv_state \<Rightarrow> bool" where
  "same_but_xregs s s' \<longleftrightarrow>
     st_pc s' = st_pc s \<and> st_memory s' = st_memory s \<and> on_ebreak s' = on_ebreak s \<and>
     on_ecall s' = on_ecall s \<and> on_wfi s' = on_wfi s \<and> slog s' = slog s \<and> env s' = env s \<and>
     st_xlen s' = st_xlen s \<and> (\<forall>p. st_pc s = Some p \<longrightarrow> reg_db s' p = reg_db s p)"

lemma set_reg_names_Suc:
  "n < 32 \<Longrightarrow> set (reg_names (Suc n)) = insert (kRegisterAliases ! n) (insert (xreg_name n) (set (reg_names n)))"
  by (auto simp: reg_names_def take_Suc_conv_app_nth)

lemma reg_names_fresh:
  assumes "n < 32"
  shows "xreg_name n \<notin> set (reg_names n)" "kRegisterAliases ! n \<notin> insert (xreg_name n) (set (reg_names n))"
proof -
  have in_take: "x \<in> set (take n kRegisterAliases) \<Longrightarrow> \<exists>j < n. x = kRegisterAliases ! j" for x
    by (auto simp: in_set_conv_nth)
  have names: "x \<in> set (reg_names n) \<Longrightarrow>
      x = kPcName \<or> (\<exists>j < n. x = xreg_name j) \<or> (\<exists>j < n. x = kRegisterAliases ! j)" for x
    using in_take by (auto simp: reg_names_def)
  show "xreg_name n \<notin> set (reg_names n)"
    using names [of "xreg_name n"] assms alias_neq(2) [of n] xreg_name_eq_iff [of n] xreg_name_not_pc [of n]
    by (metis less_trans nat_neq_iff)
  show "kRegisterAliases ! n \<notin> insert (xreg_name n) (set (reg_names n))"
    using names [of "kRegisterAliases ! n"] assms alias_neq(1) [of n] alias_neq(2) [of _ n] alias_neq(3) [of n]
    by (metis insert_iff less_trans nat_neq_iff)
qed

context mpact_registers
begin

lemma add_xreg_step:
  assumes inv: "regs_upto n s" and n: "n < 32"
  shows "\<exists>r db. r \<notin> ran (registers s) \<and> length (db_bytes db) = 4 \<and>
    add_xreg lib n s =
      s\<lparr>registers := (registers s)(xreg_name n \<mapsto> r, kRegisterAliases ! n \<mapsto> r), reg_db := (reg_db s)(r := db)\<rparr>"
proof -
  have dom: "dom (registers s) = set (reg_names n)" using inv by (simp add: regs_upto_def)
  have "registers s (xreg_name n) = None" "finite (dom (registers s))"
    using reg_names_fresh(1) [OF n] dom by auto
  then obtain r db where a: "r \<notin> ran (registers s)" "length (db_bytes db) = 4"
    "lib_AddRegister lib (xreg_name n) s =
       (r, s\<lparr>registers := (registers s)(xreg_name n \<mapsto> r), reg_db := (reg_db s)(r := db)\<rparr>)"
    using add_register by blast
  let ?s1 = "s\<lparr>registers := (registers s)(xreg_name n \<mapsto> r), reg_db := (reg_db s)(r := db)\<rparr>"
  have "registers ?s1 (kRegisterAliases ! n) = None"
    using reg_names_fresh(2) [OF n] dom by auto
  then have "lib_AddRegisterAs lib (kRegisterAliases ! n) r ?s1 =
      ?s1\<lparr>registers := (registers ?s1)(kRegisterAliases ! n \<mapsto> r)\<rparr>"
    by (rule add_register_as)
  then have "add_xreg lib n s = ?s1\<lparr>registers := (registers ?s1)(kRegisterAliases ! n \<mapsto> r)\<rparr>"
    by (simp add: add_xreg_def a(3) AddRegisterAlias_def Let_def)
  with a(1,2) show ?thesis by (intro exI [of _ r] exI [of _ db]) simp
qed

lemma regs_upto_Suc:
  assumes inv: "regs_upto n s" and n: "n < 32"
  shows "regs_upto (Suc n) (add_xreg lib n s)"
proof -
  obtain r db where r: "r \<notin> ran (registers s)" "length (db_bytes db) = 4"
    "add_xreg lib n s =
      s\<lparr>registers := (registers s)(xreg_name n \<mapsto> r, kRegisterAliases ! n \<mapsto> r), reg_db := (reg_db s)(r := db)\<rparr>"
    using add_xreg_step [OF assms] by blast
  let ?s = "add_xreg lib n s"
  have ne: "registers s nm \<noteq> Some r" for nm using r(1) by (auto simp: ran_def)
  have old: "registers ?s (xreg_name i) = registers s (xreg_name i)"
    "registers ?s (kRegisterAliases ! i) = registers s (kRegisterAliases ! i)" if "i < n" for i
    using that n xreg_name_eq_iff [of i n] alias_neq(2) [of i n] alias_neq(1) [of i n] alias_neq(2) [of n i]
    by (auto simp: r(3))
  have new: "registers ?s (xreg_name n) = Some r" "registers ?s (kRegisterAliases ! n) = Some r"
    by (auto simp: r(3))
  have pc: "registers ?s kPcName = registers s kPcName" "st_pc ?s = st_pc s"
    using alias_neq(3) [of n n] n xreg_name_not_pc [of n] by (auto simp: r(3))
  have ran: "ran (registers ?s) \<subseteq> insert r (ran (registers s))"
    by (auto simp: r(3) ran_def split: if_splits)
  have len: "\<forall>q \<in> ran (registers ?s). length (db_bytes (reg_db ?s q)) = 4"
    using inv r(2) ran by (auto simp: r(3) regs_upto_def)
  have dom: "dom (registers ?s) = set (reg_names (Suc n))"
    using inv n by (auto simp: set_reg_names_Suc regs_upto_def r(3))
  show ?thesis
    unfolding regs_upto_def
    using inv old new pc len dom ne by (auto simp: less_Suc_eq regs_upto_def)
qed

lemma add_xreg_frame:
  assumes "regs_upto n s" and "n < 32"
  shows "st_pc (add_xreg lib n s) = st_pc s" "st_memory (add_xreg lib n s) = st_memory s"
    "on_ebreak (add_xreg lib n s) = on_ebreak s" "on_ecall (add_xreg lib n s) = on_ecall s"
    "on_wfi (add_xreg lib n s) = on_wfi s" "slog (add_xreg lib n s) = slog s"
    "env (add_xreg lib n s) = env s" "st_xlen (add_xreg lib n s) = st_xlen s"
    "registers s kPcName = Some p \<Longrightarrow> reg_db (add_xreg lib n s) p = reg_db s p"
proof -
  obtain r db where r: "r \<notin> ran (registers s)"
    "add_xreg lib n s =
      s\<lparr>registers := (registers s)(xreg_name n \<mapsto> r, kRegisterAliases ! n \<mapsto> r), reg_db := (reg_db s)(r := db)\<rparr>"
    using add_xreg_step [OF assms] by blast
  then show "st_pc (add_xreg lib n s) = st_pc s" "st_memory (add_xreg lib n s) = st_memory s"
    "on_ebreak (add_xreg lib n s) = on_ebreak s" "on_ecall (add_xreg lib n s) = on_ecall s"
    "on_wfi (add_xreg lib n s) = on_wfi s" "slog (add_xreg lib n s) = slog s"
    "env (add_xreg lib n s) = env s" "st_xlen (add_xreg lib n s) = st_xlen s"
    "registers s kPcName = Some p \<Longrightarrow> reg_db (add_xreg lib n s) p = reg_db s p"
    by (auto simp: ran_def)
qed

lemma add_xregs:
  assumes "regs_upto 0 s" and "n \<le> 32"
  shows "regs_upto n (fold (add_xreg lib) [0..<n] s) \<and> same_but_xregs s (fold (add_xreg lib) [0..<n] s)"
  using assms(2)
proof (induction n)
  case 0
  then show ?case using assms(1) by (simp add: same_but_xregs_def)
next
  case (Suc n)
  let ?s = "fold (add_xreg lib) [0..<n] s"
  have IH: "regs_upto n ?s" "same_but_xregs s ?s" "n < 32" using Suc by auto
  have "registers ?s kPcName = st_pc ?s" using IH(1) by (simp add: regs_upto_def)
  then have "same_but_xregs s (add_xreg lib n ?s)"
    using IH(2) add_xreg_frame [OF IH(1,3)] by (simp add: same_but_xregs_def)
  with regs_upto_Suc [OF IH(1,3)] show ?case by simp
qed

end

lemma regs_upto_xregs_ok:
  assumes "regs_upto 32 s"
  shows "xregs_ok s"
proof -
  have all: "registers s nm \<noteq> None" if "nm \<in> set (reg_names 32)" for nm
    using assms that by (auto simp: regs_upto_def)
  then have "registers s (xreg_name i) \<noteq> None" if "i < 32" for i
    using that by (auto simp: reg_names_def)
  moreover have "registers s kPcName \<noteq> None" by (rule all) (simp add: reg_names_def)
  ultimately show ?thesis
    using assms unfolding regs_upto_def xregs_ok_def by (metis option.collapse)
qed

section \<open>The constructed simulator\<close>

context mpact_registers
begin

lemma pc_constructed:
  obtains p where "RiscVState_ctor lib RV32 (Some h) e = s \<Longrightarrow> regs_upto 0 s \<and> st_pc s = Some p \<and>
    st_memory s = h \<and> on_ebreak s = [] \<and> env s = e \<and> slog s = [] \<and> db_bytes (reg_db s p) = le_bytes 4 (0::u32)"
proof -
  let ?s0 = "ArchState_init RV32 h None e"
  have "registers ?s0 kPcName = None" "finite (dom (registers ?s0))" by (simp_all add: ArchState_init_def)
  from add_register [OF this] obtain r db where
    "lib_AddRegister lib kPcName ?s0 =
       (r, ?s0\<lparr>registers := (registers ?s0)(kPcName \<mapsto> r), reg_db := (reg_db ?s0)(r := db)\<rparr>)"
    by blast
  then have "RiscVState_ctor lib RV32 (Some h) e = s \<Longrightarrow> regs_upto 0 s \<and> st_pc s = Some r \<and>
      st_memory s = h \<and> on_ebreak s = [] \<and> env s = e \<and> slog s = [] \<and> db_bytes (reg_db s r) = le_bytes 4 (0::u32)"
    by (auto simp: RiscVState_ctor_def RiscVState_atomic_ctor_def GetRegister_def Let_def regs_upto_def reg_names_def ArchState_init_def
          split: if_splits)
  with that show ?thesis by blast
qed

end

lemma constructed:
  fixes lib :: "'x top_env mpact"
  assumes lib: "mpact_registers lib" and t: "t = RV32ITop_ctor lib H x"
  shows "regs_upto 32 (state t)" "top_pc t = pc_reg (state t)" "st_memory (state t) = FlatMemory"
    "on_ebreak (state t) = [ebreak_handler H]" "db_get32 (pc_data_buffer t) = 0"
    "t_env t = \<lparr>ext = x, halt_reason = Halt_kNone, halted = False\<rparr>"
    "run_status t = Run_kHalted" "previous_pc t = None" "run_halted t = None"
    "dec_memory (rv32_decoder t) = FlatMemory" "counter_num_instructions t = 0" "semihosting t = False"
proof -
  let ?e = "\<lparr>ext = x, halt_reason = Halt_kNone, halted = False\<rparr>"
  define s0 where "s0 = RiscVState_ctor lib RV32 (Some FlatMemory) ?e"
  obtain p where p: "regs_upto 0 s0" "st_pc s0 = Some p" "st_memory s0 = FlatMemory" "on_ebreak s0 = []"
    "env s0 = ?e" "db_bytes (reg_db s0 p) = le_bytes 4 (0::u32)"
    using mpact_registers.pc_constructed [OF lib, of FlatMemory ?e s0] s0_def by metis
  define s1 where "s1 = AddEbreakHandler (ebreak_handler H) s0"
  have s1: "regs_upto 0 s1" using p(1) by (simp add: s1_def AddEbreakHandler_def regs_upto_def)
  define s2 where "s2 = fold (add_xreg lib) [0..<32] s1"
  have s2: "regs_upto 32 s2" "same_but_xregs s1 s2" using mpact_registers.add_xregs [OF lib s1, of 32] by (simp_all add: s2_def)
  have "registers s0 kPcName = Some p" using p(1,2) by (simp add: regs_upto_def)
  then have g: "GetRegister lib kPcName s0 = ((p, False), s0)" by (simp add: GetRegister_def)
  have st: "state t = s2" and tp: "top_pc t = p"
    by (simp_all add: t RV32ITop_ctor_def s0_def [symmetric] g s1_def [symmetric] s2_def Let_def)
  show "regs_upto 32 (state t)" by (simp add: st s2)
  have "st_pc s2 = Some p" "reg_db s2 p = reg_db s0 p"
    using s2(2) p(2) by (simp_all add: same_but_xregs_def s1_def AddEbreakHandler_def)
  then show "top_pc t = pc_reg (state t)" "db_get32 (pc_data_buffer t) = 0"
    using p(6) by (simp_all add: st tp pc_data_buffer_def db_get32_def)
  show "st_memory (state t) = FlatMemory" "on_ebreak (state t) = [ebreak_handler H]" "t_env t = ?e"
    using s2(2) p by (simp_all add: st same_but_xregs_def s1_def AddEbreakHandler_def)
qed (simp_all add: t RV32ITop_ctor_def Let_def case_prod_beta)

end
