(* ===== verification/Control.thy ===== *)
theory Control
  imports Construction
begin

text \<open>
  The run control of \<^verbatim>\<open>RV32ITop\<close>, for any library and any memory: what \<open>Step\<close> returns and
  counts, that it always returns, and the invariants every call of the interface keeps.
\<close>

section \<open>Errors of Step\<close>

lemma Step_bad_count:
  "num \<le> 0 \<Longrightarrow> Step lib H num t = Some (Inl (InvalidArgumentError ''Step count must be > 0''), t)"
  by (simp add: Step_def)

lemma Step_not_halted:
  "0 < num \<Longrightarrow> run_status t \<noteq> Run_kHalted \<Longrightarrow>
   Step lib H num t = Some (Inl (FailedPreconditionError ''RV32ITop::Step: Core must be halted''), t)"
  by (simp add: Step_def)

section \<open>Counters\<close>

lemma OpcodeEnum_UNIV:
  "(UNIV :: OpcodeEnum set) = insert kNone (e_opcode ` set RiscVInst32)"
  using group_opcode_set by auto

instance OpcodeEnum :: finite
  by standard (simp add: OpcodeEnum_UNIV)

text \<open>The opcode counters add up to the instruction counter, modulo \<open>2 ^ 64\<close>.\<close>

definition counters_ok :: "'x top \<Rightarrow> bool" where
  "counters_ok t \<longleftrightarrow> counter_num_instructions t = (\<Sum>op \<in> UNIV. counter_opcode t op)"

definition counted :: "'x top \<Rightarrow> nat \<Rightarrow> 'x top \<Rightarrow> bool" where
  "counted t n t' \<longleftrightarrow>
     counter_num_instructions t' = counter_num_instructions t + of_nat n \<and>
     (counters_ok t \<longrightarrow> counters_ok t')"

lemma counted_trans: "counted t m u \<Longrightarrow> counted u n v \<Longrightarrow> counted t (m + n) v"
  by (simp add: counted_def)

lemma counted_0: 
  "counter_num_instructions t' = counter_num_instructions t \<Longrightarrow> counter_opcode t' = counter_opcode t \<Longrightarrow>
   counted t 0 t'"
  by (simp add: counted_def counters_ok_def)

lemma count_instruction_counted: "counted t 1 (count_instruction inst t)"
proof -
  have "(\<Sum>op \<in> UNIV. ((counter_opcode t)(inst_opcode inst := counter_opcode t (inst_opcode inst) + 1)) op) =
      (\<Sum>op \<in> UNIV. counter_opcode t op) + 1"
    by (simp add: sum.remove [of UNIV "inst_opcode inst"])
  then show ?thesis by (simp add: counted_def counters_ok_def count_instruction_def)
qed

lemma GetDecodedInstruction_frame:
  assumes "GetDecodedInstruction lib H a t = (inst, t')"
  shows "control_same t t'" "counter_num_instructions t' = counter_num_instructions t"
    "counter_opcode t' = counter_opcode t"
  using assms
  by (auto simp: GetDecodedInstruction_def control_same_def set_ext_def map_env_def Let_def
      split: option.splits prod.splits)

lemma loop_body_counts:
  assumes "loop_body lib H (d, p, t) = Some (d', p', t')"
  shows "control_same t t'" "counted t 1 t'"
proof -
  obtain inst t1 where g: "GetDecodedInstruction lib H (ucast p) t = (inst, t1)" by fastforce
  then obtain s where t': "t' = count_instruction inst (t1\<lparr>state := s\<rparr>)"
    using assms by (auto simp: loop_body_def Let_def bind_eq_Some_conv split: if_splits)
  note f = GetDecodedInstruction_frame [OF g]
  show "control_same t t'" using f(1) by (simp add: t' control_same_def count_instruction_def)
  have "counted t 0 (t1\<lparr>state := s\<rparr>)" using f(2,3) by (simp add: counted_0)
  from counted_trans [OF this count_instruction_counted] show "counted t 1 t'" by (simp add: t')
qed

lemma step_loop_counts:
  assumes "step_loop lib H n count pc (d, p, t) = Some (count', pc', d', p', t')"
  shows "control_same t t' \<and> (\<exists>k. count' = count + int k \<and> k \<le> n \<and> (0 < n \<longrightarrow> 0 < k \<and> pc' \<noteq> None) \<and>
    (n = 0 \<longrightarrow> pc' = pc) \<and>
    counted t k t' \<and> (k < n \<longrightarrow> halted (t_env t')))"
  using assms
proof (induction n arbitrary: count pc d p t)
  case 0
  then show ?case by (auto simp: counted_0)
next
  case (Suc n)
  then obtain d1 p1 t1 where b: "loop_body lib H (d, p, t) = Some (d1, p1, t1)"
    by (auto split: option.splits)
  note c = loop_body_counts [OF b]
  show ?case
  proof (cases "halted (t_env t1)")
    case True
    with Suc.prems b c show ?thesis by (auto intro!: exI [of _ "1 :: nat"])
  next
    case False
    with Suc.prems b have "step_loop lib H n (count + 1) (Some p) (d1, p1, t1) = Some (count', pc', d', p', t')"
      by simp
    from Suc.IH [OF this] obtain k where k: "control_same t1 t'" "count' = count + 1 + int k" "k \<le> n"
      "0 < n \<longrightarrow> 0 < k \<and> pc' \<noteq> None" "n = 0 \<longrightarrow> pc' = Some p" "counted t1 k t'" "k < n \<longrightarrow> halted (t_env t')"
      by auto
    have "counted t (Suc k) t'" using counted_trans [OF c(2) k(6)] by simp
    moreover have "control_same t t'" using c(1) k(1) by (rule control_same_trans)
    moreover have "pc' \<noteq> None" using k(4,5) by (cases "n = 0") auto
    ultimately show ?thesis using k by (auto intro!: exI [of _ "Suc k"])
  qed
qed

section \<open>What Step and Run return\<close>

lemma step_rest_counts:
  assumes "step_rest lib H num count t = Some (r, t')" and "count \<le> num"
  shows "\<exists>k. r = Inr (count + int k) \<and> k \<le> nat (num - count) \<and> (count < num \<longrightarrow> 0 < k \<and> previous_pc t' \<noteq> None) \<and>
    (count = num \<longrightarrow> previous_pc t' = None) \<and>
    counted t k t' \<and> run_status t' = Run_kHalted \<and> (count + int k < num \<longrightarrow> halted (t_env t')) \<and>
    (\<not> halted (t_env t') \<longrightarrow> halt_reason (t_env t') = Halt_kNone)"
proof -
  obtain count' pc' d' p' t1 where l:
    "step_loop lib H (nat (num - count)) count None (db_id (pc_data_buffer t), db_get32 (pc_data_buffer t), t) =
       Some (count', pc', d', p', t1)"
    "r = Inr count'"
    "t' = (if \<not> halted (t_env (set_pc_value p' (t1\<lparr>previous_pc := pc'\<rparr>)))
           then set_halt_reason Halt_kNone (set_pc_value p' (t1\<lparr>previous_pc := pc'\<rparr>))
           else set_pc_value p' (t1\<lparr>previous_pc := pc'\<rparr>))\<lparr>run_status := Run_kHalted\<rparr>"
    using assms(1) by (auto simp: step_rest_def Let_def bind_eq_Some_conv)
  have t': "previous_pc t' = pc'" "run_status t' = Run_kHalted" "halted (t_env t') = halted (t_env t1)"
    "\<not> halted (t_env t') \<longrightarrow> halt_reason (t_env t') = Halt_kNone"
    "counter_num_instructions t' = counter_num_instructions t1" "counter_opcode t' = counter_opcode t1"
    by (simp_all add: l(3) set_pc_value_def set_halt_reason_def map_env_def)
  from step_loop_counts [OF l(1)] obtain k where k: "count' = count + int k" "k \<le> nat (num - count)"
    "0 < nat (num - count) \<longrightarrow> 0 < k \<and> pc' \<noteq> None" "nat (num - count) = 0 \<longrightarrow> pc' = None" "counted t k t1"
    "k < nat (num - count) \<longrightarrow> halted (t_env t1)"
    by auto
  have "counted t k t'" using counted_trans [OF k(5) counted_0 [OF t'(5,6)]] by simp
  then show ?thesis
    using k t' l(2) assms(2) by (intro exI [of _ k]) auto
qed

lemma step_over_breakpoint_eq:
  assumes "previous_pc t = Some pc" and "h_DisableBreakpoint H (ucast pc) (ext (t_env t)) = (st, x)"
    and "GetDecodedInstruction lib H (ucast pc) (set_ext x t) = (inst, t2)"
    and "Execute lib (mem_of H) inst (state t2) = Some s"
    and "t3 = count_instruction inst (t2\<lparr>state := s\<rparr>)"
    and "h_EnableBreakpoint H (ucast pc) (ext (t_env t3)) = (st', x')"
  shows "step_over_breakpoint lib H t =
    Some (if \<not> status_ok st then (Inr (), set_halt_reason Halt_kNone t3)
          else if status_ok st' then (Inr (), set_halt_reason Halt_kNone (set_ext x' t3))
          else (Inl st', set_ext x' t3))"
  using assms by (simp add: step_over_breakpoint_def Let_def)

lemma step_over_breakpointE:
  assumes "step_over_breakpoint lib H t = Some res"
  obtains pc st x inst t2 s where
    "previous_pc t = Some pc" "h_DisableBreakpoint H (ucast pc) (ext (t_env t)) = (st, x)"
    "GetDecodedInstruction lib H (ucast pc) (set_ext x t) = (inst, t2)"
    "Execute lib (mem_of H) inst (state t2) = Some s"
proof -
  obtain pc where pc: "previous_pc t = Some pc"
    using assms by (auto simp: step_over_breakpoint_def bind_eq_Some_conv)
  obtain st x where d: "h_DisableBreakpoint H (ucast pc) (ext (t_env t)) = (st, x)" by fastforce
  obtain inst t2 where g: "GetDecodedInstruction lib H (ucast pc) (set_ext x t) = (inst, t2)" by fastforce
  obtain s where "Execute lib (mem_of H) inst (state t2) = Some s"
    using assms by (auto simp: step_over_breakpoint_def bind_eq_Some_conv pc d g Let_def)
  with that pc d g show ?thesis by blast
qed

lemma ext_update_counts [simp]:
  "control_same t (set_ext x t)" "control_same t (set_halt_reason r t)"
  "counted t 0 (set_ext x t)" "counted t 0 (set_halt_reason r t)"
  by (simp_all add: control_same_def counted_0 set_ext_def set_halt_reason_def map_env_def)

lemma step_over_breakpoint_counts:
  assumes "step_over_breakpoint lib H t = Some (r, t')"
  shows "control_same t t'" "counted t 1 t'" "previous_pc t \<noteq> None"
    "r = Inr () \<Longrightarrow> halt_reason (t_env t') = Halt_kNone" "r = Inl e \<Longrightarrow> \<not> status_ok e"
proof -
  from assms obtain pc st x inst t2 s where o: "previous_pc t = Some pc"
    "h_DisableBreakpoint H (ucast pc) (ext (t_env t)) = (st, x)"
    "GetDecodedInstruction lib H (ucast pc) (set_ext x t) = (inst, t2)"
    "Execute lib (mem_of H) inst (state t2) = Some s"
    by (rule step_over_breakpointE)
  define t3 where "t3 = count_instruction inst (t2\<lparr>state := s\<rparr>)"
  obtain st' x' where e: "h_EnableBreakpoint H (ucast pc) (ext (t_env t3)) = (st', x')" by fastforce
  note eq = step_over_breakpoint_eq [OF o t3_def e]
  note f = GetDecodedInstruction_frame [OF o(3)]
  have c3: "control_same t t3"
    using f(1) by (simp add: t3_def control_same_def count_instruction_def set_ext_def map_env_def)
  have "counted t 0 (t2\<lparr>state := s\<rparr>)" using f(2,3) by (simp add: counted_0 set_ext_def map_env_def)
  from counted_trans [OF this count_instruction_counted] have n3: "counted t 1 t3" by (simp add: t3_def)
  have same: "control_same t3 t' \<and> counted t3 0 t'"
    using eq assms counted_trans [of t3 0 "set_ext x' t3" 0] control_same_trans [of t3 "set_ext x' t3"]
    by (auto split: if_splits)
  show "control_same t t'" using c3 same control_same_trans by blast
  show "counted t 1 t'" using n3 same counted_trans [OF n3, of 0 t'] by simp
  show "previous_pc t \<noteq> None" by (simp add: o(1))
  show "r = Inr () \<Longrightarrow> halt_reason (t_env t') = Halt_kNone" "r = Inl e \<Longrightarrow> \<not> status_ok e"
    using eq assms by (auto split: if_splits)
qed

lemma Step_counts:
  assumes "Step lib H num t = Some (Inr c, t')"
  shows "1 \<le> c \<and> c \<le> num \<and> run_status t' = Run_kHalted \<and> (c < num \<longrightarrow> halted (t_env t')) \<and>
    (\<not> halted (t_env t') \<longrightarrow> halt_reason (t_env t') = Halt_kNone) \<and> counted t (nat c) t'"
proof -
  let ?t0 = "set_halted False (t\<lparr>run_status := Run_kSingleStep\<rparr>)"
  have num: "0 < num" "run_status t = Run_kHalted"
    using assms by (auto simp: Step_def split: if_splits)
  have t0: "counted t 0 ?t0" by (simp add: counted_0 set_halted_def map_env_def)
  show ?thesis
  proof (cases "halt_reason (t_env ?t0) = Halt_kSoftwareBreakpoint")
    case False
    then have "step_rest lib H num 0 ?t0 = Some (Inr c, t')"
      using assms num by (simp add: Step_def Let_def)
    from step_rest_counts [OF this] num obtain k where k: "c = int k" "k \<le> nat num" "0 < k"
      "counted ?t0 k t'" "run_status t' = Run_kHalted" "int k < num \<longrightarrow> halted (t_env t')"
      "\<not> halted (t_env t') \<longrightarrow> halt_reason (t_env t') = Halt_kNone"
      by auto
    then show ?thesis using counted_trans [OF t0 k(4)] by auto
  next
    case True
    then obtain a t1 where o1: "step_over_breakpoint lib H ?t0 = Some (a, t1)"
      using assms num by (auto simp: Step_def Let_def bind_eq_Some_conv)
    then have o: "step_over_breakpoint lib H ?t0 = Some (Inr (), t1)"
      "step_rest lib H num 1 t1 = Some (Inr c, t')"
      using assms num True by (cases a; simp add: Step_def Let_def)+
    from step_rest_counts [OF o(2)] num obtain k where k: "c = 1 + int k" "k \<le> nat (num - 1)"
      "counted t1 k t'" "run_status t' = Run_kHalted" "1 + int k < num \<longrightarrow> halted (t_env t')"
      "\<not> halted (t_env t') \<longrightarrow> halt_reason (t_env t') = Halt_kNone"
      by auto
    have "counted t (0 + 1 + k) t'"
      using counted_trans [OF counted_trans [OF t0 step_over_breakpoint_counts(2) [OF o(1)]] k(3)] .
    with k num show ?thesis by (auto simp: nat_add_distrib)
  qed
qed

section \<open>The register table only grows\<close>

definition regs_good :: "'e riscv_state \<Rightarrow> bool" where
  "regs_good s \<longleftrightarrow> xregs_ok s \<and> finite (dom (registers s))"

lemma regs_good_update [simp]:
  "regs_good (s\<lparr>env := e\<rparr>) = regs_good s" "regs_good (s\<lparr>reg_db := f\<rparr>) = regs_good s"
  "regs_good (s\<lparr>slog := l\<rparr>) = regs_good s"
  by (simp_all add: regs_good_def xregs_ok_def)

definition grown :: "'e riscv_state \<Rightarrow> 'e riscv_state \<Rightarrow> bool" where
  "grown s s' \<longleftrightarrow>
     (regs_good s \<longrightarrow>
        regs_good s' \<and> registers s \<subseteq>\<^sub>m registers s' \<and> st_pc s' = st_pc s \<and> env s' = env s \<and>
        on_ebreak s' = on_ebreak s \<and> st_memory s' = st_memory s \<and> slog s' = slog s \<and>
        (\<forall>r \<in> ran (registers s). reg_db s' r = reg_db s r))"

lemma map_le_ran: "f \<subseteq>\<^sub>m g \<Longrightarrow> x \<in> ran f \<Longrightarrow> x \<in> ran g"
  by (force simp: ran_def map_le_def dom_def)

lemma grown_refl [simp]: "grown s s"
  by (simp add: grown_def)

lemma grown_trans: "grown s t \<Longrightarrow> grown t u \<Longrightarrow> grown s u"
  using map_le_ran [of "registers s" "registers t"] by (auto simp: grown_def intro: map_le_trans)

lemma get_all_grown:
  "(\<And>x s. grown s (snd (f x s))) \<Longrightarrow> grown s (snd (get_all f xs s))"
proof (induction xs arbitrary: s)
  case (Cons x xs)
  obtain y s1 where "f x s = (y, s1)" by fastforce
  moreover obtain ys s2 where "get_all f xs s1 = (ys, s2)" by fastforce
  ultimately show ?case
    using Cons.prems [of s x] Cons.IH [OF Cons.prems, of s1] by (auto intro: grown_trans)
qed simp

context mpact_registers
begin

lemma GetRegister_grown: "grown s (snd (GetRegister lib name s))"
proof (cases "registers s name")
  case None
  show ?thesis
    unfolding grown_def
  proof (intro impI)
    assume good: "regs_good s"
    then have fin: "finite (dom (registers s))" and x: "xregs_ok s" by (simp_all add: regs_good_def)
    from add_register [OF None fin] obtain r db where r: "r \<notin> ran (registers s)"
      "lib_AddRegister lib name s = (r, s\<lparr>registers := (registers s)(name \<mapsto> r), reg_db := (reg_db s)(r := db)\<rparr>)"
      by blast
    let ?s = "s\<lparr>registers := (registers s)(name \<mapsto> r), reg_db := (reg_db s)(r := db)\<rparr>"
    have "name \<noteq> kPcName" "\<And>i. i < 32 \<Longrightarrow> name \<noteq> xreg_name i"
      using x None by (auto simp: xregs_ok_def)
    then have "xregs_ok ?s" using x by (auto simp: xregs_ok_def)
    moreover have "registers s \<subseteq>\<^sub>m (registers s)(name \<mapsto> r)"
      using None by (auto simp: map_le_def)
    ultimately show "regs_good (snd (GetRegister lib name s)) \<and>
        registers s \<subseteq>\<^sub>m registers (snd (GetRegister lib name s)) \<and>
        st_pc (snd (GetRegister lib name s)) = st_pc s \<and> env (snd (GetRegister lib name s)) = env s \<and>
        on_ebreak (snd (GetRegister lib name s)) = on_ebreak s \<and>
        st_memory (snd (GetRegister lib name s)) = st_memory s \<and> slog (snd (GetRegister lib name s)) = slog s \<and>
        (\<forall>r \<in> ran (registers s). reg_db (snd (GetRegister lib name s)) r = reg_db s r)"
      using fin None r by (auto simp: GetRegister_def regs_good_def)
  qed
qed (simp add: GetRegister_def)

lemma register_op_grown:
  "grown s (snd (GetRegisterDestinationOp lib name l n s))" "grown s (snd (GetRegisterSourceOp lib name n s))"
  using GetRegister_grown [of s name]
  by (auto simp: GetRegisterDestinationOp_def GetRegisterSourceOp_def split: prod.splits)

lemma getters_grown:
  "grown s (snd (GetSource lib enc op s))" "grown s (snd (GetDestination lib enc d l s))"
  using register_op_grown
  by (cases op; auto simp: xreg_source_def split: prod.splits; metis snd_conv)
     (cases d; use register_op_grown in \<open>auto simp: Let_def split: prod.splits\<close>; metis snd_conv)

lemma build_part_grown:
  "grown s (snd (build_part (encoding_interface lib enc) a sz l p c s))"
proof -
  let ?f = "eif_source (encoding_interface lib enc)" and ?g = "\<lambda>d. eif_dest (encoding_interface lib enc) d l"
  obtain srcs s1 where 1: "get_all ?f (p_sources p) s = (srcs, s1)" by fastforce
  obtain dsts s2 where 2: "get_all ?g (p_dests p) s1 = (dsts, s2)" by fastforce
  have "grown s s1" using get_all_grown [of ?f s "p_sources p"] 1 getters_grown(1)
    by (simp add: encoding_interface_def)
  moreover have "grown s1 s2" using get_all_grown [of ?g s1 "p_dests p"] 2 getters_grown(2)
    by (simp add: encoding_interface_def)
  ultimately show ?thesis using 1 2 by (auto simp: build_part_def intro: grown_trans)
qed

lemma isa_Decode_grown: "grown s (snd (isa_Decode L a (encoding_interface lib enc) s))"
proof -
  let ?e = "riscv32_op L (eif_opcode (encoding_interface lib enc))"
  let ?b = "\<lambda>p c s. build_part (encoding_interface lib enc) a (op_size ?e) (op_latency ?e) p c s"
  show ?thesis
  proof (cases "op_child ?e")
    case None
    then show ?thesis using build_part_grown by (simp add: isa_Decode_def Let_def)
  next
    case (Some p)
    obtain c s1 where 1: "?b p None s = (c, s1)" by fastforce
    then have "grown s s1" using build_part_grown [of s enc a _ _ p None] by (metis snd_conv)
    then show ?thesis
      using Some 1 build_part_grown [of s1] by (auto simp: isa_Decode_def Let_def intro: grown_trans)
  qed
qed

end

section \<open>Every turn of the loop succeeds\<close>

text \<open>
  What the run control needs of the library: an instruction found in the decode cache was put
  there, whatever the memories, the breakpoint manager and raised errors do in between.
\<close>

locale decode_cache =
  fixes lib :: "'x top_env mpact" and H :: "'x host"
  assumes hit_put: "h_cached H b (h_cache H a inst x) = Some j \<Longrightarrow> b = a \<and> j = inst \<or> h_cached H b x = Some j"
    and hit_load: "h_cached H b (hr_ext (h_load H h a n c x)) = Some j \<Longrightarrow> h_cached H b x = Some j"
    and hit_store: "h_cached H b (snd (h_store H h a bs x)) = Some j \<Longrightarrow> h_cached H b x = Some j"
    and hit_raise: "h_cached H b (ext (lib_Raise lib nm m e)) = Some j \<Longrightarrow> h_cached H b (ext e) = Some j"
    and hit_disable: "h_cached H b (snd (h_DisableBreakpoint H a x)) = Some j \<Longrightarrow> h_cached H b x = Some j"
    and hit_enable: "h_cached H b (snd (h_EnableBreakpoint H a x)) = Some j \<Longrightarrow> h_cached H b x = Some j"
    and hit_set: "h_cached H b (snd (h_SetBreakpoint H a x)) = Some j \<Longrightarrow> h_cached H b x = Some j"
    and hit_clear: "h_cached H b (snd (h_ClearBreakpoint H a x)) = Some j \<Longrightarrow> h_cached H b x = Some j"
    and hit_clear_all: "h_cached H b (h_ClearAllBreakpoints H x) = Some j \<Longrightarrow> h_cached H b x = Some j"
    and hit_semihost: "h_cached H b (h_SemiHost H magic x) = Some j \<Longrightarrow> h_cached H b x = Some j"

definition cache_made :: "'x host \<Rightarrow> 'x \<Rightarrow> bool" where
  "cache_made H x \<longleftrightarrow> (\<forall>a inst. h_cached H a x = Some inst \<longrightarrow> inst_ok inst \<and> inst_address inst = a)"

definition machine_ok :: "'x host \<Rightarrow> 'x top \<Rightarrow> bool" where
  "machine_ok H t \<longleftrightarrow>
     regs_good (state t) \<and> top_pc t = pc_reg (state t) \<and> on_ebreak (state t) = [ebreak_handler H] \<and>
     dec_memory (rv32_decoder t) = FlatMemory \<and> code_memory (st_memory (state t)) \<and>
     cache_made H (ext (t_env t))"

locale core = mpact_lib lib + decode_cache lib H
  for lib :: "'x top_env mpact" and H :: "'x host"
begin

lemma env_load_made:
  "cache_made H (ext e) \<Longrightarrow> cache_made H (ext (lr_env (mif_load (mem_of H) h a n c e)))"
  by (auto simp: cache_made_def mem_of_def Let_def dest: hit_load)

lemma env_store_made:
  "cache_made H (ext e) \<Longrightarrow> cache_made H (ext (mif_store (mem_of H) h a bs e))"
  using hit_store [of _ h a bs "ext e"] by (simp add: cache_made_def mem_of_def case_prod_beta) blast

lemma decode_ok:
  assumes ok: "machine_ok H t" and g: "GetDecodedInstruction lib H a t = (inst, t')"
  shows "inst_ok inst" "machine_ok H t'" "inst_address inst = a"
proof -
  have "inst_ok inst \<and> machine_ok H t' \<and> inst_address inst = a"
  proof (cases "h_cached H a (ext (t_env t))")
    case (Some i)
    then show ?thesis using ok g by (auto simp: GetDecodedInstruction_def machine_ok_def cache_made_def)
  next
    case None
    obtain i dec s where d: "DecodeInstruction lib (mem_of H) (rv32_decoder t) a (state t) = (i, dec, s)"
      by (cases "DecodeInstruction lib (mem_of H) (rv32_decoder t) a (state t)") auto
    note iok = decoded_inst_ok [OF d]
    let ?s0 = "(state t)\<lparr>env := lr_env (mif_load (mem_of H) (dec_memory (rv32_decoder t)) a 4 False (t_env t))\<rparr>"
    have "grown ?s0 s"
      using d isa_Decode_grown [of ?s0] by (auto simp: DecodeInstruction_def Let_def split: prod.splits) (metis snd_conv)
    moreover have "regs_good ?s0" using ok by (simp add: machine_ok_def regs_good_def xregs_ok_def)
    ultimately have s: "regs_good s" "st_pc s = st_pc (state t)" "on_ebreak s = on_ebreak (state t)"
      "env s = env ?s0" "st_memory s = st_memory (state t)"
      by (simp_all add: grown_def)
    have dec: "dec_memory dec = dec_memory (rv32_decoder t)"
      using d by (auto simp: DecodeInstruction_def Let_def split: prod.splits)
    have "cache_made H (ext (env s))" using ok env_load_made by (simp add: s machine_ok_def)
    then have "cache_made H (h_cache H a i (ext (env s)))"
      using iok by (auto simp: cache_made_def dest: hit_put)
    then show ?thesis
      using g None d iok ok s dec by (auto simp: GetDecodedInstruction_def machine_ok_def Let_def set_ext_def map_env_def)
  qed
  then show "inst_ok inst" "machine_ok H t'" "inst_address inst = a" by blast+
qed

lemma try_ebreak:
  assumes "on_ebreak s = [ebreak_handler H]"
  shows "\<exists>e l. EBreak (Some inst) s = s\<lparr>env := e, slog := l\<rparr> \<and> ext e = ext (env s)"
proof (cases "h_HasBreakpoint H (inst_address inst) (ext (env s))")
  case True
  then have "EBreak (Some inst) s = s\<lparr>env := RequestHalt Halt_kSoftwareBreakpoint (env s), slog := slog s\<rparr>"
    by (simp add: EBreak_def assms call_handler_def ebreak_handler_def)
  moreover have "ext (RequestHalt Halt_kSoftwareBreakpoint (env s)) = ext (env s)"
    by (simp add: RequestHalt_def)
  ultimately show ?thesis by blast
next
  case False
  then have "EBreak (Some inst) s =
      s\<lparr>env := env s, slog := slog s @ [LogEBreakNoHandler (where_of (Some inst)), LogTreatingAsNop]\<rparr>"
    by (simp add: EBreak_def assms call_handler_def ebreak_handler_def)
  then show ?thesis by blast
qed

lemma ebreak_frame:
  assumes "on_ebreak s = [ebreak_handler H]"
  shows "ext (env (EBreak (Some inst) s)) = ext (env s)" "regs_good (EBreak (Some inst) s) = regs_good s"
    "st_pc (EBreak (Some inst) s) = st_pc s" "on_ebreak (EBreak (Some inst) s) = on_ebreak s"
    "reg_db (EBreak (Some inst) s) = reg_db s" "st_memory (EBreak (Some inst) s) = st_memory s"
  using try_ebreak [OF assms, of inst] by auto

lemma exec_out_ok:
  assumes ok: "machine_ok H t" and e: "exec_out lib (mem_of H) inst (state t) s'"
  shows "machine_ok H (t\<lparr>state := s'\<rparr>)"
proof -
  have eb: "on_ebreak (state t) = [ebreak_handler H]" and c: "cache_made H (ext (t_env t))"
    using ok by (simp_all add: machine_ok_def)
  have "cache_made H (ext (env s')) \<and> regs_good s' \<and> st_pc s' = st_pc (state t) \<and>
      on_ebreak s' = on_ebreak (state t) \<and> st_memory s' = st_memory (state t)"
    using e
  proof cases
    case out_ebreak
    then show ?thesis using c ok by (simp add: ebreak_frame [OF eb] machine_ok_def)
  next
    case out_illegal
    then show ?thesis
      using c ok by (auto simp: machine_ok_def RV32IllegalInstruction_def cache_made_def dest: hit_raise)
  qed (use c ok env_load_made env_store_made in \<open>simp_all add: machine_ok_def StoreMemory_def\<close>)
  then show ?thesis using ok by (simp add: machine_ok_def)
qed

lemma machine_ok_count: "machine_ok H t \<Longrightarrow> machine_ok H (count_instruction inst t)"
  by (simp add: machine_ok_def)

lemma execute_ok:
  assumes "machine_ok H t" and "inst_ok inst"
  shows "\<exists>s. Execute lib (mem_of H) inst (state t) = Some s \<and>
    machine_ok H (count_instruction inst (t\<lparr>state := s\<rparr>))"
  using inst_ok_runs [OF assms(2)] execute_out [OF assms(2)] exec_out_ok [OF assms(1)] machine_ok_count
  by metis

lemma loop_body_total:
  assumes "machine_ok H t"
  shows "\<exists>d' p' t'. loop_body lib H (d, p, t) = Some (d', p', t') \<and> machine_ok H t'"
proof -
  obtain inst t1 where g: "GetDecodedInstruction lib H (ucast p) t = (inst, t1)" by fastforce
  from execute_ok [OF decode_ok(2) [OF assms g] decode_ok(1) [OF assms g]] obtain s where
    "Execute lib (mem_of H) inst (state t1) = Some s" "machine_ok H (count_instruction inst (t1\<lparr>state := s\<rparr>))"
    by blast
  then show ?thesis by (auto simp: loop_body_def g Let_def)
qed

lemma step_loop_total:
  "machine_ok H t \<Longrightarrow>
   \<exists>c pc' d' p' t'. step_loop lib H n count pc (d, p, t) = Some (c, pc', d', p', t') \<and> machine_ok H t'"
proof (induction n arbitrary: count pc d p t)
  case (Suc n)
  obtain d' p' t' where b: "loop_body lib H (d, p, t) = Some (d', p', t')" "machine_ok H t'"
    using loop_body_total [OF Suc.prems] by blast
  then show ?case using Suc.IH [OF b(2)] by (cases "halted (t_env t')") simp_all
qed simp

end

section \<open>Step and Run keep the invariant and return\<close>

definition core_ok :: "'x host \<Rightarrow> 'x top \<Rightarrow> bool" where
  "core_ok H t \<longleftrightarrow>
     machine_ok H t \<and> counters_ok t \<and>
     (halt_reason (t_env t) = Halt_kSoftwareBreakpoint \<longrightarrow> previous_pc t \<noteq> None) \<and>
     (run_status t = Run_kRunning \<longrightarrow>
        run_halted t = Some False \<and> (halted (t_env t) \<longrightarrow> halt_reason (t_env t) = Halt_kUserRequest))"

lemma machine_ok_updates [simp]:
  "machine_ok H (set_halt_reason r t) = machine_ok H t" "machine_ok H (set_halted b t) = machine_ok H t"
  "machine_ok H (set_pc_value v t) = machine_ok H t"
  "machine_ok H (t\<lparr>run_status := st\<rparr>) = machine_ok H t" "machine_ok H (t\<lparr>previous_pc := p\<rparr>) = machine_ok H t"
  "machine_ok H (t\<lparr>run_halted := rh\<rparr>) = machine_ok H t"
  by (simp_all add: machine_ok_def set_halt_reason_def set_halted_def set_pc_value_def map_env_def)

lemma machine_ok_set_ext:
  "machine_ok H t \<Longrightarrow> cache_made H x \<Longrightarrow> machine_ok H (set_ext x t)"
  by (simp add: machine_ok_def set_ext_def map_env_def)

lemma machine_ok_cache: "machine_ok H t \<Longrightarrow> cache_made H (ext (t_env t))"
  by (simp add: machine_ok_def)

lemma counters_ok_same:
  "counters_ok t \<Longrightarrow> counter_num_instructions t' = counter_num_instructions t \<Longrightarrow>
   counter_opcode t' = counter_opcode t \<Longrightarrow> counters_ok t'"
  by (simp add: counters_ok_def)

lemma counted_ok: "counted t n t' \<Longrightarrow> counters_ok t \<Longrightarrow> counters_ok t'"
  by (simp add: counted_def)

context core
begin

lemma bp_ops_made:
  assumes "cache_made H x"
  shows "cache_made H (snd (h_DisableBreakpoint H a x))" "cache_made H (snd (h_EnableBreakpoint H a x))"
    "cache_made H (snd (h_SetBreakpoint H a x))" "cache_made H (snd (h_ClearBreakpoint H a x))"
    "cache_made H (h_ClearAllBreakpoints H x)" "cache_made H (h_SemiHost H m x)"
  using assms
  by (auto simp: cache_made_def dest: hit_disable hit_enable hit_set hit_clear hit_clear_all hit_semihost)

lemma step_over_total:
  assumes ok: "machine_ok H t" and pc: "previous_pc t \<noteq> None"
  shows "\<exists>r t'. step_over_breakpoint lib H t = Some (r, t') \<and> machine_ok H t'"
proof -
  obtain p where p: "previous_pc t = Some p" using pc by auto
  obtain st x where d: "h_DisableBreakpoint H (ucast p) (ext (t_env t)) = (st, x)" by fastforce
  obtain inst t2 where g: "GetDecodedInstruction lib H (ucast p) (set_ext x t) = (inst, t2)" by fastforce
  have "cache_made H x" using bp_ops_made(1) [OF machine_ok_cache [OF ok], of "ucast p"] d by simp
  then have ok1: "machine_ok H (set_ext x t)" using machine_ok_set_ext [OF ok] by simp
  from execute_ok [OF decode_ok(2) [OF ok1 g] decode_ok(1) [OF ok1 g]] obtain s where
    s: "Execute lib (mem_of H) inst (state t2) = Some s" "machine_ok H (count_instruction inst (t2\<lparr>state := s\<rparr>))"
    by blast
  define t3 where "t3 = count_instruction inst (t2\<lparr>state := s\<rparr>)"
  obtain st' x' where e: "h_EnableBreakpoint H (ucast p) (ext (t_env t3)) = (st', x')" by fastforce
  have ok3: "machine_ok H t3" using s(2) by (simp add: t3_def)
  have "cache_made H x'" using bp_ops_made(2) [OF machine_ok_cache [OF ok3], of "ucast p"] e by simp
  then have "machine_ok H (set_ext x' t3)" using machine_ok_set_ext [OF ok3] by simp
  with ok3 show ?thesis unfolding step_over_breakpoint_eq [OF p d g s(1) t3_def e] by auto
qed

lemma step_rest_total:
  assumes "machine_ok H t"
  shows "\<exists>r t'. step_rest lib H num count t = Some (r, t') \<and> machine_ok H t'"
proof -
  obtain c pc' d' p' t1 where "step_loop lib H (nat (num - count)) count None
      (db_id (pc_data_buffer t), db_get32 (pc_data_buffer t), t) = Some (c, pc', d', p', t1)"
    "machine_ok H t1"
    using step_loop_total [OF assms] by blast
  then show ?thesis by (simp add: step_rest_def Let_def)
qed

lemma step_rest_core:
  assumes "machine_ok H t" and c: "counters_ok t" and n: "count \<le> num"
    and bp: "count = num \<longrightarrow> halt_reason (t_env t) = Halt_kNone"
    and r: "step_rest lib H num count t = Some (r, t')"
  shows "core_ok H t'"
proof -
  have m: "machine_ok H t'" using step_rest_total [OF assms(1), of num count] r by simp
  from step_rest_counts [OF r n] obtain k where k: "count < num \<longrightarrow> previous_pc t' \<noteq> None"
    "counted t k t'" "run_status t' = Run_kHalted" "\<not> halted (t_env t') \<longrightarrow> halt_reason (t_env t') = Halt_kNone"
    by auto
  have "halt_reason (t_env t') = Halt_kNone" if "count = num"
    using r bp that by (auto simp: step_rest_def set_pc_value_def set_halt_reason_def map_env_def Let_def)
  then show ?thesis
    using m k counted_ok [OF k(2) c] n by (cases "count = num") (auto simp: core_ok_def)
qed

theorem Step_total:
  assumes ok: "core_ok H t"
  shows "\<exists>r t'. Step lib H num t = Some (r, t') \<and> core_ok H t'"
proof (cases "num \<le> 0 \<or> run_status t \<noteq> Run_kHalted")
  case True
  then show ?thesis using ok by (auto simp: Step_def)
next
  case False
  let ?t0 = "set_halted False (t\<lparr>run_status := Run_kSingleStep\<rparr>)"
  have m0: "machine_ok H ?t0" using ok by (simp add: core_ok_def)
  have c0: "counters_ok ?t0"
    using ok by (simp add: core_ok_def counters_ok_def set_halted_def map_env_def)
  show ?thesis
  proof (cases "halt_reason (t_env t) = Halt_kSoftwareBreakpoint")
    case no_bp: False
    obtain r t' where r: "step_rest lib H num 0 ?t0 = Some (r, t')" using step_rest_total [OF m0] by blast
    have "core_ok H t'" using step_rest_core [OF m0 c0 _ _ r] False by simp
    then show ?thesis using r False no_bp by (simp add: Step_def Let_def)
  next
    case bp: True
    then have pp: "previous_pc ?t0 \<noteq> None" using ok by (simp add: core_ok_def set_halted_def map_env_def)
    obtain a t1 where a: "step_over_breakpoint lib H ?t0 = Some (a, t1)" and m1: "machine_ok H t1"
      using step_over_total [OF m0 pp] by blast
    note sc = step_over_breakpoint_counts [OF a]
    have c1: "counters_ok t1" using counted_ok [OF sc(2) c0] .
    have Step: "Step lib H num t =
        (case a of Inl st \<Rightarrow> Some (Inl st, t1) | Inr _ \<Rightarrow> step_rest lib H num 1 t1)"
      using False bp a by (simp add: Step_def Let_def split: sum.split)
    show ?thesis
    proof (cases a)
      case (Inl st)
      have "core_ok H t1"
        using m1 c1 pp sc(1) by (auto simp: core_ok_def control_same_def set_halted_def map_env_def)
      then show ?thesis using Step Inl by simp
    next
      case (Inr u)
      obtain r t' where r: "step_rest lib H num 1 t1 = Some (r, t')" using step_rest_total [OF m1] by blast
      have "core_ok H t'" using step_rest_core [OF m1 c1 _ _ r] False sc(4) Inr by simp
      then show ?thesis using Step Inr r by simp
    qed
  qed
qed

theorem Run_total:
  assumes ok: "core_ok H t"
  shows "\<exists>st t'. Run lib H t = Some (st, t') \<and> core_ok H t'"
proof (cases "run_status t = Run_kRunning")
  case True
  then show ?thesis using ok by (simp add: Run_def)
next
  case False
  let ?go = "\<lambda>t. (set_halted False (t\<lparr>run_status := Run_kRunning\<rparr>))\<lparr>run_halted := Some False\<rparr>"
  have go: "core_ok H (?go t1)"
    if "machine_ok H t1" "counters_ok t1" "halt_reason (t_env t1) = Halt_kSoftwareBreakpoint \<longrightarrow> previous_pc t1 \<noteq> None" for t1
    using that by (auto simp: core_ok_def counters_ok_def set_halted_def map_env_def machine_ok_def)
  show ?thesis
  proof (cases "halt_reason (t_env t) = Halt_kSoftwareBreakpoint")
    case no_bp: False
    then show ?thesis using False ok go [of t] by (simp add: Run_def core_ok_def)
  next
    case bp: True
    then have pp: "previous_pc t \<noteq> None" and m: "machine_ok H t" and c: "counters_ok t"
      using ok by (simp_all add: core_ok_def)
    obtain a t1 where a: "step_over_breakpoint lib H t = Some (a, t1)" and m1: "machine_ok H t1"
      using step_over_total [OF m pp] by blast
    note sc = step_over_breakpoint_counts [OF a]
    have c1: "counters_ok t1" using counted_ok [OF sc(2) c] .
    have pp1: "previous_pc t1 \<noteq> None" and rs: "run_status t1 \<noteq> Run_kRunning"
      using pp sc(1) False by (simp_all add: control_same_def)
    have "core_ok H t1" using m1 c1 pp1 rs by (simp add: core_ok_def)
    moreover have "core_ok H (?go t1)" using go m1 c1 pp1 by blast
    ultimately show ?thesis using False bp a by (cases a) (simp_all add: Run_def)
  qed
qed

end

end
