(* ===== verification/Fetch.thy ===== *)
theory Fetch
  imports Program_Refinement Control
begin

text \<open>
  Fetching and decoding one instruction through \<open>DecodeInstruction\<close>: the word comes from the
  decoder's memory, its opcode decides the instruction object, and decoding keeps what the
  register table holds.
\<close>

section \<open>The word and its opcode\<close>

lemma decoded_parts_of:
  assumes "DecodeInstruction lib mem dec a s = (inst, dec', s')"
  shows "inst_address inst = a" "inst_opcode inst = enc_opcode (riscv_encoding dec')"
    "inst_semfunc inst = p_semfunc (op_main (riscv32_op (lib_default_size lib) (inst_opcode inst)))"
    "inst_size inst = op_size (riscv32_op (lib_default_size lib) (inst_opcode inst))"
    "enc_opcode (riscv_encoding dec') =
       DecodeRiscVInst32 (le_word (lr_data (mif_load mem (dec_memory dec) a 4 False (env s))))"
proof -
  let ?enc = "ParseInstruction (le_word (lr_data (mif_load mem (dec_memory dec) a 4 False (env s))))
    (riscv_encoding dec)"
  have d: "isa_Decode (lib_default_size lib) a (encoding_interface lib ?enc)
      (s\<lparr>env := lr_env (mif_load mem (dec_memory dec) a 4 False (env s))\<rparr>) = (inst, s')"
    and e: "riscv_encoding dec' = ?enc"
    using assms by (auto simp: DecodeInstruction_def Let_def split: prod.splits)
  note o = encoding_getters.isa_Decode_operands [OF d]
  have op: "eif_opcode (encoding_interface lib ?enc) = enc_opcode ?enc"
    by (simp add: encoding_interface_def GetOpcode_def)
  show "inst_address inst = a" "inst_opcode inst = enc_opcode (riscv_encoding dec')"
    "inst_semfunc inst = p_semfunc (op_main (riscv32_op (lib_default_size lib) (inst_opcode inst)))"
    "inst_size inst = op_size (riscv32_op (lib_default_size lib) (inst_opcode inst))"
    using o op e by (simp_all add: operands_of_def)
  show "enc_opcode (riscv_encoding dec') =
       DecodeRiscVInst32 (le_word (lr_data (mif_load mem (dec_memory dec) a 4 False (env s))))"
    by (simp add: e ParseInstruction_def)
qed

context mpact_memory
begin

lemma decoded_opcode:
  assumes "dec_memory dec = h" and "DecodeInstruction lib mem dec a s = (inst, dec', s')"
  shows "inst_opcode inst = DecodeRiscVInst32 (le_word (map (\<lambda>i. bytes (env s) (a + of_nat i)) [0..<4]))"
  using decoded_parts_of(2,5) [OF assms(2)] assms(1) by (simp add: load_data)

end

lemma decoded_illegal:
  assumes "DecodeInstruction lib mem dec a s = (inst, dec', s')" and "inst_opcode inst = kNone"
  shows "Execute lib mem inst u = Some (RV32IllegalInstruction lib inst u)" "inst_address inst = a"
  using decoded_parts_of(1,3) [OF assms(1)] assms(2) by (simp_all add: Execute_def)

lemma decoded_csr_nop:
  assumes "DecodeInstruction lib mem dec a s = (inst, dec', s')" and "csr_op (inst_opcode inst)"
  shows "Execute lib mem inst u = Some u" "inst_size inst = 4"
  using decoded_parts_of(3,4) [OF assms(1)] assms(2)
  by (auto simp: csr_op_def Execute_def isa_defs RV32ZiCsrs_def RV32ZiCsrwNr_def RV32ZiCsrsNw_def)

section \<open>Decoding keeps the registers\<close>

context mpact_registers
begin

lemma decoded_keeps:
  assumes "regs_good s" and "DecodeInstruction lib mem dec a s = (inst, dec', s')"
  shows "regs_good s'" "registers s \<subseteq>\<^sub>m registers s'" "\<forall>r \<in> ran (registers s). reg_db s' r = reg_db s r"
proof -
  let ?s0 = "s\<lparr>env := lr_env (mif_load mem (dec_memory dec) a 4 False (env s))\<rparr>"
  have "grown ?s0 s'"
    using assms(2) isa_Decode_grown [of ?s0]
    by (auto simp: DecodeInstruction_def Let_def split: prod.splits) (metis snd_conv)
  then show "regs_good s'" "registers s \<subseteq>\<^sub>m registers s'" "\<forall>r \<in> ran (registers s). reg_db s' r = reg_db s r"
    using assms(1) by (simp_all add: grown_def)
qed

end

section \<open>The target of jalr\<close>

context mpact_operands
begin

lemma jalr_target:
  assumes ok: "xregs_ok s"
  shows "\<exists>s'. Execute lib mem (word_inst L pc (JALR rd rs1 imm) s) s = Some s' \<and>
    next_pc pc 4 s s' = xval s (unat rs1) + scast imm"
proof -
  obtain s1 s2 w where e: "Execute lib mem (word_inst L pc (JALR rd rs1 imm) s) s = Some s2"
    "dest_write s (RegisterDestination (pc_reg s) 0 kPcName) (scast imm + xval s (unat rs1)) s1"
    "rd_write s1 w (pc + 4) s2" "unat (ExtractRd w) = unat rd"
    using exec_JALR_writes [OF ok] by blast
  note p = pc_write_effect [OF e(2) ok]
  have ok1: "xregs_ok s1" using p(4) ok by (simp add: xregs_ok_frame)
  note r = rd_write_effect [OF e(3) ok1 e(4)]
  have "pc_reg s1 = pc_reg s" "pc_reg s2 = pc_reg s"
    using p(4) r(3) by (simp_all add: same_frame_def)
  then have "next_pc pc 4 s s2 = xval s (unat rs1) + scast imm"
    using p r(2) by (simp add: next_pc_def add.commute)
  with e(1) show ?thesis by blast
qed

end

section \<open>One instruction from memory\<close>

context rv32_machine
begin

lemma fetch_and_execute:
  assumes h: "st_memory s = h" "dec_memory dec = h" and ok: "xregs_ok s"
    and w: "rv_word (rv_of bytes pc s) pc = encode i" and ev: "jalr_even i (rv_of bytes pc s)"
  shows "\<exists>inst dec' s1 s2. DecodeInstruction lib mem dec (ucast pc) s = (inst, dec', s1) \<and>
    inst_address inst = ucast pc \<and> inst_opcode inst = opcode_of i \<and> inst_size inst = 4 \<and>
    Execute lib mem inst s1 = Some s2 \<and> same_frame s s2 \<and>
    rv_of bytes (next_pc pc 4 s s2) s2 = rv_exec i (rv_of bytes pc s)"
proof -
  let ?L = "lib_default_size lib" and ?r = "mif_load mem h (ucast pc) 4 False (env s)"
  let ?s1 = "s\<lparr>env := lr_env ?r\<rparr>" and ?enc = "ParseInstruction (encode i) (riscv_encoding dec)"
  have lw: "le_word (lr_data ?r) = encode i"
    using w by (simp add: load_data rv_word_def rv_bytes_def del: encode.simps)
  have op: "GetOpcode ?enc = opcode_of i" "inst_word ?enc = encode i"
    using decode_encode [of i] by (simp_all add: ParseInstruction_def GetOpcode_def del: encode.simps)
  have "\<not> csr_op (GetOpcode ?enc)" using base_opcode_of [of i] by (simp add: op base_opcode_def csr_op_def)
  moreover have ok1: "xregs_ok ?s1" using ok by (simp add: xregs_ok_def)
  ultimately have dec: "DecodeInstruction lib mem dec (ucast pc) s =
      (word_inst ?L pc i ?s1, dec\<lparr>riscv_encoding := ?enc\<rparr>, ?s1)"
    using isa_Decode_found [of ?s1 ?enc ?L "ucast pc" lib]
    by (simp add: DecodeInstruction_def Let_def h lw word_inst_def op del: encode.simps)
  have rv1: "rv_of bytes pc ?s1 = rv_of bytes pc s" by (simp add: rv_of_def load_bytes)
  obtain s2 where s2: "Execute lib mem (word_inst ?L pc i ?s1) ?s1 = Some s2"
    "exec_effect mem bytes pc i ?s1 s2"
    using instruction_refines [OF _ ok1, of i pc ?L] h ev rv1 by (auto simp: runs_as_def)
  have "next_pc pc 4 ?s1 s2 = next_pc pc 4 s s2" by (simp add: next_pc_def)
  moreover have "same_frame s s2" using s2(2) by (simp add: exec_effect_def same_frame_def)
  moreover have "inst_opcode (word_inst ?L pc i ?s1) = opcode_of i"
    "inst_address (word_inst ?L pc i ?s1) = ucast pc"
    by (simp_all add: word_inst_def)
  ultimately show ?thesis using dec s2 rv1 by (auto simp: exec_effect_def)
qed

end

end
