(* ===== verification/Debug_Interface.thy ===== *)
theory Debug_Interface
  imports Top
begin

text \<open>
  The debug interface of \<^verbatim>\<open>RV32ITop\<close> (\<^verbatim>\<open>other/rv32i_top.cc\<close>): registers, memory, software
  breakpoints, disassembly and semihosting. Every operation but \<^verbatim>\<open>GetInstruction\<close> refuses to
  work while the core is not halted.
\<close>

section \<open>Registers\<close>

definition quoted_not_found :: "string \<Rightarrow> string" where
  "quoted_not_found name = ''Register '' @ [CHR 0x27] @ name @ [CHR 0x27] @ '' not found''"

text \<open>\<open>None\<close> is reading the indeterminate \<open>previous_pc\<close>.\<close>

definition ReadRegister :: "string \<Rightarrow> 'x top \<Rightarrow> (status + u64) option" where
  "ReadRegister name t =
     (if run_status t \<noteq> Run_kHalted
        then Some (Inl (FailedPreconditionError ''ReadRegister: Core must be halted''))
      else case registers (state t) name of
        None \<Rightarrow> Some (Inl (NotFoundError (quoted_not_found name)))
      | Some r \<Rightarrow>
          if name = ''pc'' \<and> halt_reason (t_env t) = Halt_kSoftwareBreakpoint
            then map_option (\<lambda>v. Inr (ucast v)) (previous_pc t)
          else
            (let db = db_bytes (reg_db (state t) r)
             in Some
                  (if length db = 1 then Inr (ucast (le_word db :: u8))
                   else if length db = 2 then Inr (ucast (le_word db :: u16))
                   else if length db = 4 then Inr (ucast (le_word db :: u32))
                   else if length db = 8 then Inr (le_word db)
                   else Inl (InternalError ''Register size is not 1, 2, 4, or 8 bytes''))))"

definition set_register_bytes :: "reg_id \<Rightarrow> u8 list \<Rightarrow> 'x top \<Rightarrow> 'x top" where
  "set_register_bytes r bs t =
     t\<lparr>state := (state t)\<lparr>reg_db := (reg_db (state t))
         (r := (reg_db (state t) r)\<lparr>db_bytes := bs\<rparr>)\<rparr>\<rparr>"

definition WriteRegister :: "string \<Rightarrow> u64 \<Rightarrow> 'x top \<Rightarrow> status \<times> 'x top" where
  "WriteRegister name value t =
     (if run_status t \<noteq> Run_kHalted
        then (FailedPreconditionError ''WriteRegister: Core must be halted'', t)
      else case registers (state t) name of
        None \<Rightarrow> (NotFoundError (quoted_not_found name), t)
      | Some r \<Rightarrow>
          (let t = (if name = ''pc'' \<and> halt_reason (t_env t) = Halt_kSoftwareBreakpoint
                    then set_halt_reason Halt_kNone t else t);
               n = length (db_bytes (reg_db (state t) r))
           in if n \<in> {1, 2, 4, 8} then (OkStatus, set_register_bytes r (le_bytes n value) t)
              else (InternalError ''Register size is not 1, 2, 4, or 8 bytes'', t)))"

definition GetRegisterDataBuffer :: "string \<Rightarrow> 'x top \<Rightarrow> status + data_buffer" where
  "GetRegisterDataBuffer name t =
     (if run_status t \<noteq> Run_kHalted
        then Inl (FailedPreconditionError ''GetRegisterDataBuffer: Core must be halted'')
      else case registers (state t) name of
        None \<Rightarrow> Inl (NotFoundError (quoted_not_found name))
      | Some r \<Rightarrow> Inr (reg_db (state t) r))"

section \<open>Memory\<close>

text \<open>Both go through the memory the RISC-V state points to.\<close>

definition ReadMemory ::
  "'x host \<Rightarrow> u64 \<Rightarrow> nat \<Rightarrow> 'x top \<Rightarrow> (status + u8 list) \<times> 'x top" where
  "ReadMemory H address len t =
     (if run_status t \<noteq> Run_kHalted
        then (Inl (FailedPreconditionError ''ReadMemory: Core must be halted''), t)
      else
        (let r = mif_load (mem_of H) (st_memory (state t)) address len False (t_env t)
         in (Inr (lr_data r), map_env (\<lambda>_. lr_env r) t)))"

definition WriteMemory ::
  "'x host \<Rightarrow> u64 \<Rightarrow> u8 list \<Rightarrow> 'x top \<Rightarrow> (status + nat) \<times> 'x top" where
  "WriteMemory H address buffer t =
     (if run_status t \<noteq> Run_kHalted
        then (Inl (FailedPreconditionError ''WriteMemory: Core must be halted''), t)
      else
        (Inr (length buffer),
         map_env (mif_store (mem_of H) (st_memory (state t)) address buffer) t))"

section \<open>Software breakpoints\<close>

definition HasBreakpoint :: "'x host \<Rightarrow> u64 \<Rightarrow> 'x top \<Rightarrow> bool" where
  "HasBreakpoint H address t = h_HasBreakpoint H address (ext (t_env t))"

text \<open>The breakpoint manager is created in the constructor and never reset, so the check for a
  null manager always passes.\<close>

definition SetSwBreakpoint :: "'x host \<Rightarrow> u64 \<Rightarrow> 'x top \<Rightarrow> status \<times> 'x top" where
  "SetSwBreakpoint H address t =
     (if run_status t \<noteq> Run_kHalted
        then (FailedPreconditionError ''SetSwBreakpoint: Core must be halted'', t)
      else (let (st, x) = h_SetBreakpoint H address (ext (t_env t)) in (st, set_ext x t)))"

definition ClearSwBreakpoint :: "'x host \<Rightarrow> u64 \<Rightarrow> 'x top \<Rightarrow> status \<times> 'x top" where
  "ClearSwBreakpoint H address t =
     (if run_status t \<noteq> Run_kHalted
        then (FailedPreconditionError ''ClearSwBreakpoing: Core must be halted'', t)
      else (let (st, x) = h_ClearBreakpoint H address (ext (t_env t)) in (st, set_ext x t)))"

definition ClearAllSwBreakpoints :: "'x host \<Rightarrow> 'x top \<Rightarrow> status \<times> 'x top" where
  "ClearAllSwBreakpoints H t =
     (if run_status t \<noteq> Run_kHalted
        then (FailedPreconditionError ''ClearAllSwBreakpoints: Core must be halted'', t)
      else (OkStatus, set_ext (h_ClearAllBreakpoints H (ext (t_env t))) t))"

section \<open>Instructions and semihosting\<close>

definition GetInstruction ::
  "'x top_env mpact \<Rightarrow> 'x host \<Rightarrow> u64 \<Rightarrow> 'x top \<Rightarrow> instruction \<times> 'x top" where
  "GetInstruction lib H address t = GetDecodedInstruction lib H address t"

text \<open>The decoder never returns a null instruction, so the text is always that of one.\<close>

definition GetDisassembly ::
  "'x top_env mpact \<Rightarrow> 'x host \<Rightarrow> u64 \<Rightarrow> 'x top \<Rightarrow> (status + string) \<times> 'x top" where
  "GetDisassembly lib H address t =
     (if run_status t \<noteq> Run_kHalted
        then (Inl (FailedPreconditionError ''GetDissasembly: Core must be halted''), t)
      else if h_IsBreakpoint H address (ext (t_env t)) then
        (let (st, x) = h_DisableBreakpoint H address (ext (t_env t));
             t = set_ext x t
         in if \<not> status_ok st then (Inl st, t)
            else
              (let (inst, t) = GetDecodedInstruction lib H address t;
                   (st, x) = h_EnableBreakpoint H address (ext (t_env t));
                   t = set_ext x t
               in if \<not> status_ok st then (Inl st, t) else (Inr (h_AsString H inst), t)))
      else (let (inst, t) = GetDecodedInstruction lib H address t in (Inr (h_AsString H inst), t)))"

definition SetUpSemiHosting :: "'x host \<Rightarrow> semihost_addresses \<Rightarrow> 'x top \<Rightarrow> status \<times> 'x top" where
  "SetUpSemiHosting H magic t =
     (if run_status t \<noteq> Run_kHalted
        then (FailedPreconditionError ''SetupSemihosting: Core must be halted'', t)
      else (let t = set_ext (h_SemiHost H magic (ext (t_env t))) t
            in (OkStatus, t\<lparr>state := set_memory WatcherMemory (state t), semihosting := True\<rparr>)))"

end
