(* ===== verification/Reachable.thy ===== *)
theory Reachable
  imports Control Debug_Interface
begin

text \<open>
  The simulator as a state machine: construction, then calls of its public interface in any
  order, the thread of \<open>Run\<close> ending at any time after it was started. \<open>core_ok\<close> holds in every
  state reached this way.
\<close>

section \<open>The calls\<close>

inductive call :: "'x top_env mpact \<Rightarrow> 'x host \<Rightarrow> 'x top \<Rightarrow> 'x top \<Rightarrow> bool" for lib H where
  call_Step: "Step lib H num t = Some (r, t') \<Longrightarrow> call lib H t t'"
| call_Run: "Run lib H t = Some (st, t') \<Longrightarrow> call lib H t t'"
| thread_end: "run_status t = Run_kRunning \<Longrightarrow> run_thread lib H fuel t = Some t' \<Longrightarrow> call lib H t t'"
| call_Halt: "Halt t = (st, t') \<Longrightarrow> call lib H t t'"
| call_Wait: "Wait t = Some (st, t') \<Longrightarrow> call lib H t t'"
| call_WriteRegister: "WriteRegister name v t = (st, t') \<Longrightarrow> call lib H t t'"
| call_ReadMemory: "ReadMemory H a n t = (r, t') \<Longrightarrow> call lib H t t'"
| call_WriteMemory: "WriteMemory H a bs t = (r', t') \<Longrightarrow> call lib H t t'"
| call_SetSwBreakpoint: "SetSwBreakpoint H a t = (st, t') \<Longrightarrow> call lib H t t'"
| call_ClearSwBreakpoint: "ClearSwBreakpoint H a t = (st, t') \<Longrightarrow> call lib H t t'"
| call_ClearAllSwBreakpoints: "ClearAllSwBreakpoints H t = (st, t') \<Longrightarrow> call lib H t t'"
| call_GetInstruction:
    "run_status t = Run_kHalted \<Longrightarrow> GetInstruction lib H a t = (inst, t') \<Longrightarrow> call lib H t t'"
| call_GetDisassembly: "GetDisassembly lib H a t = (d, t') \<Longrightarrow> call lib H t t'"
| call_SetUpSemiHosting: "SetUpSemiHosting H magic t = (st, t') \<Longrightarrow> call lib H t t'"

inductive reachable :: "'x top_env mpact \<Rightarrow> 'x host \<Rightarrow> 'x top \<Rightarrow> bool" for lib H where
  constructed_top: "(\<And>a. h_cached H a x = None) \<Longrightarrow> reachable lib H (RV32ITop_ctor lib H x)"
| called: "reachable lib H t \<Longrightarrow> call lib H t t' \<Longrightarrow> reachable lib H t'"

section \<open>Calls that do not execute instructions\<close>

text \<open>\<open>quiet\<close> calls touch the world and register contents only.\<close>

definition quiet :: "'x host \<Rightarrow> 'x top \<Rightarrow> 'x top \<Rightarrow> bool" where
  "quiet H t t' \<longleftrightarrow>
     (machine_ok H t \<longrightarrow> machine_ok H t') \<and> counter_num_instructions t' = counter_num_instructions t \<and>
     counter_opcode t' = counter_opcode t \<and> previous_pc t' = previous_pc t \<and>
     run_status t' = run_status t \<and> run_halted t' = run_halted t \<and>
     (run_status t \<noteq> Run_kRunning \<and>
        (halt_reason (t_env t') = Halt_kSoftwareBreakpoint \<longrightarrow> halt_reason (t_env t) = Halt_kSoftwareBreakpoint) \<or>
      t_env t' = t_env t)"

lemma quiet_ok: "core_ok H t \<Longrightarrow> quiet H t t' \<Longrightarrow> core_ok H t'"
  by (auto simp: core_ok_def quiet_def counters_ok_def)

lemma quiet_refl [simp]: "quiet H t t"
  by (simp add: quiet_def)

lemma callbacks_reason:
  "halt_reason (run_callbacks cbs e) = Halt_kSoftwareBreakpoint \<Longrightarrow> halt_reason e = Halt_kSoftwareBreakpoint"
proof -
  have "halt_reason (fold run_callback cbs e) = Halt_kSoftwareBreakpoint \<Longrightarrow> halt_reason e = Halt_kSoftwareBreakpoint" for e :: "'x top_env"
  proof (induction cbs arbitrary: e)
    case (Cons cb cbs)
    from Cons.IH [of "run_callback cb e"] Cons.prems show ?case
      by (cases cb) (simp_all add: RequestHalt_def)
  qed simp
  then show "halt_reason (run_callbacks cbs e) = Halt_kSoftwareBreakpoint \<Longrightarrow> halt_reason e = Halt_kSoftwareBreakpoint"
    by (simp add: run_callbacks_def)
qed

lemma mem_reason:
  "halt_reason (lr_env (mif_load (mem_of H) h a n c e)) = Halt_kSoftwareBreakpoint \<Longrightarrow> halt_reason e = Halt_kSoftwareBreakpoint"
  "halt_reason (mif_store (mem_of H) h a bs e) = Halt_kSoftwareBreakpoint \<Longrightarrow> halt_reason e = Halt_kSoftwareBreakpoint"
  by (auto simp: mem_of_def Let_def case_prod_beta dest: callbacks_reason)

lemma set_ext_quiet:
  "run_status t \<noteq> Run_kRunning \<Longrightarrow> (machine_ok H t \<Longrightarrow> cache_made H x) \<Longrightarrow> quiet H t (set_ext x t)"
  using machine_ok_set_ext by (auto simp: quiet_def set_ext_def map_env_def)

context core
begin

lemma ReadMemory_quiet: "ReadMemory H a n t = (r, t') \<Longrightarrow> quiet H t t'"
  using mem_reason(1) [of H "st_memory (state t)" a n False "t_env t"] env_load_made
  by (auto simp: ReadMemory_def Let_def map_env_def quiet_def machine_ok_def split: if_splits)

lemma WriteMemory_quiet: "WriteMemory H a bs t = (r, t') \<Longrightarrow> quiet H t t'"
  using mem_reason(2) [of H "st_memory (state t)" a bs "t_env t"] env_store_made
  by (auto simp: WriteMemory_def map_env_def quiet_def machine_ok_def split: if_splits)

lemma WriteRegister_quiet: "WriteRegister name v t = (st, t') \<Longrightarrow> quiet H t t'"
  by (auto simp: WriteRegister_def quiet_def set_register_bytes_def set_halt_reason_def map_env_def
      machine_ok_def Let_def split: if_splits option.splits)

lemma breakpoint_calls_quiet:
  "SetSwBreakpoint H a t = (st, t') \<Longrightarrow> quiet H t t'"
  "ClearSwBreakpoint H a t = (st, t') \<Longrightarrow> quiet H t t'"
  "ClearAllSwBreakpoints H t = (st, t') \<Longrightarrow> quiet H t t'"
  using bp_ops_made [OF machine_ok_cache]
  by (auto simp: SetSwBreakpoint_def ClearSwBreakpoint_def ClearAllSwBreakpoints_def case_prod_beta
      split: if_splits intro!: set_ext_quiet)

lemma GetDecodedInstruction_reason:
  "GetDecodedInstruction lib H a t = (inst, t') \<Longrightarrow>
   halt_reason (t_env t') = Halt_kSoftwareBreakpoint \<Longrightarrow> machine_ok H t \<Longrightarrow>
   halt_reason (t_env t) = Halt_kSoftwareBreakpoint"
proof -
  assume g: "GetDecodedInstruction lib H a t = (inst, t')"
    "halt_reason (t_env t') = Halt_kSoftwareBreakpoint" "machine_ok H t"
  show ?thesis
  proof (cases "h_cached H a (ext (t_env t))")
    case (Some i)
    then show ?thesis using g by (simp add: GetDecodedInstruction_def)
  next
    case None
    let ?e = "lr_env (mif_load (mem_of H) (dec_memory (rv32_decoder t)) a 4 False (t_env t))"
    let ?s0 = "(state t)\<lparr>env := ?e\<rparr>"
    obtain i dec s where d: "DecodeInstruction lib (mem_of H) (rv32_decoder t) a (state t) = (i, dec, s)"
      by (cases "DecodeInstruction lib (mem_of H) (rv32_decoder t) a (state t)") auto
    have "grown ?s0 s"
      using d isa_Decode_grown [of ?s0]
      by (auto simp: DecodeInstruction_def Let_def split: prod.splits) (metis snd_conv)
    then have "env s = ?e" using g(3) by (simp add: grown_def machine_ok_def)
    then have "halt_reason ?e = Halt_kSoftwareBreakpoint"
      using g None d by (auto simp: GetDecodedInstruction_def Let_def set_ext_def map_env_def)
    then show ?thesis by (rule mem_reason(1))
  qed
qed

lemma GetInstruction_quiet:
  assumes "machine_ok H t" and "run_status t \<noteq> Run_kRunning" and g: "GetDecodedInstruction lib H a t = (inst, t')"
  shows "quiet H t t'"
  using assms GetDecodedInstruction_frame [OF g] decode_ok(2) [OF assms(1) g]
    GetDecodedInstruction_reason [OF g]
  by (auto simp: quiet_def control_same_def)

lemma quiet_trans:
  "quiet H t u \<Longrightarrow> quiet H u v \<Longrightarrow> run_status t \<noteq> Run_kRunning \<Longrightarrow> quiet H t v"
  by (auto simp: quiet_def)

lemma GetDisassembly_quiet:
  assumes m: "machine_ok H t" and g: "GetDisassembly lib H a t = (d, t')"
  shows "quiet H t t'"
proof (cases "run_status t = Run_kHalted")
  case False
  then show ?thesis using g by (auto simp: GetDisassembly_def)
next
  case True
  then have nr: "run_status t \<noteq> Run_kRunning" by simp
  obtain st x where d: "h_DisableBreakpoint H a (ext (t_env t)) = (st, x)" by fastforce
  let ?t1 = "set_ext x t"
  obtain inst t2 where g2: "GetDecodedInstruction lib H a ?t1 = (inst, t2)" by fastforce
  obtain st' x' where e: "h_EnableBreakpoint H a (ext (t_env t2)) = (st', x')" by fastforce
  obtain inst3 t3 where g3: "GetDecodedInstruction lib H a t = (inst3, t3)" by fastforce
  have "cache_made H x" using bp_ops_made(1) [OF machine_ok_cache [OF m], of a] d by simp
  then have q1: "quiet H t ?t1" "machine_ok H ?t1"
    by (rule set_ext_quiet [OF nr], rule machine_ok_set_ext [OF m])
  have nr1: "run_status ?t1 \<noteq> Run_kRunning" using q1(1) nr by (simp add: quiet_def)
  have q2: "quiet H ?t1 t2" by (rule GetInstruction_quiet [OF q1(2) nr1 g2])
  have m2: "machine_ok H t2" by (rule decode_ok(2) [OF q1(2) g2])
  have "cache_made H x'" using bp_ops_made(2) [OF machine_ok_cache [OF m2], of a] e by simp
  moreover have nr2: "run_status t2 \<noteq> Run_kRunning" using q2 nr1 by (simp add: quiet_def)
  ultimately have q3: "quiet H t2 (set_ext x' t2)" by (simp add: set_ext_quiet)
  have "quiet H t (set_ext x' t2)" using quiet_trans [OF quiet_trans [OF q1(1) q2 nr] q3 nr] .
  then show ?thesis
    using g True d g2 e g3 q1(1) GetInstruction_quiet [OF m nr g3]
    by (auto simp: GetDisassembly_def Let_def split: if_splits)
qed

lemma SetUpSemiHosting_quiet: "SetUpSemiHosting H magic t = (st, t') \<Longrightarrow> quiet H t t'"
  using bp_ops_made(6) [OF machine_ok_cache]
  by (auto simp: SetUpSemiHosting_def quiet_def machine_ok_def code_memory_def set_memory_def set_ext_def map_env_def
      regs_good_def xregs_ok_def split: if_splits)

section \<open>Run, Halt and Wait\<close>

lemma run_loop_counts:
  assumes "run_loop lib H fuel pc (d, p, t) = Some (pc', d', p', t')" and "machine_ok H t"
  shows "control_same t t' \<and> machine_ok H t' \<and> (\<exists>k. counted t k t') \<and> halted (t_env t') \<and>
    (pc' = None \<longrightarrow> pc = None \<and> t' = t)"
  using assms
proof (induction fuel arbitrary: pc d p t)
  case (Suc fuel)
  show ?case
  proof (cases "halted (t_env t)")
    case True
    have "counted t 0 t" by (simp add: counted_0)
    with True Suc.prems show ?thesis by auto
  next
    case False
    obtain d1 p1 t1 where b: "loop_body lib H (d, p, t) = Some (d1, p1, t1)" "machine_ok H t1"
      using loop_body_total [OF Suc.prems(2)] by blast
    then have "run_loop lib H fuel (Some p) (d1, p1, t1) = Some (pc', d', p', t')"
      using Suc.prems(1) False by simp
    from Suc.IH [OF this b(2)] obtain k where k: "control_same t1 t'" "machine_ok H t'" "counted t1 k t'"
      "halted (t_env t')" "pc' \<noteq> None" by auto
    then show ?thesis
      using loop_body_counts [OF b(1)] counted_trans control_same_trans by blast
  qed
qed simp

lemma thread_end_ok:
  assumes ok: "core_ok H t" and run: "run_status t = Run_kRunning" and r: "run_thread lib H fuel t = Some t'"
  shows "core_ok H t'" "run_status t' = Run_kHalted"
proof -
  have m: "machine_ok H t" and c: "counters_ok t" using ok by (simp_all add: core_ok_def)
  obtain pc' d' p' t1 where l: "run_loop lib H fuel None (db_id (pc_data_buffer t), db_get32 (pc_data_buffer t), t) =
      Some (pc', d', p', t1)"
    "t' = (set_pc_value p' (t1\<lparr>previous_pc := pc'\<rparr>))\<lparr>run_status := Run_kHalted, run_halted := Some True\<rparr>"
    using r by (auto simp: run_thread_Some)
  from run_loop_counts [OF l(1) m] obtain k where k: "machine_ok H t1" "counted t k t1" "halted (t_env t1)"
    "pc' = None \<longrightarrow> t1 = t" by auto
  have m': "machine_ok H t'" using k(1) l(2) by simp
  have c': "counters_ok t'" using counted_ok [OF k(2) c] by (simp add: l(2) counters_ok_def set_pc_value_def)
  have "halt_reason (t_env t') = Halt_kSoftwareBreakpoint \<longrightarrow> previous_pc t' \<noteq> None"
    using k(3,4) ok run by (cases pc') (auto simp: l(2) core_ok_def set_pc_value_def)
  with m' c' show "core_ok H t'" "run_status t' = Run_kHalted" by (simp_all add: core_ok_def l(2))
qed

lemma Halt_ok: "core_ok H t \<Longrightarrow> Halt t = (st, t') \<Longrightarrow> core_ok H t'"
  by (auto simp: Halt_def core_ok_def counters_ok_def machine_ok_def set_halted_def set_halt_reason_def map_env_def
      split: if_splits)

lemma Wait_ok: "core_ok H t \<Longrightarrow> Wait t = Some (st, t') \<Longrightarrow> core_ok H t'"
  by (auto simp: Wait_def core_ok_def counters_ok_def machine_ok_def split: if_splits)

section \<open>The invariant\<close>

lemma call_ok: "call lib H t t' \<Longrightarrow> core_ok H t \<Longrightarrow> core_ok H t'"
proof (induction rule: call.induct)
  case (call_Step num t r t')
  then show ?case using Step_total [of t num] by auto
next
  case (call_Run t st t')
  then show ?case using Run_total [of t] by auto
next
  case (thread_end t fuel t')
  then show ?case using thread_end_ok by blast
next
  case (call_Halt t st t')
  then show ?case using Halt_ok by blast
next
  case (call_Wait t st t')
  then show ?case using Wait_ok by blast
next
  case (call_GetInstruction t a inst t')
  then show ?case
    using GetInstruction_quiet [of t a inst t'] quiet_ok [of H t t'] by (simp add: GetInstruction_def core_ok_def)
next
  case (call_GetDisassembly a t d t')
  then show ?case using GetDisassembly_quiet [of t a d t'] quiet_ok [of H t t'] by (simp add: core_ok_def)
qed (rule quiet_ok, assumption,
     erule WriteRegister_quiet ReadMemory_quiet WriteMemory_quiet breakpoint_calls_quiet
       SetUpSemiHosting_quiet)+

lemma constructed_ok:
  assumes "\<And>a. h_cached H a x = None"
  shows "core_ok H (RV32ITop_ctor lib H x)"
proof -
  note c = constructed [OF mpact_registers_axioms refl, of H x]
  have "finite (dom (registers (state (RV32ITop_ctor lib H x))))"
    using c(1) by (simp add: regs_upto_def)
  then have "regs_good (state (RV32ITop_ctor lib H x))"
    using regs_upto_xregs_ok [OF c(1)] by (simp add: regs_good_def)
  moreover have "counters_ok (RV32ITop_ctor lib H x)"
    by (simp add: counters_ok_def RV32ITop_ctor_def Let_def case_prod_beta)
  ultimately show ?thesis
    using c assms by (simp add: core_ok_def machine_ok_def cache_made_def code_memory_def)
qed

lemma reachable_ok: "reachable lib H t \<Longrightarrow> core_ok H t"
  by (induction rule: reachable.induct) (auto intro: constructed_ok call_ok)

end

end
