(* ===== verification/Breakpoints.thy ===== *)
theory Breakpoints
  imports Program_Refinement Reachable
begin

text \<open>
  Software breakpoints end to end: the breakpoint manager writes \<^verbatim>\<open>ebreak\<close> over an
  instruction, executing it halts the simulator before the instruction, and stepping on
  executes the instruction that was there.
\<close>

section \<open>What the breakpoint manager promises\<close>

text \<open>\<open>orig\<close> is the program's own memory, without the \<^verbatim>\<open>ebreak\<close> words the manager wrote.\<close>

definition ebreak_word :: u32 where
  "ebreak_word = 0x00100073"

definition word_at :: "(u64 \<Rightarrow> u8) \<Rightarrow> u64 \<Rightarrow> u32" where
  "word_at m a = le_word (map (\<lambda>i. m (a + of_nat i)) [0..<4])"

locale breakpoint_manager =
  fixes H :: "'x host" and xbytes :: "'x \<Rightarrow> u64 \<Rightarrow> u8" and orig :: "'x \<Rightarrow> u64 \<Rightarrow> u8"
  assumes set_bp: "h_SetBreakpoint H a x = (OkStatus, x') \<Longrightarrow>
      h_HasBreakpoint H a x' \<and> word_at (xbytes x') a = ebreak_word \<and> h_cached H a x' = None \<and>
      orig x' = orig x"
    and disable_bp: "h_HasBreakpoint H a x \<Longrightarrow>
      \<exists>x'. h_DisableBreakpoint H a x = (OkStatus, x') \<and> word_at (xbytes x') a = word_at (orig x) a \<and>
        h_cached H a x' = None \<and> h_HasBreakpoint H a x' \<and> orig x' = orig x"
    and enable_bp: "h_HasBreakpoint H a x \<Longrightarrow>
      \<exists>x'. h_EnableBreakpoint H a x = (OkStatus, x') \<and> word_at (xbytes x') a = ebreak_word \<and>
        h_cached H a x' = None \<and> h_HasBreakpoint H a x' \<and> orig x' = orig x"
    and has_bp_cache: "h_HasBreakpoint H b (h_cache H a inst x) = h_HasBreakpoint H b x"
    and has_bp_load: "h_HasBreakpoint H b (hr_ext (h_load H h a n c x)) = h_HasBreakpoint H b x"
    and has_bp_store: "h_HasBreakpoint H b (snd (h_store H h a bs x)) = h_HasBreakpoint H b x"
    and orig_cache: "orig (h_cache H a inst x) = orig x"
    and orig_load: "orig (hr_ext (h_load H h a n c x)) = orig x"

section \<open>The ebreak instruction\<close>

lemma decode_ebreak: "DecodeRiscVInst32 ebreak_word = kEbreak"
  by (simp add: decode_pattern ebreak_word_def bits_at_def)

definition ebreak_inst :: "nat \<Rightarrow> u32 \<Rightarrow> 'e riscv_state \<Rightarrow> instruction" where
  "ebreak_inst L pc s = decoded L (ucast pc) ebreak_word kEbreak s"

lemma ebreak_inst_parts [simp]:
  "inst_address (ebreak_inst L pc s) = ucast pc" "inst_size (ebreak_inst L pc s) = 4"
  "inst_opcode (ebreak_inst L pc s) = kEbreak" "inst_semfunc (ebreak_inst L pc s) = fn_RV32IEbreak"
  by (simp_all add: ebreak_inst_def isa_defs)

lemma execute_ebreak:
  "Execute lib mem (ebreak_inst L pc s) u = Some (EBreak (Some (ebreak_inst L pc s)) u)"
  by (simp add: Execute_def RV32IEbreak_def)

lemma word_at_rv_word: "word_at (xbytes (ext (env s))) (ucast a) = rv_word (rv_of (\<lambda>e. xbytes (ext e)) p s) a"
  by (simp add: word_at_def rv_word_def rv_bytes_def)

section \<open>Stopping at a breakpoint\<close>

definition at_breakpoint :: "'x host \<Rightarrow> ('x \<Rightarrow> u64 \<Rightarrow> u8) \<Rightarrow> u32 \<Rightarrow> 'x top \<Rightarrow> bool" where
  "at_breakpoint H xbytes a t \<longleftrightarrow>
     h_HasBreakpoint H (ucast a) (ext (t_env t)) \<and> word_at (xbytes (ext (t_env t))) (ucast a) = ebreak_word \<and>
     h_cached H (ucast a) (ext (t_env t)) = None"

locale debugger = simulator lib H xbytes + breakpoint_manager H xbytes orig
  for lib :: "'x top_env mpact" and H :: "'x host" and xbytes and orig
begin

lemma loop_body_breakpoint:
  assumes ok: "machine_ok H t" and dm: "code_memory (dec_memory (rv32_decoder t))"
    and bp: "at_breakpoint H xbytes a t" and d: "d = db_id (pc_data_buffer t)"
  shows "\<exists>t'. loop_body lib H (d, a, t) = Some (d, a + 4, t') \<and> halted (t_env t') \<and>
    halt_reason (t_env t') = Halt_kSoftwareBreakpoint \<and> same_frame (state t) (state t') \<and>
    reg_db (state t') = reg_db (state t) \<and> xbytes (ext (t_env t')) = xbytes (ext (t_env t)) \<and>
    h_HasBreakpoint H (ucast a) (ext (t_env t')) \<and> orig (ext (t_env t')) = orig (ext (t_env t)) \<and>
    control_same t t'"
proof -
  let ?inst = "ebreak_inst (lib_default_size lib) a (state t)"
  have x: "xregs_ok (state t)" and tp: "top_pc t = pc_reg (state t)"
    and eb: "on_ebreak (state t) = [ebreak_handler H]"
    using ok by (simp_all add: machine_ok_def regs_good_def)
  have w: "rv_word (rv_of mbytes a (state t)) a = ebreak_word"
    and miss: "h_cached H (ucast a) (ext (t_env t)) = None" and has: "h_HasBreakpoint H (ucast a) (ext (t_env t))"
    using bp word_at_rv_word [of xbytes "state t" a a] by (simp_all add: at_breakpoint_def)
  have nc: "\<not> csr_op (DecodeRiscVInst32 ebreak_word)" by (simp add: decode_ebreak csr_op_def)
  obtain t1 where g: "GetDecodedInstruction lib H (ucast a) t = (?inst, t1)"
    and fr: "same_frame (state t) (state t1)" and db: "reg_db (state t1) = reg_db (state t)"
    and xb: "xbytes (ext (t_env t1)) = xbytes (ext (t_env t))" and cs: "control_same t t1"
    and hb: "h_HasBreakpoint H (ucast a) (ext (t_env t1))" "orig (ext (t_env t1)) = orig (ext (t_env t))"
    by (rule fetch_miss [OF x dm miss w nc refl])
       (simp add: ebreak_inst_def decode_ebreak has_bp_cache has_bp_load orig_cache orig_load has)
  have eb1: "on_ebreak (state t1) = [ebreak_handler H]" using fr eb by (simp add: same_frame_def)
  let ?s = "(state t1)\<lparr>env := RequestHalt Halt_kSoftwareBreakpoint (t_env t1)\<rparr>"
  let ?t' = "count_instruction ?inst (t1\<lparr>state := ?s\<rparr>)"
  have ex: "Execute lib (mem_of H) ?inst (state t1) = Some ?s"
    using hb by (simp add: execute_ebreak EBreak_def eb1 call_handler_def ebreak_handler_def)
  have pcb: "pc_data_buffer (t1\<lparr>state := ?s\<rparr>) = pc_data_buffer t"
    using db cs by (simp add: pc_data_buffer_def control_same_def)
  have "loop_body lib H (d, a, t) = Some (d, a + 4, ?t')"
    using pcb d by (simp add: loop_body_def g ex Let_def)
  moreover have "control_same t ?t'" using cs by (simp add: control_same_def count_instruction_def)
  moreover have "same_frame (state t) (state ?t')" using fr by (simp add: same_frame_def)
  ultimately show ?thesis
    using db xb hb by (intro exI [of _ ?t']) (simp add: RequestHalt_def)
qed

theorem step_halts_at_breakpoint:
  assumes ok: "core_ok H t" and run: "run_status t = Run_kHalted"
    and nr: "halt_reason (t_env t) \<noteq> Halt_kSoftwareBreakpoint"
    and dm: "code_memory (dec_memory (rv32_decoder t))"
    and bp: "at_breakpoint H xbytes a t" and pc: "db_get32 (pc_data_buffer t) = a" and n: "0 < num"
  shows "\<exists>t'. Step lib H num t = Some (Inr 1, t') \<and> run_status t' = Run_kHalted \<and>
    GetLastHaltReason t' = Halt_kSoftwareBreakpoint \<and> previous_pc t' = Some a \<and>
    ReadRegister ''pc'' t' = Some (Inr (ucast a)) \<and>
    (\<forall>r < 32. xval (state t') r = xval (state t) r) \<and>
    xbytes (ext (t_env t')) = xbytes (ext (t_env t)) \<and> h_HasBreakpoint H (ucast a) (ext (t_env t')) \<and>
    orig (ext (t_env t')) = orig (ext (t_env t)) \<and> db_get32 (pc_data_buffer t') = a + 4"
proof -
  let ?t0 = "set_halted False (t\<lparr>run_status := Run_kSingleStep\<rparr>)"
  have m0: "machine_ok H ?t0" using ok by (simp add: core_ok_def)
  have bp0: "at_breakpoint H xbytes a ?t0" using bp by (simp add: at_breakpoint_def)
  have pc0: "pc_data_buffer ?t0 = pc_data_buffer t" by (simp add: pc_data_buffer_def)
  obtain t1 where t1: "loop_body lib H (db_id (pc_data_buffer ?t0), a, ?t0) = Some (db_id (pc_data_buffer ?t0), a + 4, t1)"
    "halted (t_env t1)" "halt_reason (t_env t1) = Halt_kSoftwareBreakpoint"
    "same_frame (state ?t0) (state t1)" "reg_db (state t1) = reg_db (state ?t0)"
    "xbytes (ext (t_env t1)) = xbytes (ext (t_env ?t0))" "h_HasBreakpoint H (ucast a) (ext (t_env t1))"
    "control_same ?t0 t1" "orig (ext (t_env t1)) = orig (ext (t_env ?t0))"
    using loop_body_breakpoint [OF m0 _ bp0 refl] dm by auto
  let ?t' = "(set_pc_value (a + 4) (t1\<lparr>previous_pc := Some a\<rparr>))\<lparr>run_status := Run_kHalted\<rparr>"
  obtain k where k: "nat num = Suc k" using n by (cases "nat num") simp_all
  then have sl: "step_loop lib H (nat num) 0 None (db_id (pc_data_buffer ?t0), a, ?t0) =
      Some (1, Some a, db_id (pc_data_buffer ?t0), a + 4, t1)"
    using t1(1,2) by simp
  have S: "Step lib H num t = Some (Inr 1, ?t')"
    using n run nr sl t1(2) pc by (simp add: Step_def step_rest_def Let_def pc0)
  have x: "xregs_ok (state t)" and tp: "top_pc t1 = pc_reg (state t)"
    using ok t1(8) by (simp_all add: core_ok_def machine_ok_def regs_good_def control_same_def)
  have fr: "registers (state t1) = registers (state t)" using t1(4) by (simp add: same_frame_def)
  have "registers (state ?t') ''pc'' = Some (pc_reg (state t))"
    using xregs_okD(2) [OF x] fr by (simp add: kPcName_def)
  then have "ReadRegister ''pc'' ?t' = Some (Inr (ucast a))"
    using t1(3) by (simp add: ReadRegister_def)
  moreover have "xval (state ?t') r = xval (state t) r" if "r < 32" for r
    using xregs_okD(4) [OF x that] t1(5) fr tp by (simp add: xval_def)
  ultimately show ?thesis
    using S t1 by (intro exI [of _ ?t']) (simp add: GetLastHaltReason_def pc_data_buffer_def)
qed

end

section \<open>Going on from a breakpoint\<close>

context debugger
begin

lemma mem_effect_has_bp:
  assumes "mem_effect (mem_of H) h e e'"
  shows "h_HasBreakpoint H b (ext e') = h_HasBreakpoint H b (ext e)"
  using assms
proof cases
  case (a_load a n)
  then show ?thesis by (simp add: mem_of_def has_bp_load Let_def)
next
  case (a_store a bs)
  then show ?thesis
    using has_bp_store [of b h a bs "ext e"] by (auto simp: mem_of_def split: prod.split)
qed simp

lemma step_over_executes:
  assumes ok: "machine_ok H t" and cm: "code_memory (dec_memory (rv32_decoder t))" "code_memory (st_memory (state t))"
    and pp: "previous_pc t = Some a" and has: "h_HasBreakpoint H (ucast a) (ext (t_env t))"
    and i: "word_at (orig (ext (t_env t))) (ucast a) = encode i"
    and s1: "s1 = (state t)\<lparr>env := (t_env t)\<lparr>ext := snd (h_DisableBreakpoint H (ucast a) (ext (t_env t)))\<rparr>\<rparr>"
    and ev: "jalr_even i (rv_of mbytes a s1)"
  shows "\<exists>t' s'. step_over_breakpoint lib H t = Some (Inr (), t') \<and>
    reg_db (state t') = reg_db s' \<and> same_frame (state t) s' \<and> same_frame s' (state t') \<and>
    rv_of mbytes (next_pc a 4 (state t) s') s' = rv_exec i (rv_of mbytes a s1) \<and>
    (db_id (pc_db (state t)) = db_id (pc_db s') \<longrightarrow> pc_db s' = pc_db (state t)) \<and>
    control_same t t' \<and> halt_reason (t_env t') = Halt_kNone \<and>
    word_at (xbytes (ext (t_env t'))) (ucast a) = ebreak_word \<and> h_HasBreakpoint H (ucast a) (ext (t_env t'))"
proof -
  obtain x1 where x1: "h_DisableBreakpoint H (ucast a) (ext (t_env t)) = (OkStatus, x1)"
    "word_at (xbytes x1) (ucast a) = encode i" "h_cached H (ucast a) x1 = None" "h_HasBreakpoint H (ucast a) x1"
    using disable_bp [OF has] i by auto
  let ?t1 = "set_ext x1 t" and ?L = "lib_default_size lib"
  have st1: "state ?t1 = s1" using x1(1) s1 by (simp add: set_ext_def map_env_def)
  have x: "xregs_ok (state ?t1)" and dm: "code_memory (dec_memory (rv32_decoder ?t1))"
    using ok cm by (simp_all add: machine_ok_def regs_good_def set_ext_def map_env_def xregs_ok_def)
  have miss: "h_cached H (ucast a) (ext (t_env ?t1)) = None" using x1(3) by simp
  have w: "rv_word (rv_of mbytes a (state ?t1)) a = encode i"
    using x1(2) word_at_rv_word [of xbytes "state ?t1" a a] by simp
  have nc: "\<not> csr_op (DecodeRiscVInst32 (encode i))"
    using base_opcode_of [of i] by (simp add: decode_encode base_opcode_def csr_op_def)
  obtain t2 where g: "GetDecodedInstruction lib H (ucast a) ?t1 = (word_inst ?L a i (state ?t1), t2)"
    and fr: "same_frame (state ?t1) (state t2)" and db: "reg_db (state t2) = reg_db (state ?t1)"
    and xb: "xbytes (ext (t_env t2)) = xbytes (ext (t_env ?t1))" and cs: "control_same ?t1 t2"
    and hb: "h_HasBreakpoint H (ucast a) (ext (t_env t2))"
    by (rule fetch_miss [OF x dm miss w nc refl])
       (simp add: word_inst_def decode_encode has_bp_cache has_bp_load x1(4))
  have rv2: "rv_of mbytes a (state t2) = rv_of mbytes a s1"
    using rv_of_cong [OF fr db, of mbytes a] xb st1 by simp
  have x2: "xregs_ok (state t2)" and cm2: "code_memory (st_memory (state t2))"
    using x cm(2) fr xregs_ok_frame [OF fr] by (simp_all add: same_frame_def set_ext_def map_env_def)
  obtain s' where s': "Execute lib (mem_of H) (word_inst ?L a i (state ?t1)) (state t2) = Some s'"
    "exec_effect (mem_of H) mbytes a i (state t2) s'"
    using execute_word_inst [OF cm2 x2, of i a ?L] ev rv2 word_inst_frame [OF fr] by metis
  define t3 where "t3 = count_instruction (word_inst ?L a i (state ?t1)) (t2\<lparr>state := s'\<rparr>)"
  have e: "rv_of mbytes (next_pc a 4 (state t2) s') s' = rv_exec i (rv_of mbytes a s1)"
    "db_id (pc_db (state t2)) = db_id (pc_db s') \<longrightarrow> pc_db s' = pc_db (state t2)"
    "same_frame (state t2) s'" "mem_effect (mem_of H) (st_memory (state t2)) (t_env t2) (env s')"
    using s'(2) rv2 by (simp_all add: exec_effect_def)
  have "h_HasBreakpoint H (ucast a) (ext (t_env t3))"
    using mem_effect_has_bp [OF e(4)] hb by (simp add: t3_def)
  then obtain x4 where x4: "h_EnableBreakpoint H (ucast a) (ext (t_env t3)) = (OkStatus, x4)"
    "word_at (xbytes x4) (ucast a) = ebreak_word" "h_HasBreakpoint H (ucast a) x4"
    using enable_bp by blast
  let ?t' = "set_halt_reason Halt_kNone (set_ext x4 t3)"
  have so: "step_over_breakpoint lib H t = Some (Inr (), ?t')"
    using step_over_breakpoint_eq [OF pp x1(1) g s'(1) t3_def x4(1)] by simp
  have fr0: "same_frame (state t) (state t2)" using fr by (simp add: st1 s1 same_frame_def)
  have pdb: "pc_db (state t2) = pc_db (state t)" using db fr0 by (simp add: same_frame_def st1 s1)
  have np: "next_pc a 4 (state t2) s' = next_pc a 4 (state t) s'" using pdb by (simp add: next_pc_def)
  have "control_same t ?t'"
    using cs by (simp add: control_same_def t3_def set_ext_def set_halt_reason_def map_env_def count_instruction_def)
  then show ?thesis
    using so e(1,2) np pdb same_frame_trans [OF fr0 e(3)] x4
    by (intro exI [of _ ?t'] exI [of _ s'])
       (simp add: t3_def set_ext_def set_halt_reason_def map_env_def same_frame_def)
qed

theorem step_resumes:
  assumes ok: "core_ok H t" and run: "run_status t = Run_kHalted"
    and hr: "halt_reason (t_env t) = Halt_kSoftwareBreakpoint"
    and cm: "code_memory (dec_memory (rv32_decoder t))" "code_memory (st_memory (state t))"
    and pp: "previous_pc t = Some a" and pc: "db_get32 (pc_data_buffer t) = a + 4"
    and has: "h_HasBreakpoint H (ucast a) (ext (t_env t))"
    and i: "word_at (orig (ext (t_env t))) (ucast a) = encode i"
    and m: "m = (top_abs xbytes t)\<lparr>rv_pc := a,
        rv_mem := xbytes (snd (h_DisableBreakpoint H (ucast a) (ext (t_env t))))\<rparr>"
    and ev: "jalr_even i m"
  shows "\<exists>t'. Step lib H 1 t = Some (Inr 1, t') \<and>
    rv_x (top_abs xbytes t') = rv_x (rv_exec i m) \<and> rv_pc (top_abs xbytes t') = rv_pc (rv_exec i m) \<and>
    run_status t' = Run_kHalted \<and> GetLastHaltReason t' = Halt_kNone \<and>
    word_at (xbytes (ext (t_env t'))) (ucast a) = ebreak_word \<and> h_HasBreakpoint H (ucast a) (ext (t_env t'))"
proof -
  let ?t0 = "set_halted False (t\<lparr>run_status := Run_kSingleStep\<rparr>)"
  define s1 where "s1 = (state ?t0)\<lparr>env := (t_env ?t0)\<lparr>ext := snd (h_DisableBreakpoint H (ucast a) (ext (t_env ?t0)))\<rparr>\<rparr>"
  have m': "m = rv_of mbytes a s1" by (simp add: m s1_def top_abs_def rv_of_def)
  have m0: "machine_ok H ?t0" using ok by (simp add: core_ok_def)
  have h: "code_memory (dec_memory (rv32_decoder ?t0))" "code_memory (st_memory (state ?t0))"
    "previous_pc ?t0 = Some a" "h_HasBreakpoint H (ucast a) (ext (t_env ?t0))"
    "word_at (orig (ext (t_env ?t0))) (ucast a) = encode i"
    using cm pp has i by (simp_all add: set_halted_def map_env_def)
  obtain t1 s' where o: "step_over_breakpoint lib H ?t0 = Some (Inr (), t1)"
    "reg_db (state t1) = reg_db s'" "same_frame (state ?t0) s'" "same_frame s' (state t1)"
    "rv_of mbytes (next_pc a 4 (state ?t0) s') s' = rv_exec i m"
    "db_id (pc_db (state ?t0)) = db_id (pc_db s') \<longrightarrow> pc_db s' = pc_db (state ?t0)"
    "control_same ?t0 t1" "halt_reason (t_env t1) = Halt_kNone"
    "word_at (xbytes (ext (t_env t1))) (ucast a) = ebreak_word" "h_HasBreakpoint H (ucast a) (ext (t_env t1))"
    using step_over_executes [OF m0 h s1_def] ev m' by auto
  let ?p = "db_get32 (pc_data_buffer t1)"
  let ?t2 = "set_pc_value ?p (t1\<lparr>previous_pc := None\<rparr>)"
  let ?t' = "(if \<not> halted (t_env ?t2) then set_halt_reason Halt_kNone ?t2 else ?t2)\<lparr>run_status := Run_kHalted\<rparr>"
  have S: "Step lib H 1 t = Some (Inr 1, ?t')"
    using run hr o(1) by (simp add: Step_def step_rest_def Let_def)
  have x: "xregs_ok (state t)" and tp: "top_pc t = pc_reg (state t)"
    using ok by (simp_all add: core_ok_def machine_ok_def regs_good_def)
  have fr: "same_frame (state t) (state t1)"
    using o(3,4) by (simp add: same_frame_def)
  have x1: "xregs_ok (state t1)" and tp1: "top_pc t1 = pc_reg (state t1)"
    using x xregs_ok_frame [OF fr] tp fr o(7) by (simp_all add: same_frame_def control_same_def)
  have "rv_x (rv_exec i m) r = xval (state t1) (unat r)" for r
    unfolding o(5) [symmetric] using o(2,4) by (simp add: xval_def same_frame_def)
  moreover have "top_abs xbytes ?t2 = rv_of mbytes ?p (state t1)"
    using top_abs_set_pc [of "t1\<lparr>previous_pc := None\<rparr>"] x1 tp1 by simp
  moreover have "top_abs xbytes ?t' = top_abs xbytes ?t2"
    unfolding top_abs_def pc_data_buffer_def by (auto intro!: rv_of_cong)
  moreover have "?p = rv_pc (rv_exec i m)"
  proof -
    have "rv_pc (rv_exec i m) = next_pc a 4 (state ?t0) s'" unfolding o(5) [symmetric] by simp
    moreover have "pc_data_buffer t1 = pc_db s'"
      using o(2,3) tp1 fr by (simp add: pc_data_buffer_def same_frame_def)
    moreover have "pc_db (state ?t0) = pc_data_buffer t" using tp by (simp add: pc_data_buffer_def)
    ultimately show ?thesis
      using o(6) pc by (cases "db_id (pc_db (state ?t0)) = db_id (pc_db s')") (simp_all add: next_pc_def)
  qed
  ultimately show ?thesis
    using S o(8,9,10) by (intro exI [of _ ?t']) (auto simp: GetLastHaltReason_def fun_eq_iff)
qed

text \<open>The thread of \<open>Run\<close> stops there after one turn, too.\<close>

lemma run_thread_at_breakpoint:
  assumes "machine_ok H t" and "at_breakpoint H xbytes a t" and "db_get32 (pc_data_buffer t) = a"
    and "\<not> halted (t_env t)" and rh: "run_halted t = Some False"
  shows "\<exists>t'. run_thread lib H 2 t = Some t' \<and> GetLastHaltReason t' = Halt_kSoftwareBreakpoint \<and>
    previous_pc t' = Some a"
proof -
  have "code_memory (dec_memory (rv32_decoder t))"
    using assms(1) by (simp add: machine_ok_def code_memory_def)
  from loop_body_breakpoint [OF assms(1) this assms(2) refl] obtain u where
    u: "loop_body lib H (db_id (pc_data_buffer t), a, t) = Some (db_id (pc_data_buffer t), a + 4, u)"
    "halted (t_env u)" "halt_reason (t_env u) = Halt_kSoftwareBreakpoint" "run_halted u = run_halted t"
    by (auto simp: control_same_def)
  have two: "(2 :: nat) = Suc (Suc 0)" by simp
  have "run_loop lib H 2 None (db_id (pc_data_buffer t), a, t) =
      Some (Some a, db_id (pc_data_buffer t), a + 4, u)"
    unfolding two using u(1,2) assms(4) by simp
  then show ?thesis
    using u(3,4) assms(3) rh by (simp add: run_thread_def Let_def GetLastHaltReason_def set_pc_value_def)
qed

text \<open>Setting a breakpoint at the current pc, stepping onto it and stepping on.\<close>

lemma set_breakpoint_at:
  assumes "core_ok H t" and "run_status t = Run_kHalted" and "SetSwBreakpoint H (ucast a) t = (OkStatus, t1)"
  shows "at_breakpoint H xbytes a t1" "registers (state t1) = registers (state t)" "reg_db (state t1) = reg_db (state t)"
    "halt_reason (t_env t1) = halt_reason (t_env t)"
    "orig (ext (t_env t1)) = orig (ext (t_env t))" "control_same t t1" "rv32_decoder t1 = rv32_decoder t"
proof -
  obtain x where x: "h_SetBreakpoint H (ucast a) (ext (t_env t)) = (OkStatus, x)" "t1 = set_ext x t"
    using assms(2,3) by (auto simp: SetSwBreakpoint_def split: prod.splits)
  show "at_breakpoint H xbytes a t1" "registers (state t1) = registers (state t)" "reg_db (state t1) = reg_db (state t)"
    "halt_reason (t_env t1) = halt_reason (t_env t)"
    "orig (ext (t_env t1)) = orig (ext (t_env t))" "control_same t t1" "rv32_decoder t1 = rv32_decoder t"
    using set_bp [OF x(1)] by (simp_all add: x(2) at_breakpoint_def set_ext_def map_env_def control_same_def)
qed

end

locale debug_session = debugger lib H xbytes orig + core lib H
  for lib :: "'x top_env mpact" and H :: "'x host" and xbytes and orig
begin

theorem breakpoint_session:
  assumes ok: "core_ok H t" and run: "run_status t = Run_kHalted"
    and nr: "halt_reason (t_env t) \<noteq> Halt_kSoftwareBreakpoint" and pc: "db_get32 (pc_data_buffer t) = a"
    and set: "SetSwBreakpoint H (ucast a) t = (OkStatus, t1)" and n: "0 < num"
  shows "\<exists>t2. Step lib H num t1 = Some (Inr 1, t2) \<and> core_ok H t2 \<and> run_status t2 = Run_kHalted \<and>
    GetLastHaltReason t2 = Halt_kSoftwareBreakpoint \<and> previous_pc t2 = Some a \<and>
    ReadRegister ''pc'' t2 = Some (Inr (ucast a)) \<and> rv_x (top_abs xbytes t2) = rv_x (top_abs xbytes t) \<and>
    db_get32 (pc_data_buffer t2) = a + 4 \<and> orig (ext (t_env t2)) = orig (ext (t_env t)) \<and>
    h_HasBreakpoint H (ucast a) (ext (t_env t2))"
proof -
  note s = set_breakpoint_at [OF ok run set]
  have ok1: "core_ok H t1" using quiet_ok [OF ok breakpoint_calls_quiet(1) [OF set]] .
  have "pc_data_buffer t1 = pc_data_buffer t"
    using s(3,6) by (simp add: pc_data_buffer_def control_same_def)
  then have pc1: "db_get32 (pc_data_buffer t1) = a" using pc by simp
  have x1: "xval (state t1) r = xval (state t) r" for r using s(2,3) by (simp add: xval_def)
  have h1: "run_status t1 = Run_kHalted" "halt_reason (t_env t1) \<noteq> Halt_kSoftwareBreakpoint"
    "code_memory (dec_memory (rv32_decoder t1))"
    using s(4,6) run nr ok1 by (simp_all add: control_same_def core_ok_def machine_ok_def code_memory_def)
  obtain t2 where t2: "Step lib H num t1 = Some (Inr 1, t2)" "run_status t2 = Run_kHalted"
    "GetLastHaltReason t2 = Halt_kSoftwareBreakpoint" "previous_pc t2 = Some a"
    "ReadRegister ''pc'' t2 = Some (Inr (ucast a))" "\<forall>r < 32. xval (state t2) r = xval (state t1) r"
    "h_HasBreakpoint H (ucast a) (ext (t_env t2))"
    "orig (ext (t_env t2)) = orig (ext (t_env t1))" "db_get32 (pc_data_buffer t2) = a + 4"
    using step_halts_at_breakpoint [OF ok1 h1 s(1) pc1 n] by blast
  moreover have "core_ok H t2" using Step_total [OF ok1, of num] t2(1) by auto
  ultimately show ?thesis
    using s(5) x1 unat_regnum_less by (intro exI [of _ t2]) (auto simp: top_abs_def fun_eq_iff)
qed

text \<open>The second \<open>Step\<close> executes the instruction the breakpoint replaced, on the registers the
  first found.\<close>

theorem breakpoint_session_resumes:
  assumes ok: "core_ok H t" and run: "run_status t = Run_kHalted"
    and nr: "halt_reason (t_env t) \<noteq> Halt_kSoftwareBreakpoint" and pc: "db_get32 (pc_data_buffer t) = a"
    and set: "SetSwBreakpoint H (ucast a) t = (OkStatus, t1)"
    and i: "word_at (orig (ext (t_env t))) (ucast a) = encode i"
    and ev: "jalr_even i (top_abs xbytes t)"
  shows "\<exists>t2 t3 m. Step lib H 1 t1 = Some (Inr 1, t2) \<and> Step lib H 1 t2 = Some (Inr 1, t3) \<and>
    m = \<lparr>rv_pc = a, rv_x = rv_x (top_abs xbytes t),
         rv_mem = xbytes (snd (h_DisableBreakpoint H (ucast a) (ext (t_env t2))))\<rparr> \<and>
    rv_x (top_abs xbytes t3) = rv_x (rv_exec i m) \<and> rv_pc (top_abs xbytes t3) = rv_pc (rv_exec i m) \<and>
    run_status t3 = Run_kHalted \<and> GetLastHaltReason t3 = Halt_kNone \<and>
    word_at (xbytes (ext (t_env t3))) (ucast a) = ebreak_word"
proof -
  obtain t2 where t2: "Step lib H 1 t1 = Some (Inr 1, t2)" "core_ok H t2" "run_status t2 = Run_kHalted"
    "halt_reason (t_env t2) = Halt_kSoftwareBreakpoint" "previous_pc t2 = Some a"
    "rv_x (top_abs xbytes t2) = rv_x (top_abs xbytes t)" "db_get32 (pc_data_buffer t2) = a + 4"
    "orig (ext (t_env t2)) = orig (ext (t_env t))" "h_HasBreakpoint H (ucast a) (ext (t_env t2))"
    using breakpoint_session [OF ok run nr pc set, of 1] by (auto simp: GetLastHaltReason_def)
  define m where "m = (top_abs xbytes t2)\<lparr>rv_pc := a,
    rv_mem := xbytes (snd (h_DisableBreakpoint H (ucast a) (ext (t_env t2))))\<rparr>"
  have cm: "code_memory (dec_memory (rv32_decoder t2))" "code_memory (st_memory (state t2))"
    using t2(2) by (simp_all add: core_ok_def machine_ok_def code_memory_def)
  have i2: "word_at (orig (ext (t_env t2))) (ucast a) = encode i" using i t2(8) by simp
  have ev2: "jalr_even i m" using ev jalr_even_cong [of m "top_abs xbytes t" i] by (simp add: m_def t2(6))
  have "m = \<lparr>rv_pc = a, rv_x = rv_x (top_abs xbytes t),
      rv_mem = xbytes (snd (h_DisableBreakpoint H (ucast a) (ext (t_env t2))))\<rparr>"
    by (simp add: m_def t2(6))
  with step_resumes [OF t2(2,3,4) cm t2(5,7,9) i2 m_def ev2] t2(1) show ?thesis by blast
qed

end

end
