(* ===== verification/Machine.thy ===== *)
theory Machine
  imports Fetch Debug_Interface
begin

text \<open>
  The machine the simulator is, for every instruction word and not only for those the manual
  gives a meaning to. \<open>sim_exec\<close> is its instruction set: the manual's effect, \<open>jalr\<close> without the
  cleared bit, and skipping every word that is no instruction of the decoder, \<^verbatim>\<open>ebreak\<close> and the
  CSR stubs. The turns of the loop of \<open>Step\<close> follow it for any code that is not written.
\<close>

section \<open>The instruction set of the simulator\<close>

fun sim_inst :: "rv_inst \<Rightarrow> rv32 \<Rightarrow> rv32" where
  "sim_inst (JALR rd rs1 imm) m = (rv_set rd (rv_pc m + 4) m)\<lparr>rv_pc := rv_x m rs1 + scast imm\<rparr>"
| "sim_inst i m = rv_exec i m"

text \<open>\<open>L\<close> is the size the generated decoder gives a word without an opcode.\<close>

definition sim_exec :: "nat \<Rightarrow> u32 \<Rightarrow> rv32 \<Rightarrow> rv32" where
  "sim_exec L w m =
     (case inst_of w of
        Some i \<Rightarrow> sim_inst i m
      | None \<Rightarrow> m\<lparr>rv_pc := rv_pc m + of_nat (op_size (riscv32_op L (DecodeRiscVInst32 w)))\<rparr>)"

definition sim_writes :: "u32 \<Rightarrow> rv32 \<Rightarrow> u64 set" where
  "sim_writes w m = (case inst_of w of Some i \<Rightarrow> writes_to i m | None \<Rightarrow> {})"

text \<open>One step with code at the addresses \<open>C\<close> that is not written.\<close>

inductive sim_step :: "nat \<Rightarrow> u32 set \<Rightarrow> rv32 \<Rightarrow> rv32 \<Rightarrow> bool" for L C where
  sim: "rv_pc m \<in> C \<Longrightarrow> w = rv_word m (rv_pc m) \<Longrightarrow> sim_writes w m \<inter> code_bytes C = {} \<Longrightarrow>
    sim_step L C m (sim_exec L w m)"

inductive_cases sim_stepE: "sim_step L C m m'"

lemma sim_exec_encode [simp]: "sim_exec L (encode i) m = sim_inst i m"
  by (simp add: sim_exec_def inst_of_encode)

lemma odd_and_not_1: "odd v \<Longrightarrow> v AND NOT 1 \<noteq> v" for v :: u32
  by (metis bit_0 bit_1_0 bit_and_iff bit_not_iff)

lemma sim_inst_manual: "sim_inst i m = rv_exec i m \<longleftrightarrow> jalr_even i m"
proof (cases i)
  case (JALR rd rs1 imm)
  let ?v = "rv_x m rs1 + scast imm"
  have "?v = ?v AND NOT 1 \<longleftrightarrow> even ?v" using even_and_not_1 odd_and_not_1 by metis
  then show ?thesis by (auto simp: JALR dest: arg_cong [where f = rv_pc])
qed simp_all

lemma sim_inst_mem: "rv_mem (sim_inst i m) = rv_mem (rv_exec i m)"
  by (cases i) simp_all

lemma sim_exec_mem: "x \<notin> sim_writes w m \<Longrightarrow> rv_mem (sim_exec L w m) x = rv_mem m x"
  using rv_exec_mem by (auto simp: sim_exec_def sim_writes_def sim_inst_mem split: option.splits)

text \<open>What the manual does the simulator does.\<close>

lemma rv_step_sim: "rv_step C m m' \<Longrightarrow> sim_step L C m m'"
proof (erule rv_stepE)
  fix i assume i: "m' = rv_exec i m" "rv_pc m \<in> C" "rv_word m (rv_pc m) = encode i" "jalr_even i m"
    "writes_to i m \<inter> code_bytes C = {}"
  have "m' = sim_exec L (encode i) m" using i(1,4) by (simp add: sim_inst_manual [THEN iffD2])
  then show ?thesis
    using sim [of m C "encode i" L] i by (simp add: sim_writes_def inst_of_encode)
qed

lemma sim_step_det: "sim_step L C m m1 \<Longrightarrow> sim_step L C m m2 \<Longrightarrow> m1 = m2"
  by (auto elim!: sim_stepE)

lemma sim_run_det: "(sim_step L C ^^ n) m m1 \<Longrightarrow> (sim_step L C ^^ n) m m2 \<Longrightarrow> m1 = m2"
proof (induction n arbitrary: m)
  case (Suc n)
  then show ?case by (metis relpowp_Suc_E2 sim_step_det)
qed simp

text \<open>The manual's runs are the runs of the simulator, where the manual has one.\<close>

lemma rv_run_sim: "(rv_step C ^^ n) m m' \<Longrightarrow> (sim_step L C ^^ n) m m'"
proof (induction n arbitrary: m')
  case (Suc n)
  from Suc.prems obtain u where u: "(rv_step C ^^ n) m u" "rv_step C u m'" by (rule relpowp_Suc_E)
  from relpowp_Suc_I [OF Suc.IH [OF u(1)] rv_step_sim [OF u(2)]] show ?case .
qed simp

lemma rv_run_prefix:
  assumes "(rv_step C ^^ n) m m'" and "k \<le> n" and "(sim_step L C ^^ k) m u"
  shows "(rv_step C ^^ k) m u"
proof -
  obtain u' where u': "(rv_step C ^^ k) m u'" using relpowp_prefix [OF assms(1,2)] by blast
  have "u' = u" by (rule sim_run_det [OF rv_run_sim [OF u'] assms(3)])
  with u' show ?thesis by simp
qed

lemma sim_exec_code:
  assumes "sim_writes w m \<inter> code_bytes C = {}" and "a \<in> C"
  shows "rv_word (sim_exec L w m) a = rv_word m a"
proof -
  have "rv_mem (sim_exec L w m) (ucast a + of_nat k) = rv_mem m (ucast a + of_nat k)" if "k < 4" for k
    using assms that by (intro sim_exec_mem) (auto simp: code_bytes_def)
  then have "rv_bytes (sim_exec L w m) a 4 = rv_bytes m a 4" by (simp add: rv_bytes_def)
  then show ?thesis by (simp add: rv_word_def)
qed

section \<open>Executing an instruction, odd targets included\<close>

context rv32_machine
begin

lemma instruction_executes:
  assumes m: "st_memory s = h" and ok: "xregs_ok s"
  obtains s' where "Execute lib mem (word_inst L pc i s) s = Some s'"
    "rv_of bytes (next_pc pc 4 s s') s' = sim_inst i (rv_of bytes pc s)"
proof (cases "jalr_even i (rv_of bytes pc s)")
  case True
  from instruction_refines [OF m ok True, of L] that True show ?thesis
    by (auto simp: runs_as_def exec_effect_def sim_inst_manual [THEN iffD2])
next
  case False
  then obtain rd rs1 imm where i: "i = JALR rd rs1 imm" by (cases i) simp_all
  obtain s1 s2 where e: "Execute lib mem (word_inst L pc i s) s = Some s2"
    "dest_write s (RegisterDestination (pc_reg s) 0 kPcName) (scast imm + xval s (unat rs1)) s1"
    "rd_write s1 (encode i) (pc + 4) s2" "unat (ExtractRd (encode i)) = unat rd"
    unfolding i using exec_JALR_writes [OF ok] by blast
  note p = pc_write_effect [OF e(2) ok]
  have ok1: "xregs_ok s1" using p(4) ok by (simp add: xregs_ok_frame)
  note r = rd_write_effect [OF e(3) ok1 e(4)]
  have "pc_reg s1 = pc_reg s" "pc_reg s2 = pc_reg s" using p(4) r(3) by (simp_all add: same_frame_def)
  then have n: "next_pc pc 4 s s2 = xval s (unat rs1) + scast imm"
    using p r(2) by (simp add: next_pc_def add.commute)
  have "rv_of bytes q s2 = rv_set rd (pc + 4) (rv_of bytes q s)" for q
    using r(1) [of bytes q] p(1) [of bytes q] by simp
  then have "rv_of bytes (next_pc pc 4 s s2) s2 = sim_inst i (rv_of bytes pc s)"
    unfolding n by (simp add: i rv_set_def rv_of_def)
  with that e(1) show ?thesis by blast
qed

end

section \<open>Instruction objects and the words they come from\<close>

text \<open>The register table may grow between decoding an instruction and executing it from the cache:
  the CSR words add registers.\<close>

definition extends :: "'e riscv_state \<Rightarrow> 'e riscv_state \<Rightarrow> bool" where
  "extends s s' \<longleftrightarrow>
     registers s \<subseteq>\<^sub>m registers s' \<and> st_pc s' = st_pc s \<and> (\<forall>r \<in> ran (registers s). reg_db s' r = reg_db s r)"

lemma extends_refl [simp]: "extends s s"
  by (simp add: extends_def)

lemma extends_registers:
  assumes "registers s \<subseteq>\<^sub>m registers s'" and "xregs_ok s" and "i < 32"
  shows "xreg s' i = xreg s i"
  using assms xregs_okD(1) [OF assms(2,3)] by (auto simp: map_le_def dom_def)

lemma extends_rv_of:
  assumes e: "extends s s'" and ok: "xregs_ok s" and b: "bytes (env s') = bytes (env s)"
  shows "rv_of bytes p s' = rv_of bytes p s"
proof -
  have "xval s' (unat r) = xval s (unat r)" for r :: regnum
  proof -
    have u: "unat r < 32" by (rule unat_regnum_less)
    then have "xreg s (unat r) \<in> ran (registers s)" using xregs_okD(1) [OF ok u] by (auto simp: ran_def)
    then show ?thesis using e extends_registers [OF _ ok u, of s'] by (simp add: extends_def xval_def)
  qed
  then show ?thesis using b by (simp add: rv_of_def)
qed

lemma extends_decoded:
  assumes "registers s \<subseteq>\<^sub>m registers s'" and "st_pc s' = st_pc s" and ok: "xregs_ok s" and n: "\<not> csr_op op"
  shows "decoded L a w op s' = decoded L a w op s"
proof -
  have x: "xreg s' i = xreg s i" if "i < 32" for i using extends_registers [OF assms(1) ok that] .
  have src: "source_of s' w q = source_of s w q" if "q \<noteq> Src_kCsr" for q
    using that x Extract_reg_bounds [of w] by (cases q) simp_all
  have dst: "dest_of s' w d = dest_of s w d" if "d \<noteq> Dst_kCsr" for d
    using that x Extract_reg_bounds [of w] assms(2) by (cases d) simp_all
  have part: "part_inst s' w a sz op p c = part_inst s w a sz op p c"
    if "Src_kCsr \<notin> set (p_sources p)" "Dst_kCsr \<notin> set (p_dests p)" for sz p c
  proof -
    have "map (source_of s' w) (p_sources p) = map (source_of s w) (p_sources p)"
      by (rule map_cong [OF refl]) (use src that(1) in metis)
    moreover have "map (dest_of s' w) (p_dests p) = map (dest_of s w) (p_dests p)"
      by (rule map_cong [OF refl]) (use dst that(2) in metis)
    ultimately show ?thesis by (simp add: part_inst_def)
  qed
  show ?thesis
    using not_csr_parts(1,2) [OF n] not_csr_parts(3) [of L op] part
    by (cases "op_child (riscv32_op L op)") (simp_all add: decoded_def Let_def)
qed

lemma extends_word_inst:
  assumes "registers s \<subseteq>\<^sub>m registers s'" and "st_pc s' = st_pc s" and "xregs_ok s"
  shows "word_inst L pc i s' = word_inst L pc i s"
proof -
  have "\<not> csr_op (opcode_of i)" using base_opcode_of [of i] by (simp add: base_opcode_def csr_op_def)
  then show ?thesis unfolding word_inst_def by (rule extends_decoded [OF assms])
qed

definition skipped_semfuncs :: "SemFunc list" where
  "skipped_semfuncs =
     [fn_RV32IllegalInstruction, fn_RV32IEbreak, fn_RV32ZiCsrs, fn_RV32ZiCsrwNr, fn_RV32ZiCsrsNw]"

definition from_word :: "nat \<Rightarrow> u32 \<Rightarrow> u32 \<Rightarrow> instruction \<Rightarrow> 'e riscv_state \<Rightarrow> bool" where
  "from_word L a w inst s \<longleftrightarrow>
     (case inst_of w of
        Some i \<Rightarrow> inst = word_inst L a i s
      | None \<Rightarrow> inst_semfunc inst \<in> set skipped_semfuncs \<and> inst_address inst = ucast a \<and>
          inst_size inst = op_size (riscv32_op L (DecodeRiscVInst32 w)))"

lemma inst_of_none: "inst_of w = None \<longleftrightarrow> \<not> base_opcode (DecodeRiscVInst32 w)"
  by (cases "DecodeRiscVInst32 w") (simp_all add: inst_of_def base_opcode_def)

lemma inst_of_some: "inst_of w = Some i \<Longrightarrow> w = encode i"
  using inst_of_base base_opcode_encoding inst_of_encode by (metis option.inject)

text \<open>What a step of the simulator has to do with \<open>rv_step\<close>, whatever the word.\<close>

lemma sim_step_manual:
  assumes "sim_step L C m m'"
  shows "case inst_of (rv_word m (rv_pc m)) of
      Some i \<Rightarrow> rv_step C m m' \<longleftrightarrow> jalr_even i m
    | None \<Rightarrow> \<not> rv_step C m m' \<and> rv_x m' = rv_x m \<and> rv_mem m' = rv_mem m"
proof (cases "inst_of (rv_word m (rv_pc m))")
  case None
  then have "\<not> rv_step C m m'" using inst_of_encode by (auto elim!: rv_stepE simp del: encode.simps)
  then show ?thesis using assms None by (auto elim!: sim_stepE simp: sim_exec_def)
next
  case (Some i)
  note w = inst_of_some [OF Some]
  have "rv_step C m m'" if "jalr_even i m"
  proof -
    have "m' = rv_exec i m" "rv_pc m \<in> C" "writes_to i m \<inter> code_bytes C = {}"
      using assms Some that by (auto elim!: sim_stepE simp: sim_exec_def sim_writes_def sim_inst_manual [THEN iffD2])
    then show ?thesis using w that by (simp add: rv_step.step del: encode.simps)
  qed
  moreover have "jalr_even i m" if r: "rv_step C m m'"
  proof -
    from r obtain i' where "rv_word m (rv_pc m) = encode i'" "jalr_even i' m" by (elim rv_stepE)
    then show ?thesis using Some by (simp add: inst_of_encode del: encode.simps)
  qed
  ultimately show ?thesis using Some by auto
qed

lemma skipped_opcode:
  "\<not> base_opcode op \<Longrightarrow> p_semfunc (op_main (riscv32_op L op)) \<in> set skipped_semfuncs"
  by (auto simp: base_opcode_def skipped_semfuncs_def isa_defs)

lemma from_word_extends:
  assumes "from_word L a w inst s" and "registers s \<subseteq>\<^sub>m registers s'" and "st_pc s' = st_pc s" and "xregs_ok s"
  shows "from_word L a w inst s'"
  using assms(1) extends_word_inst [OF assms(2-4)] by (simp add: from_word_def split: option.splits)

lemma decoded_from_word:
  assumes d: "DecodeInstruction lib mem dec (ucast a) s = (inst, dec', s')" and ok: "xregs_ok s"
    and w: "w = le_word (lr_data (mif_load mem (dec_memory dec) (ucast a) 4 False (env s)))"
  shows "from_word (lib_default_size lib) a w inst s'"
proof (cases "inst_of w")
  case None
  note p = decoded_parts_of [OF d]
  have "inst_opcode inst = DecodeRiscVInst32 w" using p(2,5) w by simp
  moreover have "\<not> base_opcode (DecodeRiscVInst32 w)" using None by (simp add: inst_of_none)
  ultimately show ?thesis
    using p(1,3,4) skipped_opcode [of "DecodeRiscVInst32 w"] by (simp add: from_word_def None)
next
  case (Some i)
  let ?s1 = "s\<lparr>env := lr_env (mif_load mem (dec_memory dec) (ucast a) 4 False (env s))\<rparr>"
  have op: "DecodeRiscVInst32 w = opcode_of i" unfolding inst_of_some [OF Some] by (rule decode_encode)
  have "\<not> csr_op (opcode_of i)" using base_opcode_of [of i] by (simp add: base_opcode_def csr_op_def)
  moreover have "xregs_ok ?s1" using ok by (simp add: xregs_ok_def)
  ultimately have "inst = word_inst (lib_default_size lib) a i ?s1 \<and> s' = ?s1"
    using d isa_Decode_found [of ?s1 "ParseInstruction w (riscv_encoding dec)" "lib_default_size lib" "ucast a" lib]
    by (auto simp: DecodeInstruction_def Let_def w [symmetric] ParseInstruction_def GetOpcode_def op
        word_inst_def inst_of_some [OF Some] decode_encode simp del: encode.simps)
  then show ?thesis using Some by (simp add: from_word_def)
qed

section \<open>The turns of the loop\<close>

text \<open>Besides the laws of \<open>core\<close> and of the host memory: raising an error leaves the memory alone.\<close>

locale whole_machine = core lib H + host_memory H xbytes
  for lib :: "'x top_env mpact" and H :: "'x host" and xbytes +
  assumes raise_bytes: "xbytes (ext (lib_Raise lib nm m e)) = xbytes (ext e)"

sublocale whole_machine \<subseteq> simulator lib H xbytes
  by unfold_locales

definition words_cached ::
  "'x host \<Rightarrow> ('x \<Rightarrow> u64 \<Rightarrow> u8) \<Rightarrow> nat \<Rightarrow> u32 set \<Rightarrow> 'x top \<Rightarrow> bool" where
  "words_cached H xbytes L C t \<longleftrightarrow>
     (\<forall>a \<in> C. \<forall>inst. h_cached H (ucast a) (ext (t_env t)) = Some inst \<longrightarrow>
        from_word L a (rv_word (rv_of (\<lambda>e. xbytes (ext e)) 0 (state t)) a) inst (state t))"

definition sim_ok :: "'x host \<Rightarrow> ('x \<Rightarrow> u64 \<Rightarrow> u8) \<Rightarrow> nat \<Rightarrow> u32 set \<Rightarrow> 'x top \<Rightarrow> bool" where
  "sim_ok H xbytes L C t \<longleftrightarrow> machine_ok H t \<and> words_cached H xbytes L C t"

lemma words_cachedI:
  assumes wc: "words_cached H xbytes L C t" and x: "xregs_ok (state t)"
    and "registers (state t) \<subseteq>\<^sub>m registers (state t')" "st_pc (state t') = st_pc (state t)"
    and w: "\<And>a. a \<in> C \<Longrightarrow> rv_word (rv_of (\<lambda>e. xbytes (ext e)) 0 (state t')) a =
      rv_word (rv_of (\<lambda>e. xbytes (ext e)) 0 (state t)) a"
    and hit: "\<And>a inst. a \<in> C \<Longrightarrow> h_cached H (ucast a) (ext (t_env t')) = Some inst \<Longrightarrow>
      h_cached H (ucast a) (ext (t_env t)) = Some inst \<or>
      from_word L a (rv_word (rv_of (\<lambda>e. xbytes (ext e)) 0 (state t)) a) inst (state t')"
  shows "words_cached H xbytes L C t'"
  unfolding words_cached_def
proof (intro ballI allI impI)
  fix a inst assume a: "a \<in> C" and h: "h_cached H (ucast a) (ext (t_env t')) = Some inst"
  from hit [OF a h] show "from_word L a (rv_word (rv_of (\<lambda>e. xbytes (ext e)) 0 (state t')) a) inst (state t')"
    unfolding w [OF a]
  proof
    assume "h_cached H (ucast a) (ext (t_env t)) = Some inst"
    then show "from_word L a (rv_word (rv_of (\<lambda>e. xbytes (ext e)) 0 (state t)) a) inst (state t')"
      using wc a from_word_extends [OF _ assms(3,4) x] by (simp add: words_cached_def)
  qed
qed

context whole_machine
begin

lemma fetch_any:
  assumes ok: "sim_ok H xbytes (lib_default_size lib) C t" and C: "pc \<in> C"
    and w: "rv_word (rv_of mbytes pc (state t)) pc = w"
  obtains inst t1 where "GetDecodedInstruction lib H (ucast pc) t = (inst, t1)"
    "from_word (lib_default_size lib) pc w inst (state t1)" "inst_ok inst"
    "sim_ok H xbytes (lib_default_size lib) C t1" "extends (state t) (state t1)"
    "xbytes (ext (t_env t1)) = xbytes (ext (t_env t))"
proof (cases "h_cached H (ucast pc) (ext (t_env t))")
  case (Some inst)
  then have g: "GetDecodedInstruction lib H (ucast pc) t = (inst, t)" by (simp add: GetDecodedInstruction_def)
  have "machine_ok H t" using ok by (simp add: sim_ok_def)
  note iok = decode_ok(1) [OF this g]
  have "rv_word (rv_of mbytes 0 (state t)) pc = w"
    unfolding w [symmetric] by (rule rv_word_frame) simp
  then have "from_word (lib_default_size lib) pc w inst (state t)"
    using ok C Some by (auto simp: sim_ok_def words_cached_def)
  from that [OF g this iok ok] show ?thesis by simp
next
  case None
  let ?dec = "rv32_decoder t" and ?L = "lib_default_size lib"
  let ?e = "lr_env (mif_load (mem_of H) (dec_memory ?dec) (ucast pc) 4 False (t_env t))"
  have m: "machine_ok H t" and wc: "words_cached H xbytes ?L C t" using ok by (simp_all add: sim_ok_def)
  then have x: "xregs_ok (state t)" and dm: "code_memory (dec_memory ?dec)"
    by (simp_all add: machine_ok_def regs_good_def code_memory_def)
  obtain inst dec s where d: "DecodeInstruction lib (mem_of H) ?dec (ucast pc) (state t) = (inst, dec, s)"
    by (cases "DecodeInstruction lib (mem_of H) ?dec (ucast pc) (state t)") auto
  define t1 where "t1 = set_ext (h_cache H (ucast pc) inst (ext (env s))) (t\<lparr>state := s, rv32_decoder := dec\<rparr>)"
  have g: "GetDecodedInstruction lib H (ucast pc) t = (inst, t1)"
    using None d by (simp add: GetDecodedInstruction_def t1_def Let_def)
  have "grown ((state t)\<lparr>env := ?e\<rparr>) s"
    using d isa_Decode_grown [of "(state t)\<lparr>env := ?e\<rparr>"]
    by (auto simp: DecodeInstruction_def Let_def split: prod.splits) (metis snd_conv)
  then have s: "regs_good s" "registers (state t) \<subseteq>\<^sub>m registers s" "st_pc s = st_pc (state t)" "env s = ?e"
    "\<forall>r \<in> ran (registers (state t)). reg_db s r = reg_db (state t) r"
    using m by (simp_all add: grown_def machine_ok_def)
  have xe: "xbytes (ext ?e) = xbytes (ext (t_env t))" "\<And>b. h_cached H b (ext ?e) = h_cached H b (ext (t_env t))"
    by (simp_all add: mem_of_def Let_def h_load_bytes [OF dm] h_load_cached [OF dm])
  have xb: "xbytes (ext (t_env t1)) = xbytes (ext (t_env t))"
    by (simp add: t1_def set_ext_def map_env_def h_cache_bytes s(4) xe)
  have st: "registers (state t1) = registers s" "st_pc (state t1) = st_pc s" "reg_db (state t1) = reg_db s"
    by (simp_all add: t1_def set_ext_def map_env_def)
  have "from_word ?L pc w inst s"
    using decoded_from_word [OF d x, of w] w h_load_data [OF dm]
    by (simp add: mem_of_def Let_def rv_word_def rv_bytes_def)
  then have fw: "from_word ?L pc w inst (state t1)"
    by (rule from_word_extends) (use st s(1) in \<open>simp_all add: regs_good_def\<close>)
  have word: "rv_word (rv_of mbytes 0 (state u)) a = rv_word (rv_of mbytes p (state t)) a"
    if "u = t \<or> u = t1" for u a p
    using that xb by (intro rv_word_frame) auto
  have "words_cached H xbytes ?L C t1"
  proof (rule words_cachedI [OF wc x])
    fix a j assume "a \<in> C" and h: "h_cached H (ucast a) (ext (t_env t1)) = Some j"
    have "ext (t_env t1) = h_cache H (ucast pc) inst (ext ?e)"
      by (simp add: t1_def set_ext_def map_env_def s(4))
    then have "a = pc \<and> j = inst \<or> h_cached H (ucast a) (ext (t_env t)) = Some j"
      using h h_cache_lookup [of "ucast a" "ucast pc" inst "ext ?e" j] by (auto simp: xe ucast_inj)
    then show "h_cached H (ucast a) (ext (t_env t)) = Some j \<or>
        from_word ?L a (rv_word (rv_of mbytes 0 (state t)) a) j (state t1)"
      using fw w word [of t pc pc] by auto
  qed (use st s(2,3) word [of t1 _ 0] word [of t _ 0] in simp_all)
  then have "sim_ok H xbytes ?L C t1" using decode_ok(2) [OF m g] by (simp add: sim_ok_def)
  moreover have "extends (state t) (state t1)" using s st by (simp add: extends_def)
  ultimately show ?thesis using that [OF g fw decode_ok(1) [OF m g] _ _ xb] by blast
qed

lemma exec_out_frame:
  assumes ok: "machine_ok H t" and e: "exec_out lib (mem_of H) inst (state t) s'"
  shows "registers s' = registers (state t)" "st_pc s' = st_pc (state t)"
    "h_cached H b (ext (env s')) = Some j \<Longrightarrow> h_cached H b (ext (t_env t)) = Some j"
proof -
  have eb: "on_ebreak (state t) = [ebreak_handler H]" using ok by (simp add: machine_ok_def)
  obtain e' l where eb': "EBreak (Some inst) (state t) = (state t)\<lparr>env := e', slog := l\<rparr>"
    "ext e' = ext (t_env t)"
    using try_ebreak [OF eb] by blast
  have "registers s' = registers (state t) \<and> st_pc s' = st_pc (state t) \<and>
      (h_cached H b (ext (env s')) = Some j \<longrightarrow> h_cached H b (ext (t_env t)) = Some j)"
    using e
  proof cases
    case (out_store a bs)
    then show ?thesis using hit_store [of b "st_memory (state t)" a bs "ext (t_env t)" j]
      by (simp add: StoreMemory_def mem_of_def case_prod_beta)
  next
    case out_load
    then show ?thesis by (simp add: mem_of_def Let_def) (meson hit_load)
  next
    case out_illegal
    then show ?thesis
      using hit_raise [of b kInternalErrorName "''Illegal instruction at '' @ hex_str (unat (inst_address inst))" "t_env t" j]
      by (simp add: RV32IllegalInstruction_def)
  qed (simp_all add: eb')
  note c = this
  show "registers s' = registers (state t)" "st_pc s' = st_pc (state t)" using c by simp_all
  show "h_cached H b (ext (env s')) = Some j \<Longrightarrow> h_cached H b (ext (t_env t)) = Some j" using c by simp
qed

text \<open>The words that are skipped leave registers and memory alone.\<close>

lemma skipped_executes:
  assumes eb: "on_ebreak s = [ebreak_handler H]" and f: "inst_semfunc inst \<in> set skipped_semfuncs"
  obtains s' where "Execute lib (mem_of H) inst s = Some s'" "reg_db s' = reg_db s"
    "registers s' = registers s" "st_pc s' = st_pc s" "xbytes (ext (env s')) = xbytes (ext (env s))"
proof -
  obtain e l where eb': "EBreak (Some inst) s = s\<lparr>env := e, slog := l\<rparr>" "ext e = ext (env s)"
    using try_ebreak [OF eb] by blast
  then have "Execute lib (mem_of H) inst s \<in>
      {Some (RV32IllegalInstruction lib inst s), Some (s\<lparr>env := e, slog := l\<rparr>), Some s}"
    using f by (auto simp: skipped_semfuncs_def Execute_def RV32IEbreak_def RV32ZiCsrs_def
        RV32ZiCsrwNr_def RV32ZiCsrsNw_def)
  then show ?thesis
    using that raise_bytes eb'(2) by (auto simp: RV32IllegalInstruction_def)
qed

lemma execute_from_word:
  assumes ok: "machine_ok H t" and f: "from_word L pc w inst (state t)"
  obtains s' where "Execute lib (mem_of H) inst (state t) = Some s'"
    "rv_of mbytes (next_pc pc (inst_size inst) (state t) s') s' = sim_exec L w (rv_of mbytes pc (state t))"
proof (cases "inst_of w")
  case (Some i)
  have cm: "code_memory (st_memory (state t))" and x: "xregs_ok (state t)"
    using ok by (simp_all add: machine_ok_def regs_good_def)
  have "rv32_machine lib (mem_of H) (st_memory (state t)) mbytes"
    using mem_of_memory [OF cm] mpact_operands_axioms by (rule rv32_machine.intro [rotated])
  from rv32_machine.instruction_executes [OF this refl x, of L pc i] obtain s' where
    "Execute lib (mem_of H) (word_inst L pc i (state t)) (state t) = Some s'"
    "rv_of mbytes (next_pc pc 4 (state t) s') s' = sim_inst i (rv_of mbytes pc (state t))"
    by blast
  with that Some f show ?thesis by (simp add: from_word_def sim_exec_def)
next
  case None
  have eb: "on_ebreak (state t) = [ebreak_handler H]" using ok by (simp add: machine_ok_def)
  have "inst_semfunc inst \<in> set skipped_semfuncs" using f by (simp add: from_word_def None)
  from skipped_executes [OF eb this] obtain s' where s': "Execute lib (mem_of H) inst (state t) = Some s'"
    "reg_db s' = reg_db (state t)" "registers s' = registers (state t)" "st_pc s' = st_pc (state t)"
    "xbytes (ext (env s')) = xbytes (ext (t_env t))"
    by blast
  then have "rv_of mbytes (next_pc pc n (state t) s') s' =
      (rv_of mbytes pc (state t))\<lparr>rv_pc := pc + of_nat n\<rparr>" for n
    by (simp add: next_pc_def rv_of_def xval_def cong: if_cong)
  with that s'(1) f show ?thesis by (simp add: from_word_def None sim_exec_def)
qed

text \<open>If an instruction leaves the code alone, the cache still holds what the words decode to.\<close>

lemma executed_keeps_words:
  assumes ok: "sim_ok H xbytes L C t" and e: "exec_out lib (mem_of H) inst (state t) s'"
    and rv: "rv_of mbytes q s' = sim_exec L w (rv_of mbytes p (state t))"
    and wr: "sim_writes w (rv_of mbytes p (state t)) \<inter> code_bytes C = {}"
  shows "words_cached H xbytes L C (t\<lparr>state := s'\<rparr>)"
proof -
  have m: "machine_ok H t" and wc: "words_cached H xbytes L C t" using ok by (simp_all add: sim_ok_def)
  then have x: "xregs_ok (state t)" by (simp add: machine_ok_def regs_good_def)
  note fr = exec_out_frame [OF m e]
  show ?thesis
  proof (rule words_cachedI [OF wc x])
    fix a assume "a \<in> C"
    then have "rv_word (rv_of mbytes q s') a = rv_word (rv_of mbytes p (state t)) a"
      unfolding rv by (rule sim_exec_code [OF wr])
    moreover have "rv_word (rv_of mbytes 0 s') a = rv_word (rv_of mbytes q s') a"
      "rv_word (rv_of mbytes 0 (state t)) a = rv_word (rv_of mbytes p (state t)) a"
      by (rule rv_word_frame, simp)+
    ultimately show "rv_word (rv_of mbytes 0 (state (t\<lparr>state := s'\<rparr>))) a = rv_word (rv_of mbytes 0 (state t)) a"
      by simp
  qed (use fr in auto)
qed

lemma turn_any:
  assumes ok: "sim_ok H xbytes (lib_default_size lib) C t" and C: "p \<in> C"
    and w: "w = rv_word (rv_of mbytes p (state t)) p"
  shows "\<exists>d' p' t'. loop_body lib H (db_id (pc_data_buffer t), p, t) = Some (d', p', t') \<and>
    machine_ok H t' \<and> d' = db_id (pc_data_buffer t') \<and>
    rv_of mbytes p' (state t') = sim_exec (lib_default_size lib) w (rv_of mbytes p (state t)) \<and>
    counter_num_instructions t' = counter_num_instructions t + 1 \<and> run_status t' = run_status t \<and>
    (sim_writes w (rv_of mbytes p (state t)) \<inter> code_bytes C = {} \<longrightarrow> sim_ok H xbytes (lib_default_size lib) C t')"
proof -
  let ?L = "lib_default_size lib" and ?m = "rv_of mbytes p (state t)"
  obtain inst t1 where g: "GetDecodedInstruction lib H (ucast p) t = (inst, t1)"
    and f: "from_word ?L p w inst (state t1)" and iok: "inst_ok inst"
    and ok1: "sim_ok H xbytes ?L C t1" and e: "extends (state t) (state t1)"
    and xb: "xbytes (ext (t_env t1)) = xbytes (ext (t_env t))"
    by (rule fetch_any [OF ok C w [symmetric]])
  have m: "machine_ok H t" and m1: "machine_ok H t1" using ok ok1 by (simp_all add: sim_ok_def)
  then have x: "xregs_ok (state t)" by (simp add: machine_ok_def regs_good_def)
  have rv1: "rv_of mbytes q (state t1) = rv_of mbytes q (state t)" for q
    by (rule extends_rv_of [OF e x]) (simp add: xb)
  obtain s' where s': "Execute lib (mem_of H) inst (state t1) = Some s'"
    "rv_of mbytes (next_pc p (inst_size inst) (state t1) s') s' = sim_exec ?L w ?m"
    using execute_from_word [OF m1 f] rv1 by metis
  define t' where "t' = count_instruction inst (t1\<lparr>state := s'\<rparr>)"
  note out = execute_out [OF iok s'(1)]
  have m': "machine_ok H t'" using execute_ok [OF m1 iok] s'(1) by (simp add: t'_def)
  moreover have "sim_writes w ?m \<inter> code_bytes C = {} \<longrightarrow> sim_ok H xbytes ?L C t'"
    using executed_keeps_words [OF ok1 out] s'(2) rv1 m' by (auto simp: sim_ok_def t'_def words_cached_def)
  moreover have "control_same t t1" "counter_num_instructions t1 = counter_num_instructions t"
    using GetDecodedInstruction_frame [OF g] by simp_all
  moreover have "pc_data_buffer t = pc_db (state t1)" "top_pc t1 = pc_reg s'" "pc_reg (state t1) = pc_reg s'"
    using m m1 e exec_out_frame(2) [OF m1 out] xregs_okD(2) [OF x]
    by (auto simp: machine_ok_def extends_def pc_data_buffer_def ran_def)
  ultimately show ?thesis
    using s' g
    by (intro exI [of _ "db_id (pc_data_buffer t')"] exI [of _ "next_pc p (inst_size inst) (state t1) s'"] exI [of _ t'])
       (auto simp: loop_body_def next_pc_def t'_def pc_data_buffer_def Let_def control_same_def)
qed

lemma loop_follows_machine:
  assumes ok: "sim_ok H xbytes (lib_default_size lib) C t"
    and step: "sim_step (lib_default_size lib) C (rv_of mbytes p (state t)) m'"
  shows "\<exists>d' p' t'. loop_body lib H (db_id (pc_data_buffer t), p, t) = Some (d', p', t') \<and>
    sim_ok H xbytes (lib_default_size lib) C t' \<and> d' = db_id (pc_data_buffer t') \<and>
    rv_of mbytes p' (state t') = m' \<and>
    counter_num_instructions t' = counter_num_instructions t + 1 \<and> run_status t' = run_status t"
proof -
  from step obtain w where "p \<in> C" "w = rv_word (rv_of mbytes p (state t)) p"
    "sim_writes w (rv_of mbytes p (state t)) \<inter> code_bytes C = {}"
    "m' = sim_exec (lib_default_size lib) w (rv_of mbytes p (state t))"
    by (auto elim: sim_stepE)
  with turn_any [OF ok this(1,2)] show ?thesis by blast
qed

end

sublocale whole_machine \<subseteq> whole: turns lib H xbytes "sim_step (lib_default_size lib) C"
  "sim_ok H xbytes (lib_default_size lib) C" for C
proof (unfold_locales, goal_cases)
  case (1 t p m')
  then show ?case by (rule loop_follows_machine)
next
  case (2 t)
  then show ?case by (simp add: sim_ok_def machine_ok_def regs_good_def)
next
  case (3 t t')
  have ok: "machine_ok H t" and wc: "words_cached H xbytes (lib_default_size lib) C t"
    using 3(1) by (simp_all add: sim_ok_def)
  then have x: "xregs_ok (state t)" by (simp add: machine_ok_def regs_good_def)
  have r: "registers (state t') = registers (state t)" "st_pc (state t') = st_pc (state t)"
    using 3(2) by (simp_all add: same_frame_def)
  have "rv_word (rv_of mbytes 0 (state t')) a = rv_word (rv_of mbytes 0 (state t)) a" for a
    by (rule rv_word_frame) (simp add: 3(3))
  then have "words_cached H xbytes (lib_default_size lib) C t'"
    using words_cachedI [OF wc x, of t'] r 3(3) by simp
  moreover have "regs_good (state t')" using ok r by (simp add: machine_ok_def regs_good_def xregs_ok_def)
  ultimately show ?case using ok 3 r by (simp add: sim_ok_def machine_ok_def same_frame_def)
qed

section \<open>States on which programs can start\<close>

lemma uncached_sim_ok:
  "machine_ok H t \<Longrightarrow> \<forall>b. h_cached H b (ext (t_env t)) = None \<Longrightarrow> sim_ok H xbytes L C t"
  by (simp add: sim_ok_def words_cached_def)

text \<open>A new simulator, for code at any addresses.\<close>

lemma constructed_sim_ok:
  assumes "mpact_registers lib" and "\<forall>a. h_cached H a x = None" and t: "t = RV32ITop_ctor lib H x"
  shows "sim_ok H xbytes L C t"
proof -
  note c = constructed [OF assms(1) t]
  have "regs_good (state t)"
    using c(1) regs_upto_xregs_ok [OF c(1)] by (simp add: regs_good_def regs_upto_def)
  then show ?thesis
    using c assms(2) by (simp add: sim_ok_def machine_ok_def words_cached_def cache_made_def code_memory_def)
qed

section \<open>One step, whatever the word\<close>

text \<open>\<open>Step\<close> for one instruction is a turn of the loop.\<close>

lemma Step_one:
  assumes st: "run_status t = Run_kHalted" "halt_reason (t_env t) \<noteq> Halt_kSoftwareBreakpoint"
    and t0: "t0 = set_halted False (t\<lparr>run_status := Run_kSingleStep\<rparr>)"
    and b: "loop_body lib H (db_id (pc_data_buffer t0), db_get32 (pc_data_buffer t0), t0) = Some (d, p, t1)"
    and ok: "xregs_ok (state t1)" "top_pc t1 = pc_reg (state t1)"
  shows "\<exists>t'. Step lib H 1 t = Some (Inr 1, t') \<and> top_abs xbytes t' = rv_of (\<lambda>e. xbytes (ext e)) p (state t1)"
proof -
  let ?t2 = "set_pc_value p (t1\<lparr>previous_pc := Some (db_get32 (pc_data_buffer t0))\<rparr>)"
  let ?t' = "(if \<not> halted (t_env ?t2) then set_halt_reason Halt_kNone ?t2 else ?t2)\<lparr>run_status := Run_kHalted\<rparr>"
  have "Step lib H 1 t = step_rest lib H 1 0 t0" using st t0 by (simp add: Step_def)
  also have "\<dots> = Some (Inr 1, ?t')" using b by (simp add: step_rest_def Let_def)
  finally have "Step lib H 1 t = Some (Inr 1, ?t')" .
  moreover have "top_abs xbytes ?t2 = rv_of (\<lambda>e. xbytes (ext e)) p (state t1)"
    using top_abs_set_pc [of "t1\<lparr>previous_pc := Some (db_get32 (pc_data_buffer t0))\<rparr>"] ok by simp
  moreover have "top_abs xbytes ?t' = top_abs xbytes ?t2"
    unfolding top_abs_def pc_data_buffer_def by (auto intro!: rv_of_cong)
  ultimately show ?thesis by metis
qed

lemma top_abs_start:
  assumes "t0 = set_halted False (t\<lparr>run_status := Run_kSingleStep\<rparr>)"
  shows "pc_data_buffer t0 = pc_data_buffer t" "rv_of (\<lambda>e. xbytes (ext e)) (db_get32 (pc_data_buffer t)) (state t0) = top_abs xbytes t"
  unfolding assms top_abs_def by (simp_all add: pc_data_buffer_def rv_of_def)

context whole_machine
begin

lemmas Step_follows_machine = whole.Step_follows

lemma Step_executes_word:
  assumes ok: "sim_ok H xbytes (lib_default_size lib) C t" and C: "db_get32 (pc_data_buffer t) \<in> C"
    and st: "run_status t = Run_kHalted" "halt_reason (t_env t) \<noteq> Halt_kSoftwareBreakpoint"
  shows "\<exists>t'. Step lib H 1 t = Some (Inr 1, t') \<and> top_abs xbytes t' =
    sim_exec (lib_default_size lib) (rv_word (top_abs xbytes t) (rv_pc (top_abs xbytes t))) (top_abs xbytes t)"
proof -
  define t0 where "t0 = set_halted False (t\<lparr>run_status := Run_kSingleStep\<rparr>)"
  let ?a = "db_get32 (pc_data_buffer t)"
  note s = top_abs_start [OF t0_def]
  have ok0: "sim_ok H xbytes (lib_default_size lib) C t0"
    by (rule whole.inv_cong [OF ok]) (simp_all add: t0_def same_frame_def)
  obtain d p t1 where b: "loop_body lib H (db_id (pc_data_buffer t0), ?a, t0) = Some (d, p, t1)" "machine_ok H t1"
    "rv_of mbytes p (state t1) = sim_exec (lib_default_size lib) (rv_word (top_abs xbytes t) ?a) (top_abs xbytes t)"
    using turn_any [OF ok0 C refl] unfolding s by metis
  have "xregs_ok (state t1)" "top_pc t1 = pc_reg (state t1)" using b(2) by (simp_all add: machine_ok_def regs_good_def)
  from Step_one [OF st t0_def _ this, of lib H d p xbytes] b(1,3) s(1) show ?thesis
    by (simp add: top_abs_def)
qed

text \<open>An instruction that is in the decode cache stays what it was decoded from.\<close>

lemma Step_executes_cached:
  assumes ok: "machine_ok H t" and c: "h_cached H (ucast a) (ext (t_env t)) = Some inst"
    and f: "from_word (lib_default_size lib) a w inst (state t)" and a: "db_get32 (pc_data_buffer t) = a"
    and st: "run_status t = Run_kHalted" "halt_reason (t_env t) \<noteq> Halt_kSoftwareBreakpoint"
  shows "\<exists>t'. Step lib H 1 t = Some (Inr 1, t') \<and>
    top_abs xbytes t' = sim_exec (lib_default_size lib) w (top_abs xbytes t)"
proof -
  define t0 where "t0 = set_halted False (t\<lparr>run_status := Run_kSingleStep\<rparr>)"
  note s = top_abs_start [OF t0_def]
  have ok0: "machine_ok H t0" using ok by (simp add: t0_def)
  have g: "GetDecodedInstruction lib H (ucast a) t0 = (inst, t0)"
    using c by (simp add: GetDecodedInstruction_def t0_def)
  have f0: "from_word (lib_default_size lib) a w inst (state t0)"
    by (rule from_word_extends [OF f]) (use ok in \<open>simp_all add: t0_def machine_ok_def regs_good_def\<close>)
  obtain s' where s': "Execute lib (mem_of H) inst (state t0) = Some s'"
    "rv_of mbytes (next_pc a (inst_size inst) (state t0) s') s' = sim_exec (lib_default_size lib) w (top_abs xbytes t)"
    using execute_from_word [OF ok0 f0] s(2) a by metis
  define t1 where "t1 = count_instruction inst (t0\<lparr>state := s'\<rparr>)"
  have m1: "machine_ok H t1" using execute_ok [OF ok0 decode_ok(1) [OF ok0 g]] s'(1) by (simp add: t1_def)
  then have r: "xregs_ok (state t1)" "top_pc t1 = pc_reg (state t1)" by (simp_all add: machine_ok_def regs_good_def)
  have "pc_db (state t0) = pc_data_buffer t0" "pc_db s' = pc_data_buffer t1" "pc_data_buffer t1 = reg_db s' (top_pc t0)"
    using ok0 r(2) by (simp_all add: machine_ok_def pc_data_buffer_def t1_def)
  then have "loop_body lib H (db_id (pc_data_buffer t0), a, t0) =
      Some (db_id (pc_data_buffer t1), next_pc a (inst_size inst) (state t0) s', t1)"
    using s'(1) by (auto simp: loop_body_def g t1_def pc_data_buffer_def next_pc_def Let_def)
  from Step_one [OF st t0_def _ r, of lib H _ _ xbytes] this s(1) a s'(2) show ?thesis
    by (auto simp: t1_def)
qed

text \<open>\<open>WriteMemory\<close> over an instruction the cache holds: memory changes, the instruction does not.\<close>

lemma written_over_cached:
  assumes ok: "machine_ok H t" and c: "h_cached H (ucast a) (ext (t_env t)) = Some inst"
    and f: "from_word (lib_default_size lib) a w inst (state t)" and a: "db_get32 (pc_data_buffer t) = a"
    and st: "run_status t = Run_kHalted" "halt_reason (t_env t) \<noteq> Halt_kSoftwareBreakpoint"
    and wr: "WriteMemory H (ucast a) (le_bytes 4 v) t = (r, t1)"
  shows "r = Inr 4 \<and> rv_word (top_abs xbytes t1) a = v \<and> GetInstruction lib H (ucast a) t1 = (inst, t1) \<and>
    (\<exists>t2. Step lib H 1 t1 = Some (Inr 1, t2) \<and>
       top_abs xbytes t2 = sim_exec (lib_default_size lib) w (top_abs xbytes t1))"
proof -
  let ?e = "mif_store (mem_of H) (st_memory (state t)) (ucast a) (le_bytes 4 v) (t_env t)"
  have cm: "code_memory (st_memory (state t))" and x: "xregs_ok (state t)"
    using ok by (simp_all add: machine_ok_def regs_good_def)
  have t1: "r = Inr 4" "t1 = map_env (\<lambda>_. ?e) t" using wr st by (auto simp: WriteMemory_def map_env_def)
  have s1: "state t1 = (state t)\<lparr>env := ?e\<rparr>" "run_status t1 = run_status t" "top_pc t1 = top_pc t"
    "rv32_decoder t1 = rv32_decoder t"
    by (simp_all add: t1(2) map_env_def)
  have c1: "h_cached H (ucast a) (ext (t_env t1)) = Some inst"
    using c h_store_cached [OF cm, of "ucast a" "ucast a" "le_bytes 4 v" "ext (t_env t)"]
    by (simp add: s1 mem_of_def case_prod_beta)
  have "cache_made H (ext ?e)" using env_store_made ok by (simp add: machine_ok_def)
  then have ok1: "machine_ok H t1" using ok by (simp add: machine_ok_def s1)
  have f1: "from_word (lib_default_size lib) a w inst (state t1)"
    by (rule from_word_extends [OF f]) (simp_all add: s1 x)
  have pc1: "pc_data_buffer t1 = pc_data_buffer t" by (simp add: pc_data_buffer_def s1)
  have hr: "halt_reason (t_env t1) \<noteq> Halt_kSoftwareBreakpoint"
    using st(2) callbacks_requests [of "fst (h_store H (st_memory (state t)) (ucast a) (le_bytes 4 v) (ext (t_env t)))"
        "(t_env t)\<lparr>ext := snd (h_store H (st_memory (state t)) (ucast a) (le_bytes 4 v) (ext (t_env t)))\<rparr>"]
    by (auto simp: s1 mem_of_def case_prod_beta)
  have "rv_bytes (top_abs xbytes t1) a 4 = map ((!) (le_bytes 4 v)) [0..<4]"
    unfolding rv_bytes_def
    by (intro map_cong) (simp_all add: top_abs_def s1 mpact_memory.store_bytes [OF mem_of_memory [OF cm]] small_nat)
  then have "rv_bytes (top_abs xbytes t1) a 4 = le_bytes 4 v" using map_nth [of "le_bytes 4 v"] by simp
  then have "rv_word (top_abs xbytes t1) a = v" by (simp add: rv_word_def)
  moreover have "GetInstruction lib H (ucast a) t1 = (inst, t1)"
    using c1 by (simp add: GetInstruction_def GetDecodedInstruction_def)
  ultimately show ?thesis
    using t1(1) Step_executes_cached [OF ok1 c1 f1 _ _ hr] pc1 a st(1) s1(2) by simp
qed

end

end
