(* ===== verification/Reference_Platform.thy ===== *)
theory Reference_Platform
  imports Breakpoints Machine
begin

text \<open>
  One library that keeps the promises the development relies on: register objects with fresh
  identifiers, a byte-addressed memory, a decode cache, a breakpoint manager that writes
  \<^verbatim>\<open>ebreak\<close> over an instruction and keeps the original, and a watcher that requests a halt when the
  semihost address \<open>tohost\<close> is stored to. It shows that the hypotheses of the properties can hold, and is
  what their concrete instances run on.
\<close>

section \<open>Operands and registers\<close>

definition std_submit :: "dest_operand \<Rightarrow> u32 \<Rightarrow> 'e riscv_state \<Rightarrow> 'e riscv_state" where
  "std_submit d v s =
     (case d of
        DevNullOperand \<Rightarrow> s
      | RegisterDestination r l n \<Rightarrow>
          s\<lparr>reg_db := (reg_db s)(r := \<lparr>db_id = Suc (db_id (reg_db s r)), db_bytes = le_bytes 4 v\<rparr>)\<rparr>)"

definition op_source :: "instruction \<Rightarrow> nat \<Rightarrow> 'e riscv_state \<Rightarrow> u32 option" where
  "op_source inst i s = map_option (\<lambda>op. source_value op s) (Source inst i)"

definition op_dest :: "instruction \<Rightarrow> nat \<Rightarrow> u32 \<Rightarrow> 'e riscv_state \<Rightarrow> 'e riscv_state option" where
  "op_dest inst i v s = map_option (\<lambda>op. std_submit op v s) (Destination inst i)"

definition fresh_reg :: "'e riscv_state \<Rightarrow> reg_id" where
  "fresh_reg s = Suc (Max (insert 0 (ran (registers s))))"

definition std_lib :: "'e mpact" where
  "std_lib =
     \<lparr>lib_read = source_value,
      lib_submit = std_submit,
      lib_BinaryOp = (\<lambda>f inst s.
        case (op_source inst 0 s, op_source inst 1 s) of
          (Some a, Some b) \<Rightarrow> op_dest inst 0 (f a b) s | _ \<Rightarrow> None),
      lib_UnaryOp = (\<lambda>g inst s.
        case op_source inst 0 s of Some a \<Rightarrow> op_dest inst 0 (g a) s | None \<Rightarrow> None),
      lib_AddRegister = (\<lambda>name s.
        let r = fresh_reg s
        in (r, s\<lparr>registers := (registers s)(name \<mapsto> r),
                 reg_db := (reg_db s)(r := \<lparr>db_id = 0, db_bytes = le_bytes 4 (0 :: u32)\<rparr>)\<rparr>)),
      lib_AddRegisterAs = (\<lambda>name r s. s\<lparr>registers := (registers s)(name \<mapsto> r)\<rparr>),
      lib_new_db = (\<lambda>s. 1),
      lib_Raise = (\<lambda>_ _ e. e),
      lib_default_size = 4\<rparr>"

lemma fresh_reg_not_used:
  assumes "finite (dom (registers s))"
  shows "fresh_reg s \<notin> ran (registers s)"
proof
  assume "fresh_reg s \<in> ran (registers s)"
  moreover have "finite (ran (registers s))" using assms by (simp add: finite_ran)
  ultimately have "fresh_reg s \<le> Max (insert 0 (ran (registers s)))" by simp
  then show False by (simp add: fresh_reg_def)
qed

interpretation std: mpact_lib "std_lib :: 'e mpact"
proof unfold_locales
  fix s :: "'e riscv_state" and name
  assume "registers s name = None" "finite (dom (registers s))"
  then show "\<exists>r db. r \<notin> ran (registers s) \<and> length (db_bytes db) = 4 \<and>
      lib_AddRegister std_lib name s =
        (r, s\<lparr>registers := (registers s)(name \<mapsto> r), reg_db := (reg_db s)(r := db)\<rparr>)"
    using fresh_reg_not_used [of s]
    by (intro exI [of _ "fresh_reg s"] exI [of _ "\<lparr>db_id = 0, db_bytes = le_bytes 4 (0 :: u32)\<rparr>"])
       (simp add: std_lib_def Let_def)
next
  fix s :: "'e riscv_state" and r n and v :: u32
  show "\<exists>i. i \<noteq> db_id (reg_db s r) \<and>
      lib_submit std_lib (RegisterDestination r 0 n) v s =
        s\<lparr>reg_db := (reg_db s)(r := \<lparr>db_id = i, db_bytes = le_bytes 4 v\<rparr>)\<rparr>"
    by (rule exI [of _ "Suc (db_id (reg_db s r))"]) (simp add: std_lib_def std_submit_def)
qed (simp_all add: std_lib_def std_submit_def op_source_def op_dest_def GetInstructionSource_def
      SubmitDestination_def split: option.split)

section \<open>Memory, decode cache, breakpoints\<close>

record ref_world =
  rw_mem :: "u64 \<Rightarrow> u8"
  rw_cache :: "u64 \<rightharpoonup> instruction"
  rw_breaks :: "(u64 \<times> u32) list"
  rw_active :: "u64 list"
  rw_magic :: "u64 option"

definition read_bytes :: "(u64 \<Rightarrow> u8) \<Rightarrow> u64 \<Rightarrow> nat \<Rightarrow> u8 list" where
  "read_bytes m a n = map (\<lambda>i. m (a + of_nat i)) [0..<n]"

definition write_bytes :: "u64 \<Rightarrow> u8 list \<Rightarrow> (u64 \<Rightarrow> u8) \<Rightarrow> u64 \<Rightarrow> u8" where
  "write_bytes a bs m = (\<lambda>y. if unat (y - a) < length bs then bs ! unat (y - a) else m y)"

definition patch :: "u64 \<Rightarrow> u8 list \<Rightarrow> ref_world \<Rightarrow> ref_world" where
  "patch a bs x = x\<lparr>rw_mem := write_bytes a bs (rw_mem x), rw_cache := (rw_cache x)(a := None)\<rparr>"

definition ref_store :: "mem_handle \<Rightarrow> u64 \<Rightarrow> u8 list \<Rightarrow> ref_world \<Rightarrow> semihost_callback list \<times> ref_world" where
  "ref_store h a bs x =
     ((if h = WatcherMemory \<and> rw_magic x = Some a then [HaltCallback] else []),
      x\<lparr>rw_mem := write_bytes a bs (rw_mem x)\<rparr>)"

definition ref_has :: "u64 \<Rightarrow> ref_world \<Rightarrow> bool" where
  "ref_has a x \<longleftrightarrow> a AND 3 = 0 \<and> map_of (rw_breaks x) a \<noteq> None"

definition ref_set :: "u64 \<Rightarrow> ref_world \<Rightarrow> status \<times> ref_world" where
  "ref_set a x =
     (if a AND 3 \<noteq> 0 then (InvalidArgumentError ''misaligned breakpoint'', x)
      else if ref_has a x then (InternalError ''breakpoint already set'', x)
      else
        (OkStatus,
         patch a (le_bytes 4 ebreak_word)
           (x\<lparr>rw_breaks := (a, word_at (rw_mem x) a) # rw_breaks x, rw_active := a # rw_active x\<rparr>)))"

definition ref_enable :: "u64 \<Rightarrow> ref_world \<Rightarrow> status \<times> ref_world" where
  "ref_enable a x =
     (if ref_has a x
      then (OkStatus, patch a (le_bytes 4 ebreak_word) (x\<lparr>rw_active := a # rw_active x\<rparr>))
      else (NotFoundError ''no breakpoint'', x))"

definition ref_disable :: "u64 \<Rightarrow> ref_world \<Rightarrow> status \<times> ref_world" where
  "ref_disable a x =
     (if ref_has a x
      then (OkStatus, patch a (le_bytes 4 (the (map_of (rw_breaks x) a)))
              (x\<lparr>rw_active := removeAll a (rw_active x)\<rparr>))
      else (NotFoundError ''no breakpoint'', x))"

definition ref_clear :: "u64 \<Rightarrow> ref_world \<Rightarrow> status \<times> ref_world" where
  "ref_clear a x =
     (case ref_disable a x of
        (OkStatus, x') \<Rightarrow> (OkStatus, x'\<lparr>rw_breaks := filter (\<lambda>p. fst p \<noteq> a) (rw_breaks x')\<rparr>)
      | (st, x') \<Rightarrow> (st, x'))"

definition ref_host :: "ref_world host" where
  "ref_host =
     \<lparr>h_load = (\<lambda>h a n c x.
        \<lparr>hr_data = read_bytes (rw_mem x) a n, hr_child = c, hr_callbacks = [], hr_ext = x\<rparr>),
      h_store = ref_store,
      h_cached = (\<lambda>a x. rw_cache x a),
      h_cache = (\<lambda>a inst x. x\<lparr>rw_cache := (rw_cache x)(a \<mapsto> inst)\<rparr>),
      h_HasBreakpoint = ref_has,
      h_IsBreakpoint = (\<lambda>a x. a \<in> set (rw_active x)),
      h_SetBreakpoint = ref_set,
      h_ClearBreakpoint = ref_clear,
      h_ClearAllBreakpoints = (\<lambda>x. fold (\<lambda>p y. snd (ref_clear (fst p) y)) (rw_breaks x) x),
      h_EnableBreakpoint = ref_enable,
      h_DisableBreakpoint = ref_disable,
      h_SemiHost = (\<lambda>m x. x\<lparr>rw_magic := Some (tohost m)\<rparr>),
      h_AsString = (\<lambda>inst. hex_str (unat (inst_address inst)))\<rparr>"

interpretation ref: host_memory ref_host rw_mem
  by unfold_locales
     (auto simp: ref_host_def read_bytes_def write_bytes_def ref_store_def split: if_splits)

interpretation ref_sim: simulator "std_lib" ref_host rw_mem
  by unfold_locales

interpretation ref_machine: rv32_machine std_lib "mem_of ref_host" FlatMemory "\<lambda>e. rw_mem (ext e)"
  by unfold_locales

text \<open>Patching an instruction only drops cache entries.\<close>

lemma patch_hit: "rw_cache (patch a bs x) b = Some j \<Longrightarrow> rw_cache x b = Some j"
  by (auto simp: patch_def split: if_splits)

lemma ref_disable_hit: "rw_cache (snd (ref_disable a x)) b = Some j \<Longrightarrow> rw_cache x b = Some j"
  by (auto simp: ref_disable_def split: if_splits dest!: patch_hit)

lemma ref_clear_hit: "rw_cache (snd (ref_clear a x)) b = Some j \<Longrightarrow> rw_cache x b = Some j"
  using ref_disable_hit [of a x b j]
  by (auto simp: ref_clear_def split: prod.splits status.splits)

lemma ref_clear_all_hit:
  "rw_cache (fold (\<lambda>p y. snd (ref_clear (fst p) y)) ps x) b = Some j \<Longrightarrow> rw_cache x b = Some j"
  by (induction ps arbitrary: x) (auto dest: ref_clear_hit)

interpretation ref_cache: decode_cache "std_lib" ref_host
  by unfold_locales
     (auto simp: ref_host_def std_lib_def ref_store_def ref_enable_def ref_set_def
        split: if_splits option.splits dest: patch_hit ref_disable_hit ref_clear_hit ref_clear_all_hit)

interpretation ref_core: core std_lib ref_host
  by unfold_locales

interpretation ref_whole: whole_machine std_lib ref_host rw_mem
  by unfold_locales (simp add: std_lib_def)

section \<open>Breakpoints\<close>

text \<open>The program's memory: the saved word where a breakpoint is set.\<close>

definition ref_orig :: "ref_world \<Rightarrow> u64 \<Rightarrow> u8" where
  "ref_orig x y =
     (case map_of (rw_breaks x) (y AND NOT 3) of
        Some w \<Rightarrow> le_bytes 4 w ! unat (y AND 3)
      | None \<Rightarrow> rw_mem x y)"

lemma ref_orig_cache [simp]: "ref_orig (x\<lparr>rw_cache := c\<rparr>) = ref_orig x"
  by (simp add: ref_orig_def fun_eq_iff cong: option.case_cong)

lemma write_word:
  assumes "a AND 3 = 0"
  shows "write_bytes a (le_bytes 4 w) m y =
    (if y AND NOT 3 = a then le_bytes 4 w ! unat (y AND 3) else m y)"
  using in_word_iff [OF assms, of y] in_word(2) [OF assms, of "y - a"] by (auto simp: write_bytes_def)

lemma word_at_bytes:
  assumes "a AND 3 = 0" and "\<And>i. i < 4 \<Longrightarrow> m (a + of_nat i) = le_bytes 4 w ! i"
  shows "word_at m a = w"
proof -
  have "map (\<lambda>i. m (a + of_nat i)) [0..<4] = map (\<lambda>i. le_bytes 4 w ! i) [0..<4]"
    using assms(2) by (intro map_cong) auto
  also have "\<dots> = le_bytes 4 w" using map_nth [of "le_bytes 4 w"] by simp
  finally show ?thesis by (simp add: word_at_def)
qed

lemma word_at_written:
  assumes "a AND 3 = 0"
  shows "word_at (write_bytes a (le_bytes 4 w) m) a = w"
  using assms by (intro word_at_bytes) (simp_all add: write_word offset_in_word small_nat)

lemma word_at_byte:
  assumes "a AND 3 = 0" and "y AND NOT 3 = a"
  shows "le_bytes 4 (word_at m a) ! unat (y AND 3) = m y"
proof -
  have u: "unat (y - a) < 4" using in_word_iff [OF assms(1)] assms(2) by blast
  have y3: "y AND 3 = y - a" using in_word(2) [OF assms(1) u] by simp
  let ?bs = "map (\<lambda>i. m (a + of_nat i)) [0..<4]"
  have "le_bytes 4 (le_word ?bs :: u32) = ?bs"
    by (rule le_bytes_le_word32) simp
  then have "le_bytes 4 (word_at m a) ! unat (y - a) = ?bs ! unat (y - a)" by (simp add: word_at_def)
  also have "\<dots> = m y" using u by simp
  finally show ?thesis by (simp add: y3)
qed

lemma patch_simps [simp]:
  "rw_mem (patch a bs x) = write_bytes a bs (rw_mem x)" "rw_cache (patch a bs x) = (rw_cache x)(a := None)"
  "rw_breaks (patch a bs x) = rw_breaks x" "rw_active (patch a bs x) = rw_active x"
  by (simp_all add: patch_def)

lemma orig_patch:
  assumes "ref_has a x"
  shows "ref_orig (patch a (le_bytes 4 w) (x\<lparr>rw_active := l\<rparr>)) = ref_orig x"
  using assms by (auto simp: ref_orig_def fun_eq_iff ref_has_def write_word split: option.split)

lemma orig_word: "ref_has a x \<Longrightarrow> word_at (ref_orig x) a = the (map_of (rw_breaks x) a)"
  by (rule word_at_bytes) (auto simp: ref_has_def ref_orig_def offset_in_word small_nat)

lemma orig_set:
  assumes "a AND 3 = 0" and "\<not> ref_has a x"
  shows "ref_orig (patch a (le_bytes 4 w) (x\<lparr>rw_breaks := (a, word_at (rw_mem x) a) # rw_breaks x, rw_active := l\<rparr>)) =
    ref_orig x"
proof
  fix y
  show "ref_orig (patch a (le_bytes 4 w) (x\<lparr>rw_breaks := (a, word_at (rw_mem x) a) # rw_breaks x, rw_active := l\<rparr>)) y =
    ref_orig x y"
    using assms word_at_byte [OF assms(1), of y "rw_mem x"]
    by (cases "y AND NOT 3 = a") (auto simp: ref_orig_def ref_has_def write_word split: option.split)
qed

interpretation ref_bp: breakpoint_manager ref_host rw_mem ref_orig
proof unfold_locales
  fix a x x'
  assume "h_SetBreakpoint ref_host a x = (OkStatus, x')"
  then have a: "a AND 3 = 0" and n: "\<not> ref_has a x"
    and x': "x' = patch a (le_bytes 4 ebreak_word)
      (x\<lparr>rw_breaks := (a, word_at (rw_mem x) a) # rw_breaks x, rw_active := a # rw_active x\<rparr>)"
    by (auto simp: ref_host_def ref_set_def split: if_splits)
  show "h_HasBreakpoint ref_host a x' \<and> word_at (rw_mem x') a = ebreak_word \<and>
      h_cached ref_host a x' = None \<and> ref_orig x' = ref_orig x"
    unfolding x' orig_set [OF a n] using a by (simp add: ref_host_def ref_has_def word_at_written)
next
  fix a x
  assume "h_HasBreakpoint ref_host a x"
  then have h: "ref_has a x" and a: "a AND 3 = 0" by (simp_all add: ref_host_def ref_has_def)
  let ?d = "patch a (le_bytes 4 (the (map_of (rw_breaks x) a))) (x\<lparr>rw_active := removeAll a (rw_active x)\<rparr>)"
  have "h_DisableBreakpoint ref_host a x = (OkStatus, ?d)" using h by (simp add: ref_host_def ref_disable_def)
  then show "\<exists>x'. h_DisableBreakpoint ref_host a x = (OkStatus, x') \<and>
      word_at (rw_mem x') a = word_at (ref_orig x) a \<and> h_cached ref_host a x' = None \<and>
      h_HasBreakpoint ref_host a x' \<and> ref_orig x' = ref_orig x"
    using h a by (intro exI [of _ ?d]) (simp add: orig_patch orig_word word_at_written ref_host_def ref_has_def)
  let ?e = "patch a (le_bytes 4 ebreak_word) (x\<lparr>rw_active := a # rw_active x\<rparr>)"
  have "h_EnableBreakpoint ref_host a x = (OkStatus, ?e)" using h by (simp add: ref_host_def ref_enable_def)
  then show "\<exists>x'. h_EnableBreakpoint ref_host a x = (OkStatus, x') \<and>
      word_at (rw_mem x') a = ebreak_word \<and> h_cached ref_host a x' = None \<and>
      h_HasBreakpoint ref_host a x' \<and> ref_orig x' = ref_orig x"
    using h a by (intro exI [of _ ?e]) (simp add: orig_patch word_at_written ref_host_def ref_has_def)
qed (simp_all add: ref_host_def ref_has_def ref_store_def)

interpretation ref_debugger: debugger std_lib ref_host rw_mem ref_orig
  by unfold_locales

interpretation ref_session: debug_session std_lib ref_host rw_mem ref_orig
  by unfold_locales

section \<open>A small program\<close>

text \<open>\<^verbatim>\<open>addi x1, x0, 5; add x2, x1, x1; sw x2, 64(x0)\<close>, at address 0.\<close>

definition demo_program :: "rv_inst list" where
  "demo_program = [OP_IMM I_ADDI 1 0 5, OP A_ADD 2 1 1, STORE M_SW 0 2 64]"

definition demo_world :: ref_world where
  "demo_world =
     \<lparr>rw_mem = write_bytes 0 (concat (map (\<lambda>i. le_bytes 4 (encode i)) demo_program)) (\<lambda>_. 0),
      rw_cache = Map.empty, rw_breaks = [], rw_active = [], rw_magic = None\<rparr>"

definition demo_top :: "ref_world top" where
  "demo_top = RV32ITop_ctor std_lib ref_host demo_world"

lemmas demo_constructed = constructed [OF std.mpact_registers_axioms demo_top_def]

lemma demo_top_ok: "top_ok ref_host rw_mem L C demo_top"
  using demo_constructed regs_upto_xregs_ok [OF demo_constructed(1)]
  by (simp add: top_ok_def cache_ok_def code_memory_def ref_host_def demo_world_def)

lemma concat_words_nth:
  "k < length ws \<Longrightarrow> i < 4 \<Longrightarrow> concat (map (le_bytes 4) ws) ! (4 * k + i) = le_bytes 4 (ws ! k) ! i"
proof (induction ws arbitrary: k)
  case (Cons w ws)
  then show ?case by (cases k) (simp_all add: nth_append)
qed simp

lemma read_word_written:
  fixes ws :: "u32 list"
  assumes "k < length ws" and "length ws < 2 ^ 20"
    and "rv_mem m = write_bytes 0 (concat (map (le_bytes 4) ws)) m0"
  shows "rv_word m (of_nat (4 * k)) = ws ! k"
proof -
  have a: "unat (ucast (of_nat (4 * k) :: u32) + of_nat i :: u64) = 4 * k + i" if "i < 4" for i
  proof -
    have "4 * k < 2 ^ 32" "4 * k < 2 ^ 64" using assms(1,2) by simp_all
    then have "take_bit 32 (4 * k) = 4 * k" "take_bit 64 (4 * k) = 4 * k"
      by (simp_all only: take_bit_nat_eq_self)
    then have "(ucast (of_nat (4 * k) :: u32) :: u64) = of_nat (4 * k)"
      by (simp add: word_unat_eq_iff unsigned_ucast_eq unsigned_of_nat
          del: of_nat_mult of_nat_numeral)
    then have "ucast (of_nat (4 * k) :: u32) + of_nat i = (of_nat (4 * k + i) :: u64)" by simp
    then show ?thesis
      using that assms(1,2) by (simp only: unat_of_nat) (simp add: take_bit_nat_eq_self_iff)
  qed
  have len: "length (concat (map (le_bytes 4) ws)) = 4 * length ws"
    by (induction ws) simp_all
  have "rv_bytes m (of_nat (4 * k)) 4 = map (\<lambda>i. le_bytes 4 (ws ! k) ! i) [0..<4]"
    unfolding rv_bytes_def assms(3)
  proof (rule map_cong [OF refl])
    fix i :: nat assume "i \<in> set [0..<4]"
    then show "write_bytes 0 (concat (map (le_bytes 4) ws)) m0 (ucast (of_nat (4 * k) :: u32) + of_nat i) =
        le_bytes 4 (ws ! k) ! i"
      using a [of i] concat_words_nth [OF assms(1), of i] len assms(1) by (simp add: write_bytes_def)
  qed
  also have "\<dots> = le_bytes 4 (ws ! k)"
    using map_nth [of "le_bytes 4 (ws ! k)"] by simp
  finally show ?thesis by (simp add: rv_word_def)
qed

lemma demo_words:
  assumes "rv_mem m = rw_mem demo_world"
  shows "rv_word m 0 = encode (OP_IMM I_ADDI 1 0 5)" "rv_word m 4 = encode (OP A_ADD 2 1 1)"
    "rv_word m 8 = encode (STORE M_SW 0 2 64)"
proof -
  let ?ws = "map encode demo_program"
  have m: "rv_mem m = write_bytes 0 (concat (map (le_bytes 4) ?ws)) (\<lambda>_. 0)"
    using assms by (simp add: demo_world_def comp_def)
  show "rv_word m 0 = encode (OP_IMM I_ADDI 1 0 5)" "rv_word m 4 = encode (OP A_ADD 2 1 1)"
    "rv_word m 8 = encode (STORE M_SW 0 2 64)"
    using read_word_written [OF _ _ m, of 0] read_word_written [OF _ _ m, of 1]
      read_word_written [OF _ _ m, of 2]
    by (simp_all add: demo_program_def del: encode.simps)
qed

lemma less_4_cases: "k < 4 \<longleftrightarrow> k = 0 \<or> k = 1 \<or> k = 2 \<or> k = (3 :: nat)"
  by auto

lemma demo_run_from:
  assumes mem: "rv_mem m0 = rw_mem demo_world" and pc: "rv_pc m0 = 0" and x0: "rv_x m0 0 = 0"
  shows "\<exists>m. (rv_step {0, 4, 8} ^^ 2) m0 m \<and> rv_step {0, 4, 8} m (rv_exec (STORE M_SW 0 2 64) m) \<and>
    rv_mem m = rw_mem demo_world \<and> rv_pc m = 8 \<and> rv_x m 0 = 0"
proof -
  let ?m1 = "rv_exec (OP_IMM I_ADDI 1 0 5) m0"
  let ?m2 = "rv_exec (OP A_ADD 2 1 1) ?m1"
  have 1: "rv_step {0, 4, 8} m0 ?m1"
    by (rule rv_step.step) (use mem pc demo_words(1) in simp_all)
  have m1: "rv_mem ?m1 = rw_mem demo_world" "rv_pc ?m1 = 4" "rv_x ?m1 0 = 0"
    using mem pc x0 by (simp_all add: rv_next_def rv_set_def)
  have 2: "rv_step {0, 4, 8} ?m1 ?m2"
    by (rule rv_step.step) (use m1 demo_words(2) [OF m1(1)] in simp_all)
  have m2: "rv_mem ?m2 = rw_mem demo_world" "rv_pc ?m2 = 8" "rv_x ?m2 0 = 0"
    using m1 by (simp_all add: rv_next_def rv_set_def)
  have "rv_step {0, 4, 8} ?m2 (rv_exec (STORE M_SW 0 2 64) ?m2)"
    by (rule rv_step.step) (use m2 demo_words(3) [OF m2(1)] in \<open>auto simp: code_bytes_def less_4_cases\<close>)
  moreover have "(rv_step {0, 4, 8} ^^ 2) m0 ?m2" using 1 2 by (auto simp: eval_nat_numeral)
  ultimately show ?thesis using m2 by blast
qed

lemma demo_run: "\<exists>m. (rv_step {0, 4, 8} ^^ 3) (top_abs rw_mem demo_top) m"
proof -
  let ?m0 = "top_abs rw_mem demo_top"
  have "rv_mem ?m0 = rw_mem demo_world" "rv_pc ?m0 = 0" "rv_x ?m0 0 = 0"
    by (simp_all add: top_abs_def demo_constructed xval_def)
  from demo_run_from [OF this] obtain m m' where "(rv_step {0, 4, 8} ^^ 2) ?m0 m" "rv_step {0, 4, 8} m m'" by blast
  then have "(rv_step {0, 4, 8} ^^ Suc 2) ?m0 m'" by (rule relpowp_Suc_I)
  then show ?thesis by (simp only: eval_nat_numeral) blast
qed

section \<open>Single words\<close>

lemma demo_xregs_ok: "xregs_ok (state demo_top)"
  by (rule regs_upto_xregs_ok [OF demo_constructed(1)])

lemma demo_regs_good: "regs_good (state demo_top)"
  using demo_constructed(1) demo_xregs_ok by (simp add: regs_good_def regs_upto_def)

text \<open>Past the program the memory is zero, and a zero word has no opcode.\<close>

lemma demo_zero: "12 \<le> unat a \<Longrightarrow> rw_mem demo_world a = 0"
  by (simp add: demo_world_def write_bytes_def demo_program_def)

lemma decode_zero: "DecodeRiscVInst32 0 = kNone"
  by (rule decode_none_by_opcode; case_tac op; simp add: bits_at_def)

text \<open>\<^verbatim>\<open>csrr x0, 0\<close> at address 0.\<close>

definition csr_state :: "ref_world top_env riscv_state" where
  "csr_state = (state demo_top)\<lparr>env := (t_env demo_top)
     \<lparr>ext := demo_world\<lparr>rw_mem := (\<lambda>a. if a = 0 then 0x73 else if a = 1 then 0x20 else 0)\<rparr>\<rparr>\<rparr>"

lemma csr_state_good: "regs_good csr_state"
  by (simp add: csr_state_def demo_regs_good)

lemma csr_state_word:
  "DecodeRiscVInst32 (le_word (map (\<lambda>i. rw_mem (ext (env csr_state)) (of_nat i)) [0..<4])) = kCsrsNw"
  by (simp add: csr_state_def upt_rec decode_pattern bits_at_def)

end
