(* ===== verification/Decoder_Properties.thy ===== *)
theory Decoder_Properties
  imports Disassembly Word_Reader Fetch Reference_Platform
begin

text \<open>
  What the decoders guarantee: the decoder tables against the encodings of the manual, and the
  instruction objects the full decoder hands to the simulator.
\<close>

section \<open>The binary decoder\<close>

text \<open>C8: decoding inverts encoding. The opcode and the fields the binary decoder finds in a word
  make up an instruction of the base ISA exactly when the word is the manual's encoding of that
  instruction; in particular no two instructions share a word and no field loses bits.\<close>

theorem inst_of_iff: "inst_of w = Some i \<longleftrightarrow> w = encode i"
  using inst_of_base base_opcode_encoding inst_of_encode by (metis option.inject)

text \<open>C31: the entries of the instruction group are disjoint, so a decoder may test them in any
  order and with any repetition: it finds the same opcode.\<close>

theorem decode_order_independent:
  assumes "set es = set RiscVInst32"
  shows "(case find (matches w) es of None \<Rightarrow> kNone | Some e \<Rightarrow> e_opcode e) = DecodeRiscVInst32 w"
proof (cases "find (matches w) es")
  case None
  then have "\<forall>e \<in> set RiscVInst32. \<not> matches w e" using assms by (auto dest: find_NoneD)
  with None decode_none_iff [of w] show ?thesis by simp
next
  case (Some e)
  then have "e \<in> set RiscVInst32" "matches w e" using assms by (auto dest: find_SomeD)
  with Some show ?thesis by (simp add: decode_of_match)
qed

theorem decode_order_independent_witness:
  "set (rev RiscVInst32) = set RiscVInst32 \<and>
   (case find (matches 0x00100073) (rev RiscVInst32) of None \<Rightarrow> kNone | Some e \<Rightarrow> e_opcode e) =
     DecodeRiscVInst32 0x00100073"
  using decode_order_independent [of "rev RiscVInst32" "0x00100073"] by simp

text \<open>The decoder tables are well formed and fit together. Every format is 32 bits wide and its
  overlays fill their fields; every constraint names a field of its format and compares it with a
  value of its width; every opcode of the instruction set description has exactly one entry. A
  disassembly template names operands of its opcode only, and shows all of them but the pc, except
  those of \<open>fence\<close> and \<open>csrs\<close>.\<close>

theorem decoder_tables_well_formed:
  "list_all format_ok all_formats \<and> list_all entry_ok RiscVInst32 \<and>
   distinct (map e_opcode RiscVInst32) \<and> set (map e_opcode RiscVInst32) = UNIV - {kNone} \<and>
   (\<forall>op. disasm_names op \<subseteq> operand_names op) \<and>
   {op. \<not> operand_names op \<subseteq> insert ''next_pc'' (disasm_names op)} = {kFence, kCsrs}"
  using formats_ok entries_ok group_opcode_set mask_table_opcodes(1) disasm_names_operands
    incomplete_templates
  by (simp add: all_formats_def group_opcodes)

text \<open>C32: the fields the encoding hands out are in range: register numbers index the 32 registers
  and their names, the immediates are sign-extended from 12, 12, 13 and 21 bits, and the offsets
  of branches and jumps are even.\<close>

theorem field_ranges:
  "unat (ExtractRd w) < length xreg_alias \<and> unat (ExtractRs1 w) < length xreg_alias \<and>
   unat (ExtractRs2 w) < length xreg_alias \<and> unat (ExtractUimm5 w) < 32 \<and>
   sint (ExtractImm12 w) \<in> {-2048..2047} \<and> sint (ExtractSImm w) \<in> {-2048..2047} \<and>
   sint (ExtractBImm w) \<in> {-4096..4094} \<and> even (sint (ExtractBImm w)) \<and>
   sint (ExtractJImm w) \<in> {-1048576..1048574} \<and> even (sint (ExtractJImm w))"
proof -
  have e: "x \<le> m \<Longrightarrow> even x \<Longrightarrow> odd m \<Longrightarrow> x \<le> m - 1" for x m :: int by (cases "x = m") auto
  show ?thesis
    using imm_bounds [of w] branch_offsets_even [of w] Extract_reg_bounds [of w]
      e [of "sint (ExtractBImm w)" 4095] e [of "sint (ExtractJImm w)" 1048575]
    by (simp add: length_xreg_alias)
qed

text \<open>C33: six instructions of RV32I have no entry: \<open>slt\<close>, \<open>srl\<close> and \<open>sra\<close> on registers,
  \<open>slti\<close>, \<open>sltiu\<close> and \<open>ecall\<close>. Every such word decodes to no opcode.\<close>

theorem undecoded_rv32i_words:
  "DecodeRiscVInst32 (enc_R 0 rs2 rs1 2 rd 0x33) = kNone \<and>
   DecodeRiscVInst32 (enc_R 0 rs2 rs1 5 rd 0x33) = kNone \<and>
   DecodeRiscVInst32 (enc_R 32 rs2 rs1 5 rd 0x33) = kNone \<and>
   DecodeRiscVInst32 (enc_I imm rs1 2 rd 0x13) = kNone \<and>
   DecodeRiscVInst32 (enc_I imm rs1 3 rd 0x13) = kNone \<and>
   DecodeRiscVInst32 (enc_I 0 0 0 0 0x73) = kNone"
  by (intro conjI; rule decode_none_by_opcode; case_tac op;
      simp add: enc_R_fields enc_I_fields; simp add: enc_I_def place_def bits_at_def)

section \<open>Decoded instructions\<close>

text \<open>C19: no instruction the full decoder makes, from any word at all, reads a missing operand when
  it executes: execution returns, and all it does is one of five things: write registers, store,
  load and write registers, raise an illegal-instruction error, or call the breakpoint handlers.\<close>

theorem decoded_instruction_executes:
  assumes "mpact_operands lib" and "DecodeInstruction lib mem dec a s = (inst, dec', s')"
  shows "\<exists>u'. Execute lib mem inst u = Some u' \<and> exec_out lib mem inst u u'"
  using mpact_operands.inst_ok_runs [OF assms(1) decoded_inst_ok(1) [OF assms(2)], of mem u]
    mpact_operands.execute_out [OF assms(1) decoded_inst_ok(1) [OF assms(2)], of mem u]
  by blast

theorem decoded_instruction_executes_witness:
  "\<exists>u'. Execute std_lib (mem_of ref_host)
       (fst (DecodeInstruction std_lib (mem_of ref_host) (rv32_decoder demo_top) 4 (state demo_top)))
       (state demo_top) = Some u' \<and> exec_out std_lib (mem_of ref_host)
       (fst (DecodeInstruction std_lib (mem_of ref_host) (rv32_decoder demo_top) 4 (state demo_top))) (state demo_top) u'"
proof -
  obtain inst dec' s' where d: "DecodeInstruction std_lib (mem_of ref_host) (rv32_decoder demo_top) 4
      (state demo_top) = (inst, dec', s')" by (rule prod_cases3)
  show ?thesis
    unfolding d by (simp add: decoded_instruction_executes [OF std.mpact_operands_axioms d])
qed

text \<open>The instruction \<open>jalr\<close> does not clear the lowest bit of its target, as the manual demands: with an odd
  sum of base and offset the simulator goes on at the odd address, the manual at the even one.\<close>

theorem jalr_keeps_odd_target:
  assumes "mpact_operands lib" and ok: "xregs_ok s" and "odd (xval s (unat rs1) + scast imm)"
  shows "\<exists>s'. Execute lib mem (word_inst L pc (JALR rd rs1 imm) s) s = Some s' \<and>
    next_pc pc 4 s s' = xval s (unat rs1) + scast imm \<and>
    next_pc pc 4 s s' \<noteq> rv_pc (rv_exec (JALR rd rs1 imm) (rv_of bytes pc s))"
proof -
  obtain s' where s': "Execute lib mem (word_inst L pc (JALR rd rs1 imm) s) s = Some s'"
    "next_pc pc 4 s s' = xval s (unat rs1) + scast imm"
    using mpact_operands.jalr_target [OF assms(1) ok, of mem L pc rd rs1 imm] by blast
  have "\<not> bit (v AND NOT 1 :: u32) 0" for v by (simp only: bit_simps) simp
  then have "(v AND NOT 1 :: u32) \<noteq> v" if "odd v" for v
    using that by (metis bit_0)
  note ne = this [OF assms(3)]
  have "rv_pc (rv_exec (JALR rd rs1 imm) (rv_of bytes pc s)) = (xval s (unat rs1) + scast imm) AND NOT 1"
    by simp
  with s' ne show ?thesis by metis
qed

theorem jalr_keeps_odd_target_witness:
  "\<exists>s'. Execute std_lib (mem_of ref_host) (word_inst 4 0 (JALR 1 0 5) (state demo_top)) (state demo_top) = Some s' \<and>
    next_pc 0 4 (state demo_top) s' = 5 \<and>
    next_pc 0 4 (state demo_top) s' \<noteq> rv_pc (rv_exec (JALR 1 0 5) (top_abs rw_mem demo_top))"
proof -
  have "odd (xval (state demo_top) (unat (0 :: regnum)) + scast (5 :: 12 word))" by (simp add: xval_def)
  from jalr_keeps_odd_target [OF std.mpact_operands_axioms demo_xregs_ok this, of "mem_of ref_host" 4 0 1 "\<lambda>e. rw_mem (ext e)"]
  show ?thesis by (simp add: xval_def top_abs_def demo_constructed)
qed

text \<open>The CSR instructions are stubs. Decoding one may enter a register \<open>CSR\<close> into the register
  table, and keeps every register that was there; executing it changes nothing.\<close>

theorem csr_instructions_do_nothing:
  assumes "mpact_registers lib" and "regs_good s"
    and "DecodeInstruction lib mem dec a s = (inst, dec', s')" and "csr_op (inst_opcode inst)"
  shows "Execute lib mem inst u = Some u \<and> inst_size inst = 4 \<and> regs_good s' \<and>
    registers s \<subseteq>\<^sub>m registers s' \<and> (\<forall>r \<in> ran (registers s). reg_db s' r = reg_db s r)"
  using decoded_csr_nop [OF assms(3,4)] mpact_registers.decoded_keeps [OF assms(1,2,3)] by simp

theorem csr_instructions_do_nothing_witness:
  "\<exists>inst dec' s'. DecodeInstruction std_lib (mem_of ref_host) (rv32_decoder demo_top) 0 csr_state = (inst, dec', s') \<and>
     Execute std_lib (mem_of ref_host) inst s' = Some s' \<and> registers csr_state \<subseteq>\<^sub>m registers s'"
proof -
  obtain inst dec' s' where d: "DecodeInstruction std_lib (mem_of ref_host) (rv32_decoder demo_top) 0
      csr_state = (inst, dec', s')" by (rule prod_cases3)
  have "csr_op (inst_opcode inst)"
    using ref.flat.decoded_opcode [OF _ d] by (simp add: demo_constructed csr_state_word csr_op_def)
  then show ?thesis
    using csr_instructions_do_nothing [OF std.mpact_registers_axioms csr_state_good d, of s'] d
    by simp
qed

text \<open>A word without an opcode becomes an illegal instruction: executing it raises the
  internal error of the program error controller, with the address in hexadecimal, logs it, and
  does nothing else. In particular it does not halt the simulator.\<close>

theorem undecoded_word_is_illegal:
  assumes "mpact_memory mem h bytes" and "dec_memory dec = h"
    and "DecodeRiscVInst32 (le_word (map (\<lambda>i. bytes (env s) (a + of_nat i)) [0..<4])) = kNone"
    and "DecodeInstruction lib mem dec a s = (inst, dec', s')"
  shows "Execute lib mem inst u =
    Some (u\<lparr>env := lib_Raise lib kInternalErrorName (''Illegal instruction at '' @ hex_str (unat a)) (env u),
           slog := slog u @ [LogIllegalInstruction a]\<rparr>)"
  using decoded_illegal [OF assms(4)] mpact_memory.decoded_opcode [OF assms(1,2,4)] assms(3)
  by (simp add: RV32IllegalInstruction_def)

theorem undecoded_word_is_illegal_witness:
  "\<exists>inst dec' s'. DecodeInstruction std_lib (mem_of ref_host) (rv32_decoder demo_top) 64 (state demo_top) = (inst, dec', s') \<and>
     Execute std_lib (mem_of ref_host) inst (state demo_top) =
       Some ((state demo_top)\<lparr>env := t_env demo_top,
         slog := slog (state demo_top) @ [LogIllegalInstruction 64]\<rparr>)"
proof -
  obtain inst dec' s' where d: "DecodeInstruction std_lib (mem_of ref_host) (rv32_decoder demo_top) 64
      (state demo_top) = (inst, dec', s')" by (rule prod_cases3)
  have z: "DecodeRiscVInst32 (le_word (map (\<lambda>i. rw_mem (ext (t_env demo_top)) (64 + of_nat i)) [0..<4])) = kNone"
    by (simp add: demo_constructed demo_zero upt_rec decode_zero)
  have "lib_Raise (std_lib :: ref_world top_env mpact) n m e = e" for n m e by (simp add: std_lib_def)
  then show ?thesis
    using d undecoded_word_is_illegal [OF ref.flat.mpact_memory_axioms _ z d, of "state demo_top"]
    by (simp add: demo_constructed)
qed

end
