(* ===== verification/Run_Thread.thy ===== *)
theory Run_Thread
  imports Control
begin

text \<open>
  The thread of \<open>Run\<close>: it executes what as many turns of \<open>Step\<close> would, and what it leaves when
  a halt is requested before its first turn.
\<close>

section \<open>Run against Step\<close>

text \<open>The thread of \<open>Run\<close> executes what as many turns of \<open>Step\<close> would.\<close>

lemma run_loop_step_loop:
  assumes "run_loop lib H fuel pc (d, p, t) = Some (pc', d', p', t')"
  shows "\<exists>j < fuel. step_loop lib H j count pc (d, p, t) = Some (count + int j, pc', d', p', t') \<and>
    halted (t_env t')"
  using assms
proof (induction fuel arbitrary: count pc d p t)
  case (Suc fuel)
  show ?case
  proof (cases "halted (t_env t)")
    case True
    then show ?thesis using Suc.prems by (intro exI [of _ 0]) auto
  next
    case False
    then obtain d1 p1 t1 where b: "loop_body lib H (d, p, t) = Some (d1, p1, t1)"
      "run_loop lib H fuel (Some p) (d1, p1, t1) = Some (pc', d', p', t')"
      using Suc.prems by (auto split: option.splits)
    from Suc.IH [OF b(2), of "count + 1"] obtain j where j: "j < fuel"
      "step_loop lib H j (count + 1) (Some p) (d1, p1, t1) = Some (count + 1 + int j, pc', d', p', t')"
      "halted (t_env t')"
      by blast
    show ?thesis
    proof (cases "halted (t_env t1)")
      case True
      then have "pc' = Some p \<and> d' = d1 \<and> p' = p1 \<and> t' = t1"
        using b(2) j(1) by (cases fuel) auto
      then show ?thesis using b(1) True j(1) by (intro exI [of _ 1]) auto
    next
      case False
      then show ?thesis using b(1) j by (intro exI [of _ "Suc j"]) (auto simp: algebra_simps)
    qed
  qed
qed simp

lemma run_loop_control: "run_loop lib H fuel pc (d, p, t) = Some (pc', d', p', t') \<Longrightarrow> control_same t t'"
proof (induction fuel arbitrary: pc d p t)
  case (Suc fuel)
  show ?case
  proof (cases "halted (t_env t)")
    case False
    then obtain d1 p1 t1 where b: "loop_body lib H (d, p, t) = Some (d1, p1, t1)"
      "run_loop lib H fuel (Some p) (d1, p1, t1) = Some (pc', d', p', t')"
      using Suc.prems by (auto split: option.splits)
    from control_same_trans [OF loop_body_counts(1) [OF b(1)] Suc.IH [OF b(2)]] show ?thesis .
  qed (use Suc.prems in simp)
qed simp

lemma run_thread_halt_first:
  assumes "halted (t_env t)" and "run_halted t = Some False"
  shows "run_thread lib H (Suc 0) t =
    Some ((set_pc_value (db_get32 (pc_data_buffer t)) (t\<lparr>previous_pc := None\<rparr>))
      \<lparr>run_status := Run_kHalted, run_halted := Some True\<rparr>)"
  using assms by (simp add: run_thread_def Let_def set_pc_value_def)

section \<open>Run is a long Step\<close>

text \<open>The loops do not look at the members that tell the run control apart.\<close>

definition retag :: "RunStatus \<Rightarrow> bool option \<Rightarrow> 'x top \<Rightarrow> 'x top" where
  "retag st rh t = t\<lparr>run_status := st, run_halted := rh\<rparr>"

lemma retag_simps [simp]:
  "state (retag st rh t) = state t" "top_pc (retag st rh t) = top_pc t"
  "rv32_decoder (retag st rh t) = rv32_decoder t"
  "pc_data_buffer (retag st rh t) = pc_data_buffer t"
  "(retag st rh t)\<lparr>state := s\<rparr> = retag st rh (t\<lparr>state := s\<rparr>)"
  "count_instruction inst (retag st rh t) = retag st rh (count_instruction inst t)"
  by (simp_all add: retag_def pc_data_buffer_def count_instruction_def)

lemma GetDecodedInstruction_retag:
  "GetDecodedInstruction lib H a (retag st rh t) =
     map_prod id (retag st rh) (GetDecodedInstruction lib H a t)"
  by (simp add: GetDecodedInstruction_def retag_def Let_def set_ext_def map_env_def
      split: option.split prod.split)

lemma loop_body_retag:
  "loop_body lib H (d, p, retag st rh t) =
     map_option (\<lambda>(d, p, t). (d, p, retag st rh t)) (loop_body lib H (d, p, t))"
proof -
  obtain inst t1 where g: "GetDecodedInstruction lib H (ucast p) t = (inst, t1)" by fastforce
  then have "GetDecodedInstruction lib H (ucast p) (retag st rh t) = (inst, retag st rh t1)"
    by (simp add: GetDecodedInstruction_retag)
  with g show ?thesis
    by (cases "Execute lib (mem_of H) inst (state t1)") (simp_all add: loop_body_def Let_def)
qed

lemma step_loop_retag:
  "step_loop lib H n count pc (d, p, retag st rh t) =
     map_option (\<lambda>(c, pc, d, p, t). (c, pc, d, p, retag st rh t)) (step_loop lib H n count pc (d, p, t))"
  by (induction n arbitrary: count pc d p t)
     (auto simp: loop_body_retag split: option.split)

text \<open>One turn at least: \<open>Run\<close> clears the halt flag before it starts the thread.\<close>

lemma run_loop_step_loop_pos:
  assumes "run_loop lib H fuel pc (d, p, t) = Some (pc', d', p', t')" and "\<not> halted (t_env t)"
  shows "\<exists>j. 0 < j \<and> j < fuel \<and> halted (t_env t') \<and>
    step_loop lib H j count pc (d, p, t) = Some (count + int j, pc', d', p', t')"
proof -
  obtain j where j: "j < fuel" "halted (t_env t')"
    "step_loop lib H j count pc (d, p, t) = Some (count + int j, pc', d', p', t')"
    using run_loop_step_loop [OF assms(1), of count] by blast
  then have "j \<noteq> 0" using assms(2) by (intro notI) simp
  with j show ?thesis by blast
qed

lemma run_thread_step_rest:
  assumes t: "t1 = set_halted False (t\<lparr>run_status := st, run_halted := rh\<rparr>)"
    and r: "run_thread lib H fuel t1 = Some t2"
  shows "\<exists>j t'. 0 < j \<and> j < fuel \<and>
    step_rest lib H (int j) 0 (set_halted False (t\<lparr>run_status := Run_kSingleStep\<rparr>)) = Some (Inr (int j), t') \<and>
    t2 = t'\<lparr>run_halted := Some True\<rparr>"
proof -
  let ?t0 = "set_halted False (t\<lparr>run_status := Run_kSingleStep\<rparr>)"
  have t1: "t1 = retag st rh ?t0" by (simp add: t retag_def set_halted_def map_env_def)
  let ?db = "pc_data_buffer ?t0"
  obtain pc' d' p' u where l: "run_loop lib H fuel None (db_id ?db, db_get32 ?db, t1) = Some (pc', d', p', u)"
    "t2 = (set_pc_value p' (u\<lparr>previous_pc := pc'\<rparr>))\<lparr>run_status := Run_kHalted, run_halted := Some True\<rparr>"
    using r by (auto simp: run_thread_Some t1)
  obtain j where j: "0 < j" "j < fuel" "halted (t_env u)"
    "step_loop lib H j 0 None (db_id ?db, db_get32 ?db, retag st rh ?t0) = Some (int j, pc', d', p', u)"
    using run_loop_step_loop_pos [OF l(1), of 0] by (auto simp: t1 set_halted_def map_env_def)
  then obtain v where v: "step_loop lib H j 0 None (db_id ?db, db_get32 ?db, ?t0) = Some (int j, pc', d', p', v)"
    "u = retag st rh v"
    by (auto simp: step_loop_retag)
  let ?t' = "(set_pc_value p' (v\<lparr>previous_pc := pc'\<rparr>))\<lparr>run_status := Run_kHalted\<rparr>"
  have "step_rest lib H (int j) 0 ?t0 = Some (Inr (int j), ?t')"
    using v(1) j(3) by (simp add: step_rest_def Let_def v(2) set_pc_value_def)
  moreover have "t2 = ?t'\<lparr>run_halted := Some True\<rparr>"
    by (simp add: l(2) v(2) retag_def set_pc_value_def pc_data_buffer_def)
  ultimately show ?thesis using j by blast
qed

end
