(* ===== verification/Session.thy ===== *)
theory Session
  imports Run_Thread Reachable
begin

text \<open>
  The simulator as it runs under \<^verbatim>\<open>other/rv32i_sim.cc\<close>: a client that calls the interface, the
  control-C handler that may call \<open>Halt\<close> at any time, and the detached threads \<open>Run\<close> starts. The
  operations are split where another party can see what they have done so far: \<open>Run\<close> between the
  store of the run status and the start of its thread, \<open>Wait\<close> where it blocks, \<open>Halt\<close> between its
  test of the run status and its two stores, the thread at the
  test of the halt flag, at the store of the run status and at the notification. The flag, the
  halt reason and the run status are all that a running thread shares with \<open>Halt\<close>. No instruction
  reads them, but an \<^verbatim>\<open>ebreak\<close> at a breakpoint and a store that the semihost answers write the reason
  and the flag; the test of the flag and the turn after it are one step here, so that a \<open>Halt\<close>
  that falls inside the turn of such an instruction is not among the interleavings.
\<close>

section \<open>Parties and steps\<close>

text \<open>Where a thread is: before its first turn, at the test of the halt flag with its local
  variables \<^verbatim>\<open>pc\<close>, \<^verbatim>\<open>pc_db\<close> and \<^verbatim>\<open>next_pc\<close>, before \<^verbatim>\<open>run_status_ = kHalted\<close>, before
  \<^verbatim>\<open>run_halted_->Notify()\<close>, ended.\<close>

datatype run_position =
    T_start
  | T_loop "u32 option" nat u32
  | T_status
  | T_notify
  | T_done

text \<open>Where the client is: between calls, in \<open>Run\<close> after the run status has been set, blocked in
  \<open>Wait\<close>.\<close>

datatype client_position = C_idle | C_starting | C_waiting

text \<open>Where a call of \<open>Halt\<close> is that has been interrupted: it has found the core running, it has
  stored the reason.\<close>

datatype halt_position = H_none | H_accepted | H_reason_stored

record 'x session =
  s_top :: "'x top"
  client :: client_position
  halt_call :: halt_position
  threads :: "run_position list"
  crashed :: bool

text \<open>One step of a thread; \<open>None\<close> is undefined behaviour: notifying through the null pointer that
  \<open>Wait\<close> leaves, or notifying an object a second time (\<^verbatim>\<open>absl::Notification::Notify\<close> may be called
  once). A thread that stops before its first turn copies the uninitialised \<^verbatim>\<open>pc\<close>, here \<open>None\<close>.\<close>

fun thread_step ::
  "'x top_env mpact \<Rightarrow> 'x host \<Rightarrow> run_position \<Rightarrow> 'x top \<Rightarrow> (run_position \<times> 'x top) option" where
  "thread_step lib H T_start t =
     (let db = pc_data_buffer t in Some (T_loop None (db_id db) (db_get32 db), t))"
| "thread_step lib H (T_loop pc d p) t =
     (if halted (t_env t) then Some (T_status, set_pc_value p (t\<lparr>previous_pc := pc\<rparr>))
      else map_option (\<lambda>(d', p', t'). (T_loop (Some p) d' p', t'))
             (loop_body lib H (d, p, t)))"
| "thread_step lib H T_status t = Some (T_notify, t\<lparr>run_status := Run_kHalted\<rparr>)"
| "thread_step lib H T_notify t =
     (if run_halted t = Some False then Some (T_done, t\<lparr>run_halted := Some True\<rparr>) else None)"
| "thread_step lib H T_done t = Some (T_done, t)"

text \<open>\<open>Run\<close> in two parts: up to \<^verbatim>\<open>run_status_ = RunStatus::kRunning\<close>, and clearing the halt flag and
  allocating the notification object.\<close>

definition Run_prepare ::
  "'x top_env mpact \<Rightarrow> 'x host \<Rightarrow> 'x top \<Rightarrow> ((status + unit) \<times> 'x top) option" where
  "Run_prepare lib H t =
     (if run_status t = Run_kRunning
        then Some (Inl (FailedPreconditionError ''RV32ITop::Run: core is already running''), t)
      else do {
        (r, t) \<leftarrow> (if halt_reason (t_env t) = Halt_kSoftwareBreakpoint
                  then step_over_breakpoint lib H t else Some (Inr (), t));
        case r of
          Inl st \<Rightarrow> Some (Inl st, t)
        | Inr _ \<Rightarrow> Some (Inr (), t\<lparr>run_status := Run_kRunning\<rparr>)
      })"

definition Run_launch :: "'x top \<Rightarrow> 'x top" where
  "Run_launch t = (set_halted False t)\<lparr>run_halted := Some False\<rparr>"

lemma Run_in_parts:
  "Run lib H t =
     map_option (\<lambda>(r, t'). case r of Inl st \<Rightarrow> (st, t') | Inr _ \<Rightarrow> (OkStatus, Run_launch t'))
       (Run_prepare lib H t)"
  by (auto simp: Run_def Run_prepare_def Run_launch_def bind_eq_Some_conv
      split: sum.split Option.bind_split)

text \<open>Calls that the client makes between runs or that refuse during one. \<open>GetInstruction\<close> is not
  guarded by the code; it is called on a halted core.\<close>

inductive client_call :: "'x top_env mpact \<Rightarrow> 'x host \<Rightarrow> 'x top \<Rightarrow> 'x top \<Rightarrow> bool" for lib H where
  "Step lib H num t = Some (r, t') \<Longrightarrow> client_call lib H t t'"
| "WriteRegister name v t = (st, t') \<Longrightarrow> client_call lib H t t'"
| "ReadMemory H a n t = (mr, t') \<Longrightarrow> client_call lib H t t'"
| "WriteMemory H a bs t = (mw, t') \<Longrightarrow> client_call lib H t t'"
| "SetSwBreakpoint H a t = (st, t') \<Longrightarrow> client_call lib H t t'"
| "ClearSwBreakpoint H a t = (st, t') \<Longrightarrow> client_call lib H t t'"
| "ClearAllSwBreakpoints H t = (st, t') \<Longrightarrow> client_call lib H t t'"
| "run_status t = Run_kHalted \<Longrightarrow> GetInstruction lib H a t = (inst, t') \<Longrightarrow> client_call lib H t t'"
| "GetDisassembly lib H a t = (d, t') \<Longrightarrow> client_call lib H t t'"
| "SetUpSemiHosting H magic t = (st, t') \<Longrightarrow> client_call lib H t t'"

lemma client_call_call: "client_call lib H t t' \<Longrightarrow> call lib H t t'"
  by (induction rule: client_call.induct) (rule call.intros; assumption)+

text \<open>\<open>Halt\<close> in three parts: the tests of the run status, the store of the reason, the store of the
  flag.\<close>

fun Halt_part :: "halt_position \<Rightarrow> 'x top \<Rightarrow> halt_position \<times> 'x top" where
  "Halt_part H_none t = (if run_status t = Run_kRunning then H_accepted else H_none, t)"
| "Halt_part H_accepted t = (H_reason_stored, set_halt_reason Halt_kUserRequest t)"
| "Halt_part H_reason_stored t = (H_none, set_halted True t)"

lemma Halt_in_parts:
  "snd (Halt t) =
     (let (h, t) = Halt_part H_none t in
      if h = H_none then t else (let (h, t) = Halt_part h t; (h, t) = Halt_part h t in t))"
  by (simp add: Halt_def)

text \<open>\<open>Handler\<close> is a call of \<open>Halt\<close> from the signal handler or another thread that nobody
  interrupts, \<open>Handler_part\<close> a part of one that other parties may interrupt.\<close>

datatype actor = Client | Handler | Handler_part | Thread nat

inductive session_step ::
  "'x top_env mpact \<Rightarrow> 'x host \<Rightarrow> actor \<Rightarrow> 'x session \<Rightarrow> 'x session \<Rightarrow> bool" for lib H where
  client_calls: "\<not> crashed s \<Longrightarrow> client s = C_idle \<Longrightarrow> client_call lib H (s_top s) t' \<Longrightarrow>
     session_step lib H Client s (s\<lparr>s_top := t'\<rparr>)"
| client_undefined: "\<not> crashed s \<Longrightarrow> client s = C_idle \<Longrightarrow>
     Step lib H num (s_top s) = None \<or> Run_prepare lib H (s_top s) = None \<Longrightarrow>
     session_step lib H Client s (s\<lparr>crashed := True\<rparr>)"
| run_returns: "\<not> crashed s \<Longrightarrow> client s = C_idle \<Longrightarrow> Run_prepare lib H (s_top s) = Some (Inl st, t') \<Longrightarrow>
     session_step lib H Client s (s\<lparr>s_top := t'\<rparr>)"
| run_accepted: "\<not> crashed s \<Longrightarrow> client s = C_idle \<Longrightarrow> Run_prepare lib H (s_top s) = Some (Inr (), t') \<Longrightarrow>
     session_step lib H Client s (s\<lparr>s_top := t', client := C_starting\<rparr>)"
| run_started: "\<not> crashed s \<Longrightarrow> client s = C_starting \<Longrightarrow>
     session_step lib H Client s
       (s\<lparr>s_top := Run_launch (s_top s), client := C_idle, threads := threads s @ [T_start]\<rparr>)"
| wait_returns: "\<not> crashed s \<Longrightarrow> client s = C_idle \<Longrightarrow> run_status (s_top s) \<noteq> Run_kRunning \<Longrightarrow>
     session_step lib H Client s (s\<lparr>s_top := (s_top s)\<lparr>run_halted := None\<rparr>\<rparr>)"
| wait_blocks: "\<not> crashed s \<Longrightarrow> client s = C_idle \<Longrightarrow> run_status (s_top s) = Run_kRunning \<Longrightarrow>
     session_step lib H Client s (s\<lparr>client := C_waiting\<rparr>)"
| wait_notified: "\<not> crashed s \<Longrightarrow> client s = C_waiting \<Longrightarrow> run_halted (s_top s) = Some True \<Longrightarrow>
     session_step lib H Client s (s\<lparr>s_top := (s_top s)\<lparr>run_halted := None\<rparr>, client := C_idle\<rparr>)"
| wait_null: "\<not> crashed s \<Longrightarrow> client s = C_waiting \<Longrightarrow> run_halted (s_top s) = None \<Longrightarrow>
     session_step lib H Client s (s\<lparr>crashed := True\<rparr>)"
| halt_request: "\<not> crashed s \<Longrightarrow> Halt (s_top s) = (st, t') \<Longrightarrow>
     session_step lib H Handler s (s\<lparr>s_top := t'\<rparr>)"
| halt_part: "\<not> crashed s \<Longrightarrow> Halt_part (halt_call s) (s_top s) = (h, t') \<Longrightarrow>
     session_step lib H Handler_part s (s\<lparr>s_top := t', halt_call := h\<rparr>)"
| thread_turn: "\<not> crashed s \<Longrightarrow> i < length (threads s) \<Longrightarrow>
     thread_step lib H (threads s ! i) (s_top s) = Some (p, t') \<Longrightarrow>
     session_step lib H (Thread i) s (s\<lparr>s_top := t', threads := (threads s)[i := p]\<rparr>)"
| thread_undefined: "\<not> crashed s \<Longrightarrow> i < length (threads s) \<Longrightarrow>
     thread_step lib H (threads s ! i) (s_top s) = None \<Longrightarrow>
     session_step lib H (Thread i) s (s\<lparr>crashed := True\<rparr>)"

inductive session_run ::
  "'x top_env mpact \<Rightarrow> 'x host \<Rightarrow> actor list \<Rightarrow> 'x session \<Rightarrow> 'x session \<Rightarrow> bool" for lib H where
  run_nil: "session_run lib H [] s s"
| run_cons: "session_step lib H a s u \<Longrightarrow> session_run lib H as u v \<Longrightarrow> session_run lib H (a # as) s v"

text \<open>A session starts with a halted simulator that no thread uses, such as a new one.\<close>

definition new_session :: "'x top \<Rightarrow> 'x session" where
  "new_session t = \<lparr>s_top = t, client = C_idle, halt_call = H_none, threads = [], crashed = False\<rparr>"

inductive session_reachable :: "'x top_env mpact \<Rightarrow> 'x host \<Rightarrow> 'x session \<Rightarrow> bool" for lib H where
  started: "(\<And>a. h_cached H a x = None) \<Longrightarrow> session_reachable lib H (new_session (RV32ITop_ctor lib H x))"
| stepped: "session_reachable lib H s \<Longrightarrow> session_step lib H a s s' \<Longrightarrow> session_reachable lib H s'"

inductive_cases session_stepE: "session_step lib H a s s'"
inductive_cases thread_stepE: "session_step lib H (Thread i) s s'"
inductive_simps session_run_simps [simp]:
  "session_run lib H [] s s'" "session_run lib H (a # as) s s'"

lemma session_run_append:
  "session_run lib H (as @ bs) s s' \<longleftrightarrow>
     (\<exists>u. session_run lib H as s u \<and> session_run lib H bs u s')"
  by (induction as arbitrary: s) auto

end
