(* ===== verification/Session_Library.thy ===== *)
theory Session_Library
  imports Session
begin

text \<open>
  What holds in every state of a session: at most one thread executes instructions, exactly while
  the run status says so; nothing but the notification can fail; a requested halt ends the run.
\<close>

section \<open>Counting threads\<close>

fun active :: "run_position \<Rightarrow> bool" where
  "active T_notify = False"
| "active T_done = False"
| "active p = True"

lemma length_filter_update:
  "i < length xs \<Longrightarrow>
   length (filter P (xs[i := x])) + (if P (xs ! i) then 1 else 0) = length (filter P xs) + (if P x then 1 else 0)"
proof (induction xs arbitrary: i)
  case (Cons y ys)
  then show ?case by (cases i) auto
qed simp

lemma length_filter_pos: "i < length xs \<Longrightarrow> P (xs ! i) \<Longrightarrow> 0 < length (filter P xs)"
  by (auto simp: filter_empty_conv)

lemma filter_singleton_unique:
  assumes "length (filter P xs) \<le> 1" and "i < length xs" "P (xs ! i)" and "j < length xs" "P (xs ! j)"
  shows "i = j"
proof (rule ccontr)
  assume "i \<noteq> j"
  then have "{i, j} \<subseteq> {k. k < length xs \<and> P (xs ! k)}" and "card {i, j} = 2" using assms by auto
  then have "2 \<le> length (filter P xs)"
    using card_mono [of "{k. k < length xs \<and> P (xs ! k)}" "{i, j}"] by (simp add: length_filter_conv_card)
  with assms(1) show False by simp
qed

section \<open>The invariant\<close>

text \<open>A thread that may leave the breakpoint reason behind has a \<open>pc\<close> to leave with it.\<close>

fun pc_known :: "'x top \<Rightarrow> run_position \<Rightarrow> bool" where
  "pc_known t T_start = (halt_reason (t_env t) \<noteq> Halt_kSoftwareBreakpoint)"
| "pc_known t (T_loop pc d p) = (pc = None \<longrightarrow> halt_reason (t_env t) \<noteq> Halt_kSoftwareBreakpoint)"
| "pc_known t T_status = (halt_reason (t_env t) = Halt_kSoftwareBreakpoint \<longrightarrow> previous_pc t \<noteq> None)"
| "pc_known t p = True"

lemma pc_known_inactive: "\<not> active p \<Longrightarrow> pc_known t p"
  by (cases p) simp_all

lemma pc_known_cong:
  "pc_known t p \<Longrightarrow> previous_pc t' = previous_pc t \<Longrightarrow>
   (halt_reason (t_env t') = Halt_kSoftwareBreakpoint \<Longrightarrow> halt_reason (t_env t) = Halt_kSoftwareBreakpoint) \<Longrightarrow>
   pc_known t' p"
  by (cases p) auto

definition client_ok :: "client_position \<Rightarrow> 'x top \<Rightarrow> bool" where
  "client_ok c t \<longleftrightarrow>
     (c = C_starting \<longrightarrow> halt_reason (t_env t) \<noteq> Halt_kSoftwareBreakpoint) \<and>
     (run_status t \<noteq> Run_kRunning \<longrightarrow> halt_reason (t_env t) = Halt_kSoftwareBreakpoint \<longrightarrow> previous_pc t \<noteq> None)"

definition running_parties :: "'x session \<Rightarrow> nat" where
  "running_parties s = length (filter active (threads s)) + (if client s = C_starting then 1 else 0)"

definition session_ok :: "'x host \<Rightarrow> 'x session \<Rightarrow> bool" where
  "session_ok H s \<longleftrightarrow>
     machine_ok H (s_top s) \<and> counters_ok (s_top s) \<and> client_ok (client s) (s_top s) \<and>
     list_all (pc_known (s_top s)) (threads s) \<and>
     running_parties s = (if run_status (s_top s) = Run_kRunning then 1 else 0)"

lemma session_okD:
  assumes "session_ok H s"
  shows "machine_ok H (s_top s)" "counters_ok (s_top s)" "client_ok (client s) (s_top s)"
    "list_all (pc_known (s_top s)) (threads s)"
    "running_parties s = (if run_status (s_top s) = Run_kRunning then 1 else 0)"
  using assms by (simp_all add: session_ok_def)

lemma active_thread_running:
  assumes "session_ok H s" and "i < length (threads s)" and "active (threads s ! i)"
  shows "run_status (s_top s) = Run_kRunning" "client s \<noteq> C_starting"
    "\<And>j. j < length (threads s) \<Longrightarrow> j \<noteq> i \<Longrightarrow> \<not> active (threads s ! j)"
proof -
  have r: "running_parties s = (if run_status (s_top s) = Run_kRunning then 1 else 0)"
    using assms(1) by (rule session_okD)
  have p: "0 < length (filter active (threads s))" using length_filter_pos [of i "threads s" active] assms(2,3) by simp
  show "run_status (s_top s) = Run_kRunning" "client s \<noteq> C_starting"
    using r p by (auto simp: running_parties_def split: if_splits)
  have "length (filter active (threads s)) \<le> 1"
    using r by (auto simp: running_parties_def split: if_splits)
  then show "\<not> active (threads s ! j)" if "j < length (threads s)" "j \<noteq> i" for j
    using filter_singleton_unique [of active "threads s" i j] assms(2,3) that by blast
qed

lemma halted_no_active:
  assumes "session_ok H s" and "run_status (s_top s) \<noteq> Run_kRunning"
  shows "client s \<noteq> C_starting" "list_all (pc_known t) (threads s)"
proof -
  have r: "running_parties s = 0" using session_okD(5) [OF assms(1)] assms(2) by simp
  then show "client s \<noteq> C_starting" by (auto simp: running_parties_def split: if_splits)
  from r have "\<forall>p \<in> set (threads s). \<not> active p" by (simp add: running_parties_def filter_empty_conv)
  then show "list_all (pc_known t) (threads s)" by (simp add: list_all_iff pc_known_inactive)
qed

lemma halted_core_ok:
  "session_ok H s \<Longrightarrow> run_status (s_top s) \<noteq> Run_kRunning \<Longrightarrow> core_ok H (s_top s)"
  by (auto simp: session_ok_def core_ok_def client_ok_def)

section \<open>Client calls\<close>

lemma step_rest_Inr: "step_rest lib H num count t = Some (r, t') \<Longrightarrow> \<exists>c. r = Inr c"
  by (auto simp: step_rest_def Let_def bind_eq_Some_conv)

lemma Step_not_running:
  assumes "Step lib H num t = Some (r, t')" and "run_status t \<noteq> Run_kRunning"
  shows "run_status t' \<noteq> Run_kRunning"
proof (cases "num \<le> 0 \<or> run_status t \<noteq> Run_kHalted")
  case True
  then show ?thesis using assms by (auto simp: Step_def split: if_splits)
next
  case False
  show ?thesis
  proof (cases r)
    case (Inr c)
    then show ?thesis using Step_counts [of lib H num t c t'] assms by simp
  next
    case (Inl st)
    let ?t0 = "set_halted False (t\<lparr>run_status := Run_kSingleStep\<rparr>)"
    have "halt_reason (t_env t) = Halt_kSoftwareBreakpoint"
      using assms(1) False Inl step_rest_Inr [of lib H num 0 ?t0 r t'] by (auto simp: Step_def Let_def split: if_splits)
    then obtain a t1 where a: "step_over_breakpoint lib H ?t0 = Some (a, t1)"
      "(case a of Inl st \<Rightarrow> Some (Inl st, t1) | Inr _ \<Rightarrow> step_rest lib H num 1 t1) = Some (r, t')"
      using assms(1) False by (auto simp: Step_def Let_def bind_eq_Some_conv)
    then have "step_over_breakpoint lib H ?t0 = Some (Inl st, t')"
      using Inl step_rest_Inr [of lib H num 1 t1 r t'] by (cases a) auto
    then show ?thesis using step_over_breakpoint_counts(1) [of lib H ?t0] by (auto simp: control_same_def set_halted_def map_env_def)
  qed
qed

lemma client_ok_call:
  "core_ok H t' \<Longrightarrow> c \<noteq> C_starting \<Longrightarrow> client_ok c t'"
  by (simp add: client_ok_def core_ok_def)

lemma session_ok_top:
  assumes "session_ok H s" and "run_status (s_top s) \<noteq> Run_kRunning" and "core_ok H t'"
    and "run_status t' \<noteq> Run_kRunning"
  shows "session_ok H (s\<lparr>s_top := t'\<rparr>)"
  using assms halted_no_active [OF assms(1,2)]
  by (auto simp: session_ok_def core_ok_def client_ok_def running_parties_def split: if_splits)

context core
begin

lemma client_call_quiet:
  assumes "client_call lib H t t'" and "machine_ok H t"
  shows "quiet H t t' \<or> (\<exists>num r. Step lib H num t = Some (r, t'))"
  using assms
proof cases
  case (8 a inst)
  then show ?thesis
    using GetInstruction_quiet [of t a inst t'] assms(2) by (simp add: GetInstruction_def)
next
  case (9 a d)
  then show ?thesis using GetDisassembly_quiet [OF assms(2)] by blast
qed (auto dest: WriteRegister_quiet ReadMemory_quiet WriteMemory_quiet breakpoint_calls_quiet SetUpSemiHosting_quiet)

lemma client_call_ok:
  assumes ok: "session_ok H s" and c: "client_call lib H (s_top s) t'"
  shows "session_ok H (s\<lparr>s_top := t'\<rparr>)"
proof (cases "run_status (s_top s) = Run_kRunning")
  case True
  have t': "quiet H (s_top s) t'"
    using client_call_quiet [OF c session_okD(1) [OF ok]] True
    by (auto simp: Step_def split: if_splits)
  then have e: "t_env t' = t_env (s_top s)" "previous_pc t' = previous_pc (s_top s)"
    "run_status t' = Run_kRunning" "machine_ok H t'" "counters_ok t'"
    using True session_okD [OF ok] by (auto simp: quiet_def counters_ok_def)
  have "list_all (pc_known t') (threads s)"
    using session_okD(4) [OF ok] e by (auto simp: list_all_iff intro: pc_known_cong [of "s_top s"])
  then show ?thesis using ok e True by (simp add: session_ok_def client_ok_def running_parties_def)
next
  case False
  have "core_ok H t'" by (rule call_ok [OF client_call_call [OF c] halted_core_ok [OF ok False]])
  moreover have "run_status t' \<noteq> Run_kRunning"
    using client_call_quiet [OF c session_okD(1) [OF ok]] False by (auto simp: quiet_def dest: Step_not_running)
  ultimately show ?thesis by (rule session_ok_top [OF ok False])
qed

lemma Run_prepare_total:
  assumes "core_ok H t"
  shows "\<exists>r t'. Run_prepare lib H t = Some (r, t')"
  using Run_total [OF assms] by (auto simp: Run_in_parts)

lemma Run_prepare_ok:
  assumes "core_ok H t" and "run_status t \<noteq> Run_kRunning" and r: "Run_prepare lib H t = Some (r, t')"
  shows "machine_ok H t'" "counters_ok t'"
    "r = Inr u \<Longrightarrow> run_status t' = Run_kRunning \<and> halt_reason (t_env t') \<noteq> Halt_kSoftwareBreakpoint"
    "r = Inl st \<Longrightarrow> run_status t' \<noteq> Run_kRunning \<and> previous_pc t' \<noteq> None"
proof -
  have base: "machine_ok H t' \<and> counters_ok t' \<and>
      (\<forall>u. r = Inr u \<longrightarrow> run_status t' = Run_kRunning \<and> halt_reason (t_env t') \<noteq> Halt_kSoftwareBreakpoint) \<and>
      (\<forall>st. r = Inl st \<longrightarrow> run_status t' \<noteq> Run_kRunning \<and> previous_pc t' \<noteq> None)"
  proof (cases "halt_reason (t_env t) = Halt_kSoftwareBreakpoint")
    case False
    then show ?thesis using assms by (auto simp: Run_prepare_def core_ok_def counters_ok_def)
  next
    case True
    then have m: "machine_ok H t" and pp: "previous_pc t \<noteq> None" using assms(1) by (simp_all add: core_ok_def)
    obtain a t1 where a: "step_over_breakpoint lib H t = Some (a, t1)" "machine_ok H t1"
      using step_over_total [OF m pp] by blast
    note sc = step_over_breakpoint_counts [OF a(1)]
    have "counters_ok t1" using counted_ok [OF sc(2)] assms(1) by (simp add: core_ok_def)
    then show ?thesis
      using r a True assms(2) pp sc
      by (cases a) (auto simp: Run_prepare_def control_same_def counters_ok_def)
  qed
  then show "machine_ok H t'" "counters_ok t'"
    "r = Inr u \<Longrightarrow> run_status t' = Run_kRunning \<and> halt_reason (t_env t') \<noteq> Halt_kSoftwareBreakpoint"
    "r = Inl st \<Longrightarrow> run_status t' \<noteq> Run_kRunning \<and> previous_pc t' \<noteq> None"
    by blast+
qed

end

section \<open>The other parties\<close>

lemma active_turn_ok:
  assumes ok: "session_ok H s" and i: "i < length (threads s)" "active (threads s ! i)"
    and t: "machine_ok H t'" "counters_ok t'" "pc_known t' p"
    and st: "run_status t' = Run_kRunning \<longleftrightarrow> active p"
    and bp: "\<not> active p \<Longrightarrow> halt_reason (t_env t') = Halt_kSoftwareBreakpoint \<Longrightarrow> previous_pc t' \<noteq> None"
  shows "session_ok H (s\<lparr>s_top := t', threads := (threads s)[i := p]\<rparr>)"
proof -
  note a = active_thread_running [OF ok i]
  have "pc_known t' ((threads s)[i := p] ! j)" if "j < length (threads s)" for j
    using a(3) [OF that] t(3) that by (cases "j = i") (simp_all add: pc_known_inactive)
  then have k: "list_all (pc_known t') ((threads s)[i := p])" by (simp add: list_all_length)
  have "running_parties s = 1" using session_okD(5) [OF ok] a(1) by simp
  then have "length (filter active ((threads s)[i := p])) = (if active p then 1 else 0)"
    using length_filter_update [OF i(1), of active p] i(2) a(2) by (simp add: running_parties_def split: if_splits)
  then show ?thesis
    using t k st bp a(2) by (simp add: session_ok_def client_ok_def running_parties_def)
qed

lemma idle_turn_ok:
  assumes ok: "session_ok H s" and i: "i < length (threads s)" "\<not> active (threads s ! i)"
  shows "session_ok H (s\<lparr>s_top := (s_top s)\<lparr>run_halted := b\<rparr>, threads := (threads s)[i := T_done]\<rparr>)"
proof -
  let ?t = "(s_top s)\<lparr>run_halted := b\<rparr>"
  have "pc_known ?t q = pc_known (s_top s) q" for q by (cases q) simp_all
  then have "list_all (pc_known ?t) ((threads s)[i := T_done])"
    using session_okD(4) [OF ok] i(1) by (auto simp: list_all_length nth_list_update)
  moreover have "length (filter active ((threads s)[i := T_done])) = length (filter active (threads s))"
    using length_filter_update [OF i(1), of active T_done] i(2) by simp
  ultimately show ?thesis
    using ok by (simp add: session_ok_def client_ok_def counters_ok_def running_parties_def)
qed

lemma halt_request_ok:
  assumes ok: "session_ok H s" and h: "Halt (s_top s) = (st, t')"
  shows "session_ok H (s\<lparr>s_top := t'\<rparr>)"
proof (cases "t' = s_top s")
  case True
  then show ?thesis using ok by simp
next
  case False
  then have t': "t' = set_halted True (set_halt_reason Halt_kUserRequest (s_top s))" "run_status (s_top s) = Run_kRunning"
    using h by (auto simp: Halt_def split: if_splits)
  have e: "halt_reason (t_env t') = Halt_kUserRequest" "run_status t' = Run_kRunning"
    using t' by (simp_all add: set_halted_def set_halt_reason_def map_env_def)
  have "pc_known t' q" for q using e by (cases q) simp_all
  then have "list_all (pc_known t') (threads s)" by (simp add: list_all_iff)
  moreover have "machine_ok H t'" "counters_ok t'"
    using ok t'(1) by (simp_all add: session_ok_def counters_ok_def set_halted_def set_halt_reason_def map_env_def)
      (simp add: machine_ok_def)
  ultimately show ?thesis
    using ok e t'(2) by (simp add: session_ok_def client_ok_def running_parties_def)
qed

lemma halt_part_ok:
  assumes ok: "session_ok H s" and h: "Halt_part (halt_call s) (s_top s) = (h, t')"
  shows "session_ok H (s\<lparr>s_top := t', halt_call := h\<rparr>)"
proof -
  have t': "t' = s_top s \<or> t' = set_halt_reason Halt_kUserRequest (s_top s) \<or> t' = set_halted True (s_top s)"
    using h by (cases "halt_call s") auto
  have "pc_known t' q" if "pc_known (s_top s) q" for q
    using that t' by (cases q) (auto simp: set_halted_def set_halt_reason_def map_env_def)
  then have "list_all (pc_known t') (threads s)" using session_okD(4) [OF ok] by (auto simp: list_all_iff)
  moreover have "machine_ok H t'" "counters_ok t'" "run_status t' = run_status (s_top s)" "client_ok (client s) t'"
    using ok t' by (auto simp: session_ok_def counters_ok_def client_ok_def)
      (auto simp: set_halted_def set_halt_reason_def map_env_def)
  ultimately show ?thesis
    using ok by (simp add: session_ok_def running_parties_def)
qed

lemma run_started_ok:
  assumes ok: "session_ok H s" and c: "client s = C_starting"
  shows "session_ok H (s\<lparr>s_top := Run_launch (s_top s), client := C_idle, threads := threads s @ [T_start]\<rparr>)"
proof -
  have r: "run_status (s_top s) = Run_kRunning" using halted_no_active [OF ok] c by blast
  then have n: "length (filter active (threads s)) = 0"
    using session_okD(5) [OF ok] c by (simp add: running_parties_def)
  have k: "halt_reason (t_env (s_top s)) \<noteq> Halt_kSoftwareBreakpoint"
    using session_okD(3) [OF ok] c by (simp add: client_ok_def)
  have "list_all (pc_known (Run_launch (s_top s))) (threads s)"
    using n by (simp add: filter_empty_conv list_all_iff pc_known_inactive)
  then show ?thesis
    using ok r n k
    by (simp add: session_ok_def client_ok_def running_parties_def Run_launch_def counters_ok_def
        set_halted_def map_env_def machine_ok_def)
qed

context core
begin

lemma thread_step_total:
  assumes "machine_ok H t" and "p \<noteq> T_notify \<or> run_halted t = Some False"
  shows "\<exists>p' t'. thread_step lib H p t = Some (p', t')"
proof (cases p)
  case (T_loop pc d q)
  then show ?thesis using loop_body_total [OF assms(1), of d q] by (cases "halted (t_env t)") auto
qed (use assms(2) in \<open>auto simp: Let_def\<close>)

lemma thread_turn_ok:
  assumes ok: "session_ok H s" and i: "i < length (threads s)"
    and st: "thread_step lib H (threads s ! i) (s_top s) = Some (p, t')"
  shows "session_ok H (s\<lparr>s_top := t', threads := (threads s)[i := p]\<rparr>)"
proof (cases "active (threads s ! i)")
  case False
  show ?thesis
  proof (cases "threads s ! i = T_notify")
    case True
    then show ?thesis using st idle_turn_ok [OF ok i False, of "Some True"] by (auto split: if_splits)
  next
    case F: False
    then have "threads s ! i = T_done" using False by (cases "threads s ! i") auto
    then show ?thesis using st idle_turn_ok [OF ok i False, of "run_halted (s_top s)"] by auto
  qed
next
  case True
  note a = active_thread_running [OF ok i True] and d = session_okD [OF ok]
  have k: "pc_known (s_top s) (threads s ! i)" using d(4) i by (simp add: list_all_length)
  show ?thesis
  proof (cases "threads s ! i")
    case T_start
    then show ?thesis
      using st k a(1) d by (intro active_turn_ok [OF ok i True]) (auto simp: Let_def)
  next
    case T_status
    then show ?thesis
      using st k d by (intro active_turn_ok [OF ok i True]) (auto simp: counters_ok_def)
  next
    case (T_loop pc q n)
    show ?thesis
    proof (cases "halted (t_env (s_top s))")
      case True
      then show ?thesis
        using T_loop st k d a(1)
        by (intro active_turn_ok [OF ok i \<open>active (threads s ! i)\<close>])
           (auto simp: counters_ok_def set_pc_value_def machine_ok_def)
    next
      case False
      then obtain q' n' where b: "loop_body lib H (q, n, s_top s) = Some (q', n', t')" "p = T_loop (Some n) q' n'"
        using T_loop st by auto
      have "machine_ok H t'" using loop_body_total [OF d(1), of q n] b(1) by auto
      moreover have "run_status t' = Run_kRunning"
        using loop_body_counts(1) [OF b(1)] a(1) by (simp add: control_same_def)
      ultimately show ?thesis
        using counted_ok [OF loop_body_counts(2) [OF b(1)] d(2)] b(2)
        by (intro active_turn_ok [OF ok i True]) auto
    qed
  qed (use True in simp_all)
qed

lemma session_step_ok:
  assumes "session_step lib H a s s'" and ok: "session_ok H s"
  shows "session_ok H s'"
  using assms(1)
proof cases
  case (client_calls t')
  then show ?thesis using client_call_ok [OF ok] by simp
next
  case (run_returns st t')
  then show ?thesis
  proof (cases "run_status (s_top s) = Run_kRunning")
    case True
    then show ?thesis using run_returns ok by (auto simp: Run_prepare_def)
  next
    case False
    note p = Run_prepare_ok [OF halted_core_ok [OF ok False] False run_returns(5)]
    have "core_ok H t'" using p by (simp add: core_ok_def)
    then show ?thesis using session_ok_top [OF ok False] p run_returns by simp
  qed
next
  case (run_accepted t')
  then have nr: "run_status (s_top s) \<noteq> Run_kRunning" by (auto simp: Run_prepare_def)
  note p = Run_prepare_ok [OF halted_core_ok [OF ok nr] nr run_accepted(5)]
  have "running_parties s = 0" using session_okD(5) [OF ok] nr by simp
  then show ?thesis
    using p halted_no_active [OF ok nr] run_accepted
    by (simp add: session_ok_def client_ok_def running_parties_def)
next
  case run_started
  then show ?thesis using run_started_ok [OF ok] by simp
next
  case (halt_request st t')
  then show ?thesis using halt_request_ok [OF ok] by simp
next
  case (halt_part h t')
  then show ?thesis using halt_part_ok [OF ok] by simp
next
  case (thread_turn i p t')
  then show ?thesis using thread_turn_ok [OF ok] by simp
next
  case wait_returns
  have "core_ok H ((s_top s)\<lparr>run_halted := None\<rparr>)"
    using halted_core_ok [OF ok wait_returns(5)] wait_returns(5) by (simp add: core_ok_def counters_ok_def)
  then show ?thesis using session_ok_top [OF ok wait_returns(5)] wait_returns by simp
next
  case wait_notified
  have "pc_known ((s_top s)\<lparr>run_halted := None\<rparr>) q = pc_known (s_top s) q" for q by (cases q) simp_all
  then have "pc_known ((s_top s)\<lparr>run_halted := None\<rparr>) = pc_known (s_top s)" by (rule ext)
  then show ?thesis
    using ok wait_notified by (simp add: session_ok_def client_ok_def running_parties_def counters_ok_def)
qed (use ok in \<open>auto simp: session_ok_def client_ok_def running_parties_def\<close>)

lemma new_session_ok: "core_ok H t \<Longrightarrow> run_status t = Run_kHalted \<Longrightarrow> session_ok H (new_session t)"
  by (simp add: core_ok_def session_ok_def new_session_def client_ok_def running_parties_def)

lemma session_reachable_ok: "session_reachable lib H s \<Longrightarrow> session_ok H s"
proof (induction rule: session_reachable.induct)
  case (started x)
  have "run_status (RV32ITop_ctor lib H x) = Run_kHalted"
    by (simp add: RV32ITop_ctor_def Let_def case_prod_beta)
  with constructed_ok [OF started] show ?case by (rule new_session_ok)
qed (rule session_step_ok)

lemma crash_notification:
  assumes ok: "session_ok H s" and step: "session_step lib H a s s'" and "crashed s'"
  shows "(\<exists>i. a = Thread i \<and> i < length (threads s) \<and> threads s ! i = T_notify \<and>
      run_halted (s_top s) \<noteq> Some False) \<or>
    (a = Client \<and> client s = C_waiting \<and> run_halted (s_top s) = None)"
  using step
proof cases
  case (client_undefined num)
  have "run_status (s_top s) \<noteq> Run_kRunning"
    using client_undefined(5) by (auto simp: Step_def Run_prepare_def split: if_splits)
  from halted_core_ok [OF ok this] show ?thesis
    using client_undefined(5) Step_total [of "s_top s" num] Run_prepare_total by fastforce
next
  case (thread_undefined i)
  show ?thesis
  proof (cases "threads s ! i \<noteq> T_notify \<or> run_halted (s_top s) = Some False")
    case True
    then show ?thesis
      using thread_step_total [OF session_okD(1) [OF ok] True] thread_undefined(5) by auto
  qed (use thread_undefined in auto)
qed (use assms(3) in auto)

end

end
