(* ===== verification/Halt_Reasons.thy ===== *)
theory Halt_Reasons
  imports Session_Library
begin

text \<open>
  Why a run ended: what \<open>GetLastHaltReason\<close> can answer. \<^verbatim>\<open>RV32ITop\<close> sets the reason in \<open>RequestHalt\<close>
  (breakpoints and semihosting) and in \<open>Halt\<close> (the user).
\<close>

section \<open>Requests by an instruction\<close>

text \<open>What an instruction can do to the halt flag and the reason. A breakpoint request names
  the instruction, at whose address the manager has a breakpoint.\<close>

definition requests :: "'x host \<Rightarrow> u64 \<Rightarrow> 'x top_env \<Rightarrow> 'x top_env \<Rightarrow> bool" where
  "requests H a e e' \<longleftrightarrow>
     halted e' = halted e \<and> halt_reason e' = halt_reason e \<or>
     halted e' \<and> (halt_reason e' = Halt_kSemihostHaltRequest \<or>
       halt_reason e' = Halt_kSoftwareBreakpoint \<and> h_HasBreakpoint H a (ext e'))"

lemma mem_requests:
  "requests H b e (lr_env (mif_load (mem_of H) h a n c e))"
  "requests H b e (mif_store (mem_of H) h a bs e)"
  using callbacks_requests [of "hr_callbacks (h_load H h a n c (ext e))" "e\<lparr>ext := hr_ext (h_load H h a n c (ext e))\<rparr>"]
    callbacks_requests [of "fst (h_store H h a bs (ext e))" "e\<lparr>ext := snd (h_store H h a bs (ext e))\<rparr>"]
  by (auto simp: mem_of_def Let_def case_prod_beta requests_def)

text \<open>Raising a program error leaves the simulator's flag and reason alone.\<close>

locale halting = core lib H for lib :: "'x top_env mpact" and H :: "'x host" +
  assumes raise_keeps: "halted (lib_Raise lib nm m e) = halted e"
    "halt_reason (lib_Raise lib nm m e) = halt_reason e"
begin

lemma ebreak_requests:
  assumes "on_ebreak s = [ebreak_handler H]"
  shows "requests H (inst_address inst) (env s) (env (EBreak (Some inst) s))"
  by (simp add: EBreak_def assms call_handler_def ebreak_handler_def requests_def RequestHalt_def)

lemma execute_requests:
  assumes ok: "machine_ok H t" and "inst_ok inst" and e: "Execute lib (mem_of H) inst (state t) = Some s"
  shows "requests H (inst_address inst) (t_env t) (env s)"
  using execute_out [OF assms(2,3)]
proof cases
  case out_ebreak
  then show ?thesis using ok ebreak_requests [of "state t" inst] by (simp add: machine_ok_def)
qed (use mem_requests [of H "inst_address inst" "t_env t"] in
      \<open>simp_all add: StoreMemory_def RV32IllegalInstruction_def requests_def raise_keeps\<close>)

lemma GetDecodedInstruction_requests:
  assumes ok: "machine_ok H t" and g: "GetDecodedInstruction lib H a t = (inst, t')"
  shows "halted (t_env t') = halted (t_env t) \<and> halt_reason (t_env t') = halt_reason (t_env t) \<or>
    halted (t_env t') \<and> halt_reason (t_env t') = Halt_kSemihostHaltRequest"
proof (cases "h_cached H a (ext (t_env t))")
  case (Some i)
  then show ?thesis using g by (simp add: GetDecodedInstruction_def)
next
  case None
  let ?r = "h_load H (dec_memory (rv32_decoder t)) a 4 False (ext (t_env t))"
  let ?e = "run_callbacks (hr_callbacks ?r) ((t_env t)\<lparr>ext := hr_ext ?r\<rparr>)"
  let ?s0 = "(state t)\<lparr>env := ?e\<rparr>"
  obtain i dec s where d: "DecodeInstruction lib (mem_of H) (rv32_decoder t) a (state t) = (i, dec, s)"
    by (cases "DecodeInstruction lib (mem_of H) (rv32_decoder t) a (state t)") auto
  have "grown ?s0 s"
    using d isa_Decode_grown [of ?s0]
    by (auto simp: DecodeInstruction_def mem_of_def Let_def split: prod.splits) (metis snd_conv)
  then have "env s = ?e" using ok by (simp add: grown_def machine_ok_def)
  then have "halted (t_env t') = halted ?e" "halt_reason (t_env t') = halt_reason ?e"
    using g None d by (auto simp: GetDecodedInstruction_def Let_def set_ext_def map_env_def)
  then show ?thesis
    using callbacks_requests [of "hr_callbacks ?r" "(t_env t)\<lparr>ext := hr_ext ?r\<rparr>"] by auto
qed

text \<open>One turn of the loop, when no halt has been requested yet.\<close>

lemma loop_body_requests:
  assumes ok: "machine_ok H t" and b: "loop_body lib H (d, p, t) = Some (d', p', t')"
    and "\<not> halted (t_env t)"
  shows "if halted (t_env t')
    then halt_reason (t_env t') = Halt_kSemihostHaltRequest \<or>
      halt_reason (t_env t') = Halt_kSoftwareBreakpoint \<and> h_HasBreakpoint H (ucast p) (ext (t_env t'))
    else halt_reason (t_env t') = halt_reason (t_env t)"
proof -
  obtain inst t1 where g: "GetDecodedInstruction lib H (ucast p) t = (inst, t1)" by fastforce
  then obtain s where s: "Execute lib (mem_of H) inst (state t1) = Some s"
    "t' = count_instruction inst (t1\<lparr>state := s\<rparr>)"
    using b by (auto simp: loop_body_def Let_def bind_eq_Some_conv split: if_splits)
  note d = decode_ok [OF ok g]
  have "requests H (ucast p) (t_env t1) (env s)"
    using execute_requests [OF d(2,1) s(1)] d(3) by simp
  then show ?thesis
    using GetDecodedInstruction_requests [OF ok g] assms(3) by (auto simp: requests_def s(2) count_instruction_def)
qed

end

section \<open>The reason at the end of a run\<close>

text \<open>\<open>split\<close> says whether a call of \<open>Halt\<close> has been interrupted: its late store of the flag can end
  a run for no reason.\<close>

definition asked_to_halt :: "'x host \<Rightarrow> bool \<Rightarrow> u32 option \<Rightarrow> 'x top \<Rightarrow> bool" where
  "asked_to_halt H split pc t \<longleftrightarrow>
     halt_reason (t_env t) = Halt_kUserRequest \<or> halt_reason (t_env t) = Halt_kSemihostHaltRequest \<or>
     halt_reason (t_env t) = Halt_kNone \<and> split \<or>
     halt_reason (t_env t) = Halt_kSoftwareBreakpoint \<and>
       (\<exists>a. pc = Some a \<and> h_HasBreakpoint H (ucast a) (ext (t_env t)))"

fun run_reason :: "'x host \<Rightarrow> bool \<Rightarrow> 'x top \<Rightarrow> run_position \<Rightarrow> bool" where
  "run_reason H split t T_start =
     (if halted (t_env t) then asked_to_halt H split None t
      else halt_reason (t_env t) \<noteq> Halt_kSoftwareBreakpoint)"
| "run_reason H split t (T_loop pc d p) =
     (if halted (t_env t) then asked_to_halt H split pc t
      else halt_reason (t_env t) \<noteq> Halt_kSoftwareBreakpoint)"
| "run_reason H split t T_status = asked_to_halt H split (previous_pc t) t"
| "run_reason H split t _ = True"

lemma run_reason_inactive: "\<not> active p \<Longrightarrow> run_reason H b t p"
  by (cases p) simp_all

lemma run_reason_cong:
  "run_reason H b t p \<Longrightarrow> t_env t' = t_env t \<Longrightarrow> previous_pc t' = previous_pc t \<Longrightarrow> run_reason H b t' p"
  by (cases p) (auto simp: asked_to_halt_def split: if_splits)

lemma run_reason_user: "halt_reason (t_env t) = Halt_kUserRequest \<Longrightarrow> run_reason H b t p"
  by (cases p) (simp_all add: asked_to_halt_def)

lemma run_reason_split: "run_reason H b t p \<Longrightarrow> run_reason H True t p"
  by (cases p) (auto simp: asked_to_halt_def split: if_splits)

text \<open>A late store of the flag.\<close>

lemma run_reason_flag: "run_reason H True t p \<Longrightarrow> run_reason H True (set_halted True t) p"
  by (cases p; cases "halt_reason (t_env t)")
    (auto simp: asked_to_halt_def set_halted_def map_env_def split: if_splits)

definition reasons_ok :: "'x host \<Rightarrow> bool \<Rightarrow> 'x session \<Rightarrow> bool" where
  "reasons_ok H b s \<longleftrightarrow> list_all (run_reason H b (s_top s)) (threads s)"

lemma no_active_reasons:
  "session_ok H s \<Longrightarrow> run_status (s_top s) \<noteq> Run_kRunning \<Longrightarrow> list_all (run_reason H b t) (threads s)"
  by (auto simp: session_ok_def running_parties_def filter_empty_conv list_all_iff run_reason_inactive)

lemma starting_no_active:
  assumes "session_ok H s" and "client s = C_starting"
  shows "list_all (run_reason H b t) (threads s)"
proof -
  have "length (filter active (threads s)) = 0"
    using session_okD(5) [OF assms(1)] assms(2) by (simp add: running_parties_def split: if_splits)
  then show ?thesis by (auto simp: filter_empty_conv list_all_iff run_reason_inactive)
qed

context halting
begin

lemma thread_turn_reasons:
  assumes ok: "session_ok H s" and r: "reasons_ok H b s" and i: "i < length (threads s)"
    and st: "thread_step lib H (threads s ! i) (s_top s) = Some (p, t')"
  shows "list_all (run_reason H b t') ((threads s)[i := p])"
proof -
  have ri: "run_reason H b (s_top s) (threads s ! i)" using r i by (simp add: reasons_ok_def list_all_length)
  have other: "run_reason H b t' (threads s ! j)" if "j < length (threads s)" "j \<noteq> i" for j
  proof (cases "active (threads s ! i)")
    case True
    then show ?thesis using active_thread_running(3) [OF ok i True that] by (rule_tac run_reason_inactive)
  next
    case False
    then have "t_env t' = t_env (s_top s) \<and> previous_pc t' = previous_pc (s_top s)"
      using st by (cases "threads s ! i") (auto split: if_splits)
    then show ?thesis
      using r that(1) by (auto simp: reasons_ok_def list_all_length intro: run_reason_cong [of H _ "s_top s"])
  qed
  have new: "run_reason H b t' p"
  proof (cases "threads s ! i")
    case (T_loop pc d q)
    show ?thesis
    proof (cases "halted (t_env (s_top s))")
      case True
      then show ?thesis using st T_loop ri by (auto simp: asked_to_halt_def set_pc_value_def)
    next
      case False
      then obtain d' q' where b: "loop_body lib H (d, q, s_top s) = Some (d', q', t')" "p = T_loop (Some q) d' q'"
        using T_loop st by auto
      show ?thesis
        using loop_body_requests [OF session_okD(1) [OF ok] b(1) False] ri False T_loop
        by (auto simp: b(2) asked_to_halt_def split: if_splits)
    qed
  qed (use st ri in \<open>auto simp: Let_def split: if_splits\<close>)
  show ?thesis
    unfolding list_all_length
  proof (intro allI impI)
    fix j assume "j < length ((threads s)[i := p])"
    then show "run_reason H b t' ((threads s)[i := p] ! j)" using new other [of j] i by (cases "j = i") simp_all
  qed
qed

lemma session_step_reasons:
  assumes step: "session_step lib H a s s'" and ok: "session_ok H s" and r: "reasons_ok H b s"
  shows "reasons_ok H (b \<or> a = Handler_part) s'"
  using step
proof cases
  case (client_calls t')
  show ?thesis
  proof (cases "run_status (s_top s) = Run_kRunning")
    case True
    have "quiet H (s_top s) t'"
      using client_call_quiet [OF client_calls(5) session_okD(1) [OF ok]] True by (auto simp: Step_def split: if_splits)
    then have "t_env t' = t_env (s_top s)" "previous_pc t' = previous_pc (s_top s)"
      using True by (auto simp: quiet_def)
    then show ?thesis
      using r client_calls by (auto simp: reasons_ok_def list_all_iff intro: run_reason_cong [of H _ "s_top s"])
  qed (use no_active_reasons [OF ok] client_calls in \<open>simp add: reasons_ok_def\<close>)
next
  case (run_returns st t')
  show ?thesis
  proof (cases "run_status (s_top s) = Run_kRunning")
    case True
    then show ?thesis using run_returns r by (auto simp: Run_prepare_def)
  qed (use no_active_reasons [OF ok] run_returns in \<open>simp add: reasons_ok_def\<close>)
next
  case (run_accepted t')
  then have "run_status (s_top s) \<noteq> Run_kRunning" by (auto simp: Run_prepare_def)
  from no_active_reasons [OF ok this] show ?thesis using run_accepted by (simp add: reasons_ok_def)
next
  case run_started
  then show ?thesis
    using starting_no_active [OF ok run_started(4)] session_okD(3) [OF ok]
    by (simp add: client_ok_def reasons_ok_def Run_launch_def set_halted_def map_env_def)
next
  case wait_returns
  from no_active_reasons [OF ok wait_returns(5)] show ?thesis using wait_returns by (simp add: reasons_ok_def)
next
  case wait_notified
  then show ?thesis using r by (auto simp: reasons_ok_def list_all_iff intro: run_reason_cong [of H _ "s_top s"])
next
  case (halt_request st t')
  then have "t' = s_top s \<or> halt_reason (t_env t') = Halt_kUserRequest"
    by (auto simp: Halt_def set_halted_def set_halt_reason_def map_env_def split: if_splits)
  then show ?thesis
    using r halt_request by (auto simp: reasons_ok_def list_all_iff run_reason_user)
next
  case (halt_part h t')
  then have t': "t' = s_top s \<or> t' = set_halt_reason Halt_kUserRequest (s_top s) \<or> t' = set_halted True (s_top s)"
    by (cases "halt_call s") auto
  have "run_reason H True t' q" if "run_reason H b (s_top s) q" for q
    using t'
  proof (elim disjE)
    assume "t' = s_top s"
    then show ?thesis using run_reason_split [OF that] by simp
  next
    assume "t' = set_halt_reason Halt_kUserRequest (s_top s)"
    then show ?thesis by (intro run_reason_user) (simp add: set_halt_reason_def map_env_def)
  next
    assume "t' = set_halted True (s_top s)"
    then show ?thesis using run_reason_flag [OF run_reason_split [OF that]] by simp
  qed
  then show ?thesis using r halt_part by (auto simp: reasons_ok_def list_all_iff)
next
  case (thread_turn i p t')
  then show ?thesis using thread_turn_reasons [OF ok r] by (simp add: reasons_ok_def)
qed (use r in \<open>simp_all add: reasons_ok_def\<close>)

lemma session_run_reasons:
  "session_run lib H as s s' \<Longrightarrow> session_ok H s \<Longrightarrow> reasons_ok H b s \<Longrightarrow>
   reasons_ok H (b \<or> Handler_part \<in> set as) s' \<and> session_ok H s'"
proof (induction as arbitrary: s b)
  case (Cons a as)
  then obtain u where u: "session_step lib H a s u" "session_run lib H as u s'" by auto
  note ok = session_step_ok [OF u(1) Cons.prems(2)]
    and r = session_step_reasons [OF u(1) Cons.prems(2,3)]
  have "b \<or> Handler_part \<in> set (a # as) \<longleftrightarrow> (b \<or> a = Handler_part) \<or> Handler_part \<in> set as" by auto
  then show ?case using Cons.IH [OF u(2) ok r] by simp
qed simp

lemma new_session_reasons:
  assumes "core_ok H t" and "run_status t = Run_kHalted" and "session_run lib H as (new_session t) s"
  shows "reasons_ok H (Handler_part \<in> set as) s" "session_ok H s"
  using session_run_reasons [OF assms(3) new_session_ok [OF assms(1,2)], of False]
  by (simp_all add: reasons_ok_def new_session_def)

end

end
