(* ===== verification/Batch.thy ===== *)
theory Batch
  imports Machine Run_Thread
begin

text \<open>
  A program run to its end: the semihost watches the address \<open>tohost\<close>, and a store there with which
  the program ends halts the simulator. \<open>semihost_watcher\<close> is what the semihost promises.
\<close>

section \<open>The semihost\<close>

text \<open>\<open>ends\<close> are the values whose store to the watched address tells the semihost that the program
  has ended; it then calls the halt or the exception callback.\<close>

locale semihost_watcher =
  fixes H :: "'x host" and watches :: "u64 \<Rightarrow> 'x \<Rightarrow> bool" and ends :: "u8 list \<Rightarrow> bool"
  assumes watch_set_up: "watches (tohost magic) (h_SemiHost H magic x)"
    and watch_load: "watches a x \<Longrightarrow> watches a (hr_ext (h_load H h b n c x))"
    and watch_store: "watches a x \<Longrightarrow> watches a (snd (h_store H h b bs x))"
    and watch_cache: "watches a x \<Longrightarrow> watches a (h_cache H b inst x)"
    and end_called: "watches a x \<Longrightarrow> ends bs \<Longrightarrow> fst (h_store H WatcherMemory a bs x) \<noteq> []"

text \<open>The next instruction is a store that ends the program.\<close>

definition ending_store :: "(u8 list \<Rightarrow> bool) \<Rightarrow> u64 \<Rightarrow> rv32 \<Rightarrow> bool" where
  "ending_store ends a m =
     (case inst_of (rv_word m (rv_pc m)) of
        Some (STORE op rs1 rs2 imm) \<Rightarrow>
          ucast (rv_x m rs1 + scast imm) = a \<and> ends (le_bytes (store_size op) (rv_x m rs2))
      | _ \<Rightarrow> False)"

lemma run_callbacks_halted:
  assumes "cbs \<noteq> []"
  shows "halted (run_callbacks cbs e)"
proof -
  have keep: "halted e \<Longrightarrow> halted (fold run_callback cbs e)" for cbs and e :: "'x top_env"
  proof (induction cbs arbitrary: e)
    case (Cons cb cbs)
    then show ?case by (cases cb) (simp_all add: RequestHalt_def)
  qed simp
  obtain cb rest where "cbs = cb # rest" using assms by (cases cbs) auto
  moreover have "halted (run_callback cb e)" by (cases cb) (simp_all add: RequestHalt_def)
  ultimately show ?thesis using keep by (simp add: run_callbacks_def)
qed

text \<open>Raising an error does not end the watch either.\<close>

locale batch = whole_machine lib H xbytes + semihost_watcher H watches ends
  for lib :: "'x top_env mpact" and H :: "'x host" and xbytes and watches and ends +
  assumes watch_raise: "watches a (ext e) \<Longrightarrow> watches a (ext (lib_Raise lib nm m e))"
begin

lemma fetch_watch:
  assumes ok: "machine_ok H t" and g: "GetDecodedInstruction lib H b t = (inst, t')"
    and watch: "watches a (ext (t_env t))"
  shows "watches a (ext (t_env t'))" "st_memory (state t') = st_memory (state t)"
proof -
  have "watches a (ext (t_env t')) \<and> st_memory (state t') = st_memory (state t)"
  proof (cases "h_cached H b (ext (t_env t))")
    case (Some j)
    then show ?thesis using g watch by (simp add: GetDecodedInstruction_def)
  next
    case None
    let ?e = "lr_env (mif_load (mem_of H) (dec_memory (rv32_decoder t)) b 4 False (t_env t))"
    obtain i dec s where d: "DecodeInstruction lib (mem_of H) (rv32_decoder t) b (state t) = (i, dec, s)"
      by (cases "DecodeInstruction lib (mem_of H) (rv32_decoder t) b (state t)") auto
    have "grown ((state t)\<lparr>env := ?e\<rparr>) s"
      using d isa_Decode_grown [of "(state t)\<lparr>env := ?e\<rparr>"]
      by (auto simp: DecodeInstruction_def Let_def split: prod.splits) (metis snd_conv)
    then have s: "env s = ?e" "st_memory s = st_memory (state t)" using ok by (simp_all add: grown_def machine_ok_def)
    have "watches a (ext ?e)" using watch by (simp add: mem_of_def Let_def watch_load)
    then show ?thesis
      using g None d s by (auto simp: GetDecodedInstruction_def Let_def set_ext_def map_env_def watch_cache)
  qed
  then show "watches a (ext (t_env t'))" "st_memory (state t') = st_memory (state t)" by blast+
qed

lemma exec_out_watch:
  assumes ok: "machine_ok H t" and e: "exec_out lib (mem_of H) inst (state t) s'"
    and watch: "watches a (ext (t_env t))"
  shows "watches a (ext (env s'))" "st_memory s' = st_memory (state t)"
proof -
  have eb: "on_ebreak (state t) = [ebreak_handler H]" using ok by (simp add: machine_ok_def)
  have "watches a (ext (env s')) \<and> st_memory s' = st_memory (state t)"
    using e
  proof cases
    case out_ebreak
    then show ?thesis using watch by (simp add: ebreak_frame [OF eb])
  qed (use watch in \<open>simp_all add: StoreMemory_def RV32IllegalInstruction_def mem_of_def Let_def case_prod_beta
        watch_load watch_store watch_raise\<close>)
  then show "watches a (ext (env s'))" "st_memory s' = st_memory (state t)" by blast+
qed

text \<open>One turn keeps watching, and the ending store halts.\<close>

lemma ending_store_halts:
  assumes ok: "machine_ok H t" and f: "from_word (lib_default_size lib) p w inst (state t)"
    and e: "Execute lib (mem_of H) inst (state t) = Some s'"
    and mem: "st_memory (state t) = WatcherMemory" and watch: "watches a (ext (t_env t))"
    and w: "w = rv_word (rv_of mbytes p (state t)) p" and ends: "ending_store ends a (rv_of mbytes p (state t))"
  shows "halted (env s')"
proof -
  obtain op rs1 rs2 imm where i: "inst_of w = Some (STORE op rs1 rs2 imm)"
    "ucast (xval (state t) (unat rs1) + scast imm) = a" "ends (le_bytes (store_size op) (xval (state t) (unat rs2)))"
    using ends by (auto simp: ending_store_def w split: option.splits rv_inst.splits)
  have inst: "inst = word_inst (lib_default_size lib) p (STORE op rs1 rs2 imm) (state t)"
    using f by (simp add: from_word_def i(1))
  have m: "rv32_machine lib (mem_of H) WatcherMemory mbytes"
    using mem_of_memory [of WatcherMemory] mpact_operands_axioms
    by (intro rv32_machine.intro) (auto simp: code_memory_def)
  have "s' = (state t)\<lparr>env := mif_store (mem_of H) WatcherMemory a
      (le_bytes (store_size op) (xval (state t) (unat rs2))) (t_env t)\<rparr>"
    using rv32_machine.execute_STORE [OF m, of "lib_default_size lib" p op rs1 rs2 imm "state t"] e i(2) mem
    by (simp add: inst)
  then show ?thesis
    using end_called [OF watch i(3)] by (simp add: mem_of_def case_prod_beta run_callbacks_halted)
qed

lemma loop_body_watch:
  assumes ok: "sim_ok H xbytes (lib_default_size lib) C t"
    and step: "sim_step (lib_default_size lib) C (rv_of mbytes p (state t)) m'"
    and b: "loop_body lib H (d, p, t) = Some (d', p', t')"
    and mem: "st_memory (state t) = WatcherMemory" and watch: "watches a (ext (t_env t))"
  shows "st_memory (state t') = WatcherMemory" "watches a (ext (t_env t'))"
    "ending_store ends a (rv_of mbytes p (state t)) \<Longrightarrow> halted (t_env t')"
proof -
  have C: "p \<in> C" using step by (auto elim: sim_stepE)
  have m: "machine_ok H t" using ok by (simp add: sim_ok_def)
  obtain inst t1 where g: "GetDecodedInstruction lib H (ucast p) t = (inst, t1)"
    and f: "from_word (lib_default_size lib) p (rv_word (rv_of mbytes p (state t)) p) inst (state t1)"
    and iok: "inst_ok inst" and ok1: "sim_ok H xbytes (lib_default_size lib) C t1"
    and e: "extends (state t) (state t1)" and xb: "xbytes (ext (t_env t1)) = xbytes (ext (t_env t))"
    by (rule fetch_any [OF ok C refl])
  have m1: "machine_ok H t1" using ok1 by (simp add: sim_ok_def)
  have "xregs_ok (state t)" using m by (simp add: machine_ok_def regs_good_def)
  then have rv1: "rv_of mbytes p (state t1) = rv_of mbytes p (state t)"
    by (rule extends_rv_of [OF e]) (simp add: xb)
  note w1 = fetch_watch [OF m g watch]
  obtain s' where s': "Execute lib (mem_of H) inst (state t1) = Some s'"
    "t' = count_instruction inst (t1\<lparr>state := s'\<rparr>)"
    using b by (auto simp: loop_body_def g Let_def bind_eq_Some_conv split: if_splits)
  note out = exec_out_watch [OF m1 execute_out [OF iok s'(1)] w1(1)]
  show "st_memory (state t') = WatcherMemory" "watches a (ext (t_env t'))"
    using out w1(2) mem by (simp_all add: s'(2))
  show "halted (t_env t')" if "ending_store ends a (rv_of mbytes p (state t))"
    using ending_store_halts [OF m1 f s'(1) _ w1(1)] w1(2) mem that by (simp add: rv1 s'(2))
qed

lemma run_loop_ends:
  assumes "sim_ok H xbytes (lib_default_size lib) C t" and "d = db_id (pc_data_buffer t)"
    and "(sim_step (lib_default_size lib) C ^^ n) (rv_of mbytes p (state t)) m" and "sim_step (lib_default_size lib) C m m'" and "ending_store ends a m"
    and "st_memory (state t) = WatcherMemory" and "watches a (ext (t_env t))" and "\<not> halted (t_env t)"
  shows "\<exists>k last d' p' t'. run_loop lib H (n + 2) pc (d, p, t) = Some (last, d', p', t') \<and>
    0 < k \<and> k \<le> Suc n \<and> (sim_step (lib_default_size lib) C ^^ k) (rv_of mbytes p (state t)) (rv_of mbytes p' (state t')) \<and>
    sim_ok H xbytes (lib_default_size lib) C t' \<and> halted (t_env t') \<and>
    counter_num_instructions t' = counter_num_instructions t + of_nat k"
  using assms
proof (induction n arbitrary: pc d p t)
  case 0
  then have step: "sim_step (lib_default_size lib) C (rv_of mbytes p (state t)) m'" and e: "ending_store ends a (rv_of mbytes p (state t))"
    by simp_all
  obtain d1 p1 t1 where b: "loop_body lib H (d, p, t) = Some (d1, p1, t1)"
    "sim_ok H xbytes (lib_default_size lib) C t1" "rv_of mbytes p1 (state t1) = m'"
    "counter_num_instructions t1 = counter_num_instructions t + 1"
    using loop_follows_machine [OF 0(1) step] 0(2) by metis
  have "halted (t_env t1)" using loop_body_watch(3) [OF 0(1) step b(1) 0(6,7) e] .
  moreover have "(sim_step (lib_default_size lib) C ^^ 1) (rv_of mbytes p (state t)) (rv_of mbytes p1 (state t1))"
    using step b(3) by (simp only: relpowp_1)
  ultimately show ?case
    using b 0(8) by (intro exI [of _ 1] exI [of _ "Some p"] exI [of _ d1] exI [of _ p1] exI [of _ t1])
      (simp add: numeral_2_eq_2 del: relpowp.simps One_nat_def)
next
  case (Suc n)
  from Suc.prems(3) obtain m1 where m1: "sim_step (lib_default_size lib) C (rv_of mbytes p (state t)) m1" "(sim_step (lib_default_size lib) C ^^ n) m1 m"
    by (metis relpowp_Suc_D2)
  obtain d1 p1 t1 where b: "loop_body lib H (d, p, t) = Some (d1, p1, t1)"
    "sim_ok H xbytes (lib_default_size lib) C t1" "d1 = db_id (pc_data_buffer t1)"
    "rv_of mbytes p1 (state t1) = m1" "counter_num_instructions t1 = counter_num_instructions t + 1"
    using loop_follows_machine [OF Suc.prems(1) m1(1)] Suc.prems(2) by metis
  note w = loop_body_watch [OF Suc.prems(1) m1(1) b(1) Suc.prems(6,7)]
  show ?case
  proof (cases "halted (t_env t1)")
    case True
    have "(sim_step (lib_default_size lib) C ^^ 1) (rv_of mbytes p (state t)) (rv_of mbytes p1 (state t1))"
      using m1(1) b(4) by (simp only: relpowp_1)
    then show ?thesis
      using b True Suc.prems(8)
      by (intro exI [of _ 1] exI [of _ "Some p"] exI [of _ d1] exI [of _ p1] exI [of _ t1])
        (simp add: numeral_2_eq_2 del: relpowp.simps One_nat_def)
  next
    case False
    have "(sim_step (lib_default_size lib) C ^^ n) (rv_of mbytes p1 (state t1)) m" using m1(2) b(4) by simp
    from Suc.IH [OF b(2,3) this Suc.prems(4,5) w(1,2) False, of "Some p"] obtain k last d' p' t' where
      r: "run_loop lib H (n + 2) (Some p) (d1, p1, t1) = Some (last, d', p', t')" "k \<le> Suc n"
      "(sim_step (lib_default_size lib) C ^^ k) m1 (rv_of mbytes p' (state t'))" "sim_ok H xbytes (lib_default_size lib) C t'"
      "halted (t_env t')" "counter_num_instructions t' = counter_num_instructions t1 + of_nat k"
      unfolding b(4) by blast
    have "(sim_step (lib_default_size lib) C ^^ Suc k) (rv_of mbytes p (state t)) (rv_of mbytes p' (state t'))"
      using m1(1) r(3) by (rule relpowp_Suc_I2)
    then show ?thesis
      using b r Suc.prems(8)
      by (intro exI [of _ "Suc k"] exI [of _ last] exI [of _ d'] exI [of _ p'] exI [of _ t'])
        (simp del: relpowp.simps)
  qed
qed

text \<open>The thread of \<open>Run\<close>, with what it stores at the end.\<close>

lemma run_thread_ends:
  assumes ok: "sim_ok H xbytes (lib_default_size lib) C t" and "(sim_step (lib_default_size lib) C ^^ n) (top_abs xbytes t) m"
    and "sim_step (lib_default_size lib) C m m'" and "ending_store ends a m"
    and "st_memory (state t) = WatcherMemory" and "watches a (ext (t_env t))" and "\<not> halted (t_env t)"
    and "run_halted t = Some False"
  shows "\<exists>k t'. run_thread lib H (n + 2) t = Some t' \<and> 0 < k \<and> k \<le> Suc n \<and>
    (sim_step (lib_default_size lib) C ^^ k) (top_abs xbytes t) (top_abs xbytes t') \<and>
    counter_num_instructions t' = counter_num_instructions t + of_nat k \<and> run_status t' = Run_kHalted"
proof -
  let ?db = "pc_data_buffer t"
  obtain k last d' p' u where r:
    "run_loop lib H (n + 2) None (db_id ?db, db_get32 ?db, t) = Some (last, d', p', u)" "0 < k" "k \<le> Suc n"
    "(sim_step (lib_default_size lib) C ^^ k) (top_abs xbytes t) (rv_of mbytes p' (state u))"
    "sim_ok H xbytes (lib_default_size lib) C u"
    "counter_num_instructions u = counter_num_instructions t + of_nat k"
    using run_loop_ends [OF ok refl assms(2) [unfolded top_abs_def] assms(3-7), of None]
    unfolding top_abs_def by blast
  let ?u = "u\<lparr>previous_pc := last\<rparr>"
  let ?t' = "(set_pc_value p' ?u)\<lparr>run_status := Run_kHalted, run_halted := Some True\<rparr>"
  have "run_halted u = Some False" using run_loop_control [OF r(1)] assms(8) by (simp add: control_same_def)
  then have "run_thread lib H (n + 2) t = Some ?t'" using r(1) by (auto simp: run_thread_Some)
  moreover have "top_abs xbytes ?t' = top_abs xbytes (set_pc_value p' ?u)"
    by (simp add: top_abs_def pc_data_buffer_def)
  moreover have "top_abs xbytes (set_pc_value p' ?u) = rv_of mbytes p' (state u)"
    using top_abs_set_pc [of ?u xbytes p'] r(5) by (simp add: sim_ok_def machine_ok_def regs_good_def)
  ultimately show ?thesis
    using r by (intro exI [of _ k] exI [of _ ?t']) simp
qed

end

end
