(* ===== verification/Reference_Session.thy ===== *)
theory Reference_Session
  imports Reference_Platform Halt_Reasons Batch
begin

text \<open>
  Concrete sessions on the reference platform: the constructed simulator with the small program,
  one with a breakpoint on its first instruction, and one that has been set running.
\<close>

interpretation ref_halting: halting std_lib ref_host
  by unfold_locales (simp_all add: std_lib_def)

section \<open>A breakpoint on the first instruction\<close>

lemma demo_reachable: "reachable std_lib ref_host demo_top"
  unfolding demo_top_def by (rule constructed_top) (simp add: ref_host_def demo_world_def)

lemma demo_core_ok: "core_ok ref_host demo_top"
  by (rule ref_core.reachable_ok [OF demo_reachable])

definition bp_top :: "ref_world top" where
  "bp_top = snd (SetSwBreakpoint ref_host 0 demo_top)"

lemma bp_set: "SetSwBreakpoint ref_host (ucast (0 :: u32)) demo_top = (OkStatus, bp_top)"
proof -
  have "fst (SetSwBreakpoint ref_host 0 demo_top) = OkStatus"
    by (simp add: SetSwBreakpoint_def demo_constructed ref_host_def ref_set_def ref_has_def demo_world_def)
  then show ?thesis by (simp add: bp_top_def prod_eq_iff)
qed

lemma bp_core_ok: "core_ok ref_host bp_top"
  using quiet_ok [OF demo_core_ok ref_core.breakpoint_calls_quiet(1) [OF bp_set]] .

lemma bp_reachable: "reachable std_lib ref_host bp_top"
  by (rule called [OF demo_reachable call_SetSwBreakpoint [OF bp_set]])

lemma bp_state:
  "at_breakpoint ref_host rw_mem 0 bp_top" "run_status bp_top = Run_kHalted"
  "halt_reason (t_env bp_top) = Halt_kNone" "db_get32 (pc_data_buffer bp_top) = 0"
  using ref_debugger.set_breakpoint_at [OF demo_core_ok demo_constructed(7) bp_set]
    demo_constructed(5)
  by (simp_all add: demo_constructed control_same_def pc_data_buffer_def)

lemma demo_orig: "ref_orig (ext (t_env demo_top)) = rw_mem demo_world"
  by (simp add: demo_constructed ref_orig_def demo_world_def fun_eq_iff)

lemma demo_orig_word:
  "word_at (ref_orig (ext (t_env demo_top))) (ucast (0 :: u32)) = encode (OP_IMM I_ADDI 1 0 5)"
  using demo_words(1) [of "\<lparr>rv_pc = 0, rv_x = \<lambda>_. 0, rv_mem = rw_mem demo_world\<rparr>"]
  by (simp add: demo_orig word_at_def rv_word_def rv_bytes_def del: encode.simps)

lemma bp_second_step:
  assumes "Step std_lib ref_host 1 bp_top = Some (Inr 1, t2)"
  shows "\<exists>t3. Step std_lib ref_host 1 t2 = Some (Inr 1, t3)"
  using ref_session.breakpoint_session_resumes [OF demo_core_ok demo_constructed(7) _ demo_constructed(5) bp_set
      demo_orig_word] assms
  by (auto simp: demo_constructed)

section \<open>Running\<close>

definition bp_running :: "ref_world top" where
  "bp_running = (set_halted False (bp_top\<lparr>run_status := Run_kRunning\<rparr>))\<lparr>run_halted := Some False\<rparr>"

lemma bp_run: "Run std_lib ref_host bp_top = Some (OkStatus, bp_running)"
  by (simp add: Run_def bp_state bp_running_def)

lemma bp_run_ends:
  "\<exists>t2. run_thread std_lib ref_host 2 bp_running = Some t2 \<and> GetLastHaltReason t2 = Halt_kSoftwareBreakpoint"
proof -
  have "machine_ok ref_host bp_running" using bp_core_ok by (simp add: bp_running_def core_ok_def)
  moreover have "at_breakpoint ref_host rw_mem 0 bp_running" "db_get32 (pc_data_buffer bp_running) = 0"
    "\<not> halted (t_env bp_running)"
    using bp_state by (simp_all add: bp_running_def at_breakpoint_def set_halted_def map_env_def pc_data_buffer_def)
  moreover have "run_halted bp_running = Some False" by (simp add: bp_running_def)
  ultimately show ?thesis using ref_debugger.run_thread_at_breakpoint [of bp_running 0] by blast
qed

section \<open>The semihost\<close>

interpretation ref_watcher: semihost_watcher ref_host "\<lambda>a x. rw_magic x = Some a" "\<lambda>_. True"
  by unfold_locales (auto simp: ref_host_def ref_store_def)

section \<open>Names and sizes\<close>

lemma demo_names:
  "xreg_name 0 = ''x0''" "xreg_name 10 = ''x10''" "kRegisterAliases ! 10 = ''a0''" "kRegisterAliases ! 11 = ''a1''"
  by (simp_all add: xreg_name_def kXregPrefix_def dec_str.simps digit_char_def kRegisterAliases_def)

lemma demo_alias: "i < 32 \<Longrightarrow> registers (state demo_top) (kRegisterAliases ! i) = Some (xreg (state demo_top) i)"
  using demo_constructed(1) xregs_okD(1) [OF demo_xregs_ok, of i] by (simp add: regs_upto_def)

lemma demo_bytes: "registers (state demo_top) nm = Some r \<Longrightarrow> length (db_bytes (reg_db (state demo_top) r)) = 4"
  using demo_constructed(1) by (auto simp: regs_upto_def ran_def)

section \<open>Stopped for a breakpoint\<close>

definition stopped_top :: "ref_world top" where
  "stopped_top = set_halt_reason Halt_kSoftwareBreakpoint (demo_top\<lparr>previous_pc := Some 0\<rparr>)"

lemma stopped_state:
  "xregs_ok (state stopped_top)" "top_pc stopped_top = pc_reg (state stopped_top)"
  "run_status stopped_top = Run_kHalted" "GetLastHaltReason stopped_top = Halt_kSoftwareBreakpoint"
  "length (db_bytes (pc_data_buffer stopped_top)) = 4"
  using demo_bytes [OF xregs_okD(2) [OF demo_xregs_ok]] demo_xregs_ok
  by (simp_all add: stopped_top_def GetLastHaltReason_def demo_constructed pc_data_buffer_def xregs_ok_def)

text \<open>A manager that cannot enable breakpoints again, and a cache that holds one instruction
  without effect.\<close>

definition nop_inst :: instruction where
  "nop_inst = Instruction 0 4 kCsrs [] [] fn_RV32ZiCsrs None"

definition stuck_host :: "ref_world host" where
  "stuck_host = ref_host\<lparr>h_cached := (\<lambda>a x. Some nop_inst),
     h_DisableBreakpoint := (\<lambda>a x. (OkStatus, x)),
     h_EnableBreakpoint := (\<lambda>a x. (InternalError ''cannot enable'', x))\<rparr>"

end
