(* ===== verification/Simulator_Properties.thy ===== *)
theory Simulator_Properties
  imports Reference_Session Run_Thread
begin

text \<open>
  What the simulator guarantees its user: the run control, software breakpoints and the state of
  a constructed simulator. The hypotheses name the documented behaviour of the library objects
  (\<open>mpact_registers\<close>, \<open>core\<close>, \<open>debug_session\<close>); \<open>Reference_Platform\<close> has one such library, on
  which each property is instantiated.
\<close>

section \<open>Breakpoints\<close>



text \<open>C10: going on from a breakpoint executes the instruction the breakpoint replaced. After the
  stop at the breakpoint one more step does to the registers and the pc what the manual says for the original
  instruction, on the registers the program had, and the \<open>ebreak\<close> is back in memory.\<close>

theorem step_resumes_original_instruction:
  assumes "debug_session lib H xbytes orig" and "reachable lib H t" and "run_status t = Run_kHalted"
    and "GetLastHaltReason t \<noteq> Halt_kSoftwareBreakpoint" and "db_get32 (pc_data_buffer t) = a"
    and "SetSwBreakpoint H (ucast a) t = (OkStatus, t1)"
    and "word_at (orig (ext (t_env t))) (ucast a) = encode i" and "jalr_even i (top_abs xbytes t)"
  shows "\<exists>t2 t3 m. Step lib H 1 t1 = Some (Inr 1, t2) \<and> Step lib H 1 t2 = Some (Inr 1, t3) \<and>
    m = \<lparr>rv_pc = a, rv_x = rv_x (top_abs xbytes t),
         rv_mem = xbytes (snd (h_DisableBreakpoint H (ucast a) (ext (t_env t2))))\<rparr> \<and>
    rv_x (top_abs xbytes t3) = rv_x (rv_exec i m) \<and> rv_pc (top_abs xbytes t3) = rv_pc (rv_exec i m) \<and>
    run_status t3 = Run_kHalted \<and> GetLastHaltReason t3 = Halt_kNone \<and>
    word_at (xbytes (ext (t_env t3))) (ucast a) = ebreak_word"
proof -
  note c = core.reachable_ok [OF debug_session.axioms(2) [OF assms(1)] assms(2)]
  have "halt_reason (t_env t) \<noteq> Halt_kSoftwareBreakpoint" using assms(4) by (simp add: GetLastHaltReason_def)
  from debug_session.breakpoint_session_resumes [OF assms(1) c assms(3) this assms(5-8)]
  show ?thesis .
qed

theorem step_resumes_original_instruction_witness:
  "\<exists>t2 t3. Step std_lib ref_host 1 bp_top = Some (Inr 1, t2) \<and>
     Step std_lib ref_host 1 t2 = Some (Inr 1, t3) \<and>
     rv_x (top_abs rw_mem t3) 1 = 5 \<and> rv_pc (top_abs rw_mem t3) = 4"
proof -
  have nr: "GetLastHaltReason demo_top \<noteq> Halt_kSoftwareBreakpoint"
    by (simp add: GetLastHaltReason_def demo_constructed)
  have x: "rv_x (top_abs rw_mem demo_top) 0 = 0" by (simp add: top_abs_def xval_def)
  from step_resumes_original_instruction [OF ref_session.debug_session_axioms demo_reachable
      demo_constructed(7) nr demo_constructed(5) bp_set demo_orig_word] x
  show ?thesis by (auto simp: rv_next_def rv_set_def)
qed

section \<open>Run control\<close>

text \<open>C12: \<open>Step\<close> and \<open>Run\<close> always return. In every state a client can reach, whatever the memory
  holds and whatever the count, no instruction reads a missing operand and no indeterminate
  pc is used, and the state afterwards is reachable again.\<close>

theorem step_and_run_return:
  assumes "core lib H" and "reachable lib H t"
  shows "(\<exists>r t'. Step lib H num t = Some (r, t') \<and> reachable lib H t') \<and>
    (\<exists>st t'. Run lib H t = Some (st, t') \<and> reachable lib H t')"
proof -
  note ok = core.reachable_ok [OF assms]
  obtain r t1 st t2 where "Step lib H num t = Some (r, t1)" "Run lib H t = Some (st, t2)"
    using core.Step_total [OF assms(1) ok] core.Run_total [OF assms(1) ok] by blast
  then show ?thesis using called [OF assms(2)] call_Step call_Run by metis
qed

theorem step_and_run_return_witness:
  "(\<exists>r t'. Step std_lib ref_host 1000000 bp_top = Some (r, t') \<and> reachable std_lib ref_host t') \<and>
   (\<exists>st t'. Run std_lib ref_host bp_top = Some (st, t') \<and> reachable std_lib ref_host t')"
  by (rule step_and_run_return [OF ref_core.core_axioms bp_reachable])

text \<open>C13: \<open>Run\<close> is a long \<open>Step\<close>, when it does not start at a breakpoint and nobody disturbs it. If a
  halted core that did not stop for a breakpoint is run, and the thread ends without a call of
  \<open>Halt\<close> or anything else beside it, then it has left the state that \<open>Step\<close> leaves for some positive
  count, reached in full; only the notification object differs.\<close>

theorem run_equals_step:
  assumes "run_status t = Run_kHalted" and "GetLastHaltReason t \<noteq> Halt_kSoftwareBreakpoint"
    and "Run lib H t = Some (OkStatus, t1)" and "run_thread lib H fuel t1 = Some t2"
  shows "\<exists>j t'. 0 < j \<and> j < fuel \<and> Step lib H (int j) t = Some (Inr (int j), t') \<and>
    t2 = t'\<lparr>run_halted := Some True\<rparr>"
proof -
  have t1: "t1 = set_halted False (t\<lparr>run_status := Run_kRunning, run_halted := Some False\<rparr>)"
    using assms(1-3) by (auto simp: Run_def GetLastHaltReason_def set_halted_def map_env_def)
  from run_thread_step_rest [OF t1 assms(4)] assms(1,2)
  show ?thesis by (auto simp: Step_def GetLastHaltReason_def Let_def)
qed

theorem run_equals_step_witness:
  "\<exists>t2 t'. run_thread std_lib ref_host 2 bp_running = Some t2 \<and>
     Step std_lib ref_host 1 bp_top = Some (Inr 1, t') \<and> t2 = t'\<lparr>run_halted := Some True\<rparr>"
proof -
  obtain t2 where t2: "run_thread std_lib ref_host 2 bp_running = Some t2" using bp_run_ends by blast
  from run_equals_step [OF bp_state(2) _ bp_run t2] obtain j t' where
    "0 < j" "j < 2" "Step std_lib ref_host (int j) bp_top = Some (Inr (int j), t')"
    "t2 = t'\<lparr>run_halted := Some True\<rparr>"
    by (auto simp: GetLastHaltReason_def bp_state)
  moreover from this have "j = 1" by simp
  ultimately show ?thesis using t2 by auto
qed

text \<open>C23: what \<open>Step\<close> counts. When it returns a count, that count is between 1 and the number
  asked for and is smaller only if a halt was requested; exactly so many instructions were added to
  the instruction counter, the opcode counters still add up to it, the core is halted again, and no
  halt reason is left unless a halt was requested.\<close>

theorem step_counts_instructions:
  assumes "Step lib H num t = Some (Inr c, t')"
  shows "1 \<le> c \<and> c \<le> num \<and> (c < num \<longrightarrow> halted (t_env t')) \<and>
    counter_num_instructions t' = counter_num_instructions t + of_nat (nat c) \<and>
    (counter_num_instructions t = (\<Sum>op \<in> UNIV. counter_opcode t op) \<longrightarrow>
       counter_num_instructions t' = (\<Sum>op \<in> UNIV. counter_opcode t' op)) \<and>
    run_status t' = Run_kHalted \<and> (\<not> halted (t_env t') \<longrightarrow> GetLastHaltReason t' = Halt_kNone)"
  using Step_counts [OF assms] unfolding counted_def counters_ok_def GetLastHaltReason_def by blast

theorem step_counts_instructions_witness:
  "\<exists>t'. Step std_lib ref_host 9 bp_top = Some (Inr 1, t') \<and> counter_num_instructions t' = 1 \<and> halted (t_env t')"
proof -
  obtain t' where t': "Step std_lib ref_host 9 bp_top = Some (Inr 1, t')"
    using ref_session.breakpoint_session [OF demo_core_ok demo_constructed(7) _ demo_constructed(5) bp_set, of 9]
    by (auto simp: demo_constructed)
  have "counter_num_instructions bp_top = 0"
    by (simp add: bp_top_def SetSwBreakpoint_def demo_constructed set_ext_def map_env_def split: prod.split)
  with step_counts_instructions [OF t'] t' show ?thesis by simp
qed

text \<open>C37: \<open>Run\<close> refuses while the core runs and otherwise either reports that the breakpoint it
  stopped at cannot be enabled again, leaving the run status alone, or starts with the halt flag
  clear: a halt that the instruction under the breakpoint requests while \<open>Run\<close> steps over it is
  lost, flag and reason.\<close>

theorem run_contract:
  assumes "Run lib H t = Some (st, t')"
  shows "if run_status t = Run_kRunning
    then st = FailedPreconditionError ''RV32ITop::Run: core is already running'' \<and> t' = t
    else if st = OkStatus
    then run_status t' = Run_kRunning \<and> run_halted t' = Some False \<and> \<not> halted (t_env t') \<and>
      GetLastHaltReason t' \<noteq> Halt_kSoftwareBreakpoint \<and>
      (GetLastHaltReason t = Halt_kSoftwareBreakpoint \<longrightarrow>
         GetLastHaltReason t' = Halt_kNone \<and> counter_num_instructions t' = counter_num_instructions t + 1)
    else run_status t' = run_status t \<and> previous_pc t' = previous_pc t \<and>
      GetLastHaltReason t = Halt_kSoftwareBreakpoint"
proof (cases "run_status t = Run_kRunning \<or> GetLastHaltReason t \<noteq> Halt_kSoftwareBreakpoint")
  case True
  then show ?thesis
    using assms by (auto simp: Run_def GetLastHaltReason_def set_halted_def map_env_def)
next
  case False
  then obtain a t1 where a: "step_over_breakpoint lib H t = Some (a, t1)"
    using assms by (auto simp: Run_def GetLastHaltReason_def bind_eq_Some_conv)
  note c = step_over_breakpoint_counts [OF a]
  show ?thesis
    using False a assms c
    by (cases a)
       (auto simp: Run_def GetLastHaltReason_def control_same_def counted_def set_halted_def map_env_def)
qed

theorem run_contract_witness:
  "run_status bp_running = Run_kRunning \<and> \<not> halted (t_env bp_running) \<and>
   GetLastHaltReason bp_running \<noteq> Halt_kSoftwareBreakpoint"
  using run_contract [OF bp_run] by (simp add: bp_state)

text \<open>C22: construction. A new simulator has the pc, the registers \<open>x0\<close> to \<open>x31\<close> and no others, each
  ABI name is the same register object as its number, no two of the 33 registers share an object,
  each holds four bytes, the pc is 0, nothing has been counted, the core is halted for no reason,
  and programs can be run on it (\<open>top_ok\<close>, for code at any addresses).\<close>

theorem constructed_simulator:
  assumes "mpact_registers lib" and "\<forall>a. h_cached H a x = None" and t: "t = RV32ITop_ctor lib H x"
  shows "dom (registers (state t)) = insert ''pc'' (xreg_name ` {..<32} \<union> set xreg_alias) \<and>
    (\<forall>i < 32. registers (state t) (xreg_alias ! i) = registers (state t) (xreg_name i)) \<and>
    inj_on (registers (state t)) (insert ''pc'' (xreg_name ` {..<32})) \<and>
    (\<forall>r \<in> ran (registers (state t)). length (db_bytes (reg_db (state t) r)) = 4) \<and>
    db_get32 (pc_data_buffer t) = 0 \<and> GetRunStatus t = Run_kHalted \<and> GetLastHaltReason t = Halt_kNone \<and>
    counter_num_instructions t = 0 \<and> ext (t_env t) = x \<and> top_ok H xbytes L C t"
proof -
  note c = constructed [OF assms(1) t]
  have dom: "dom (registers (state t)) = insert ''pc'' (xreg_name ` {..<32} \<union> set xreg_alias)"
    using c(1) by (auto simp: regs_upto_def reg_names_def kPcName_def aliases_agree [symmetric])
  have x: "xregs_ok (state t)" by (rule regs_upto_xregs_ok [OF c(1)])
  have "inj_on (registers (state t)) (insert kPcName (xreg_name ` {..<32}))"
    by (rule xregs_ok_inj [OF x])
  moreover have "top_ok H xbytes L C t"
    using c x assms(2) by (simp add: top_ok_def cache_ok_def code_memory_def)
  ultimately show ?thesis
    using dom c by (auto simp: regs_upto_def aliases_agree GetRunStatus_def GetLastHaltReason_def kPcName_def)
qed

theorem constructed_simulator_witness:
  "registers (state demo_top) ''sp'' = registers (state demo_top) ''x2'' \<and>
   registers (state demo_top) ''x2'' \<noteq> None \<and> top_ok ref_host rw_mem 4 UNIV demo_top"
proof -
  have "\<forall>a. h_cached ref_host a demo_world = None" by (simp add: ref_host_def demo_world_def)
  note c = constructed_simulator [OF std.mpact_registers_axioms this demo_top_def, of rw_mem 4 UNIV]
  have n: "xreg_alias ! 2 = ''sp''" "xreg_name 2 = ''x2''"
    by (simp_all add: xreg_alias_def xreg_name_def kXregPrefix_def dec_str.simps digit_char_def)
  have "registers (state demo_top) (xreg_alias ! 2) = registers (state demo_top) (xreg_name 2)"
    using c by simp
  moreover have "xreg_name 2 \<in> dom (registers (state demo_top))" using c by simp
  ultimately show ?thesis using c unfolding n by blast
qed

text \<open>C14: what holds between any two calls. In every reachable state the registers are there and
  distinct, the ebreak handler is the one the constructor added, every instruction in the decode
  cache came from the decoder, the counters agree, and the pc that \<open>ReadRegister\<close> and \<open>Step\<close> take
  from \<open>previous_pc\<close> after a breakpoint is never indeterminate.\<close>

theorem reachable_invariant:
  assumes "core lib H" and "reachable lib H t"
  shows "xregs_ok (state t) \<and> top_pc t = pc_reg (state t) \<and> on_ebreak (state t) = [ebreak_handler H] \<and>
    (\<forall>a inst. h_cached H a (ext (t_env t)) = Some inst \<longrightarrow> inst_ok inst) \<and>
    counter_num_instructions t = (\<Sum>op \<in> UNIV. counter_opcode t op) \<and>
    (GetLastHaltReason t = Halt_kSoftwareBreakpoint \<longrightarrow> previous_pc t \<noteq> None) \<and>
    (\<forall>name. ReadRegister name t \<noteq> None) \<and>
    (GetRunStatus t = Run_kRunning \<longrightarrow> run_halted t = Some False)"
proof -
  note ok = core.reachable_ok [OF assms]
  have "ReadRegister name t \<noteq> None" for name
    using ok by (auto simp: core_ok_def ReadRegister_def Let_def split: option.split)
  with ok show ?thesis
    by (auto simp: core_ok_def machine_ok_def regs_good_def cache_made_def counters_ok_def
        GetLastHaltReason_def GetRunStatus_def)
qed

theorem reachable_invariant_witness:
  "xregs_ok (state bp_top) \<and> on_ebreak (state bp_top) = [ebreak_handler ref_host] \<and>
   ReadRegister ''a0'' bp_top \<noteq> None"
  using reachable_invariant [OF ref_core.core_axioms bp_reachable] by blast

end
