(* ===== verification/Debug_Library.thy ===== *)
theory Debug_Library
  imports Breakpoints
begin

text \<open>
  Lemmas on the debug interface: what a register's bytes read back as, memory written and read
  through the same handle, disassembly at a breakpoint.
\<close>

section \<open>Register bytes\<close>

lemma le_bytes_word:
  "ucast (le_word (le_bytes 1 v) :: u8) = take_bit 8 (v :: u64)"
  "ucast (le_word (le_bytes 2 v) :: u16) = take_bit 16 v"
  "ucast (le_word (le_bytes 4 v) :: u32) = take_bit 32 v"
  "(le_word (le_bytes 8 v) :: u64) = v"
proof -
  have g: "(le_word (le_bytes n v) :: 'a::len word) = ucast (take_bit (8 * n) v)" for n
  proof (induction n arbitrary: v)
    case (Suc n)
    show ?case
      by (rule bit_word_eqI)
         (auto simp: Suc bit_simps not_less dest: bit_imp_le_length)
  qed simp
  show "ucast (le_word (le_bytes 1 v) :: u8) = take_bit 8 v"
    "ucast (le_word (le_bytes 2 v) :: u16) = take_bit 16 v"
    "ucast (le_word (le_bytes 4 v) :: u32) = take_bit 32 v"
    "(le_word (le_bytes 8 v) :: u64) = v"
    unfolding g by (rule bit_word_eqI; auto simp: bit_simps dest: bit_imp_le_length)+
qed

lemma le_bytes_le_word_ucast: "(le_word (le_bytes 4 (v :: u64)) :: u32) = ucast v"
proof -
  have "(ucast (le_word (le_bytes 4 v) :: u32) :: u64) = take_bit 32 v" by (rule le_bytes_word(3))
  then have "(ucast (ucast (le_word (le_bytes 4 v) :: u32) :: u64) :: u32) = ucast (take_bit 32 v)" by simp
  then show ?thesis by simp (rule bit_word_eqI, simp add: bit_simps)
qed

text \<open>A found register whose width the code supports.\<close>

lemma WriteRegister_found:
  assumes "run_status t = Run_kHalted" and "registers (state t) nm = Some r"
    and "length (db_bytes (reg_db (state t) r)) = n" and "n \<in> {1, 2, 4, 8}"
  shows "WriteRegister nm v t = (OkStatus, set_register_bytes r (le_bytes n v)
    (if nm = ''pc'' \<and> halt_reason (t_env t) = Halt_kSoftwareBreakpoint
     then set_halt_reason Halt_kNone t else t))"
  using assms by (simp add: WriteRegister_def Let_def)

lemma ReadRegister_written:
  assumes "run_status t = Run_kHalted" and "registers (state t) nm = Some r"
    and "db_bytes (reg_db (state t) r) = le_bytes n v" and "n \<in> {1, 2, 4, 8}"
    and "\<not> (nm = ''pc'' \<and> halt_reason (t_env t) = Halt_kSoftwareBreakpoint)"
  shows "ReadRegister nm t = Some (Inr (take_bit (8 * n) v))"
proof -
  have "ReadRegister nm t =
     Some (if n = 1 then Inr (ucast (le_word (le_bytes n v) :: u8))
           else if n = 2 then Inr (ucast (le_word (le_bytes n v) :: u16))
           else if n = 4 then Inr (ucast (le_word (le_bytes n v) :: u32))
           else if n = 8 then Inr (le_word (le_bytes n v))
           else Inl (InternalError ''Register size is not 1, 2, 4, or 8 bytes''))"
    using assms(1,2,3,5) unfolding ReadRegister_def
    by (simp only: if_False option.case length_le_bytes Let_def) simp
  then show ?thesis
    using assms(4) le_bytes_word by (auto simp: take_bit_length_eq [where ?'a = 64, simplified])
qed

section \<open>Memory\<close>

context host_memory
begin

lemma memory_write_read:
  assumes "run_status t = Run_kHalted" and "code_memory (st_memory (state t))"
    and "WriteMemory H a bs t = (r, t')" and "length bs < 2 ^ 64"
  shows "r = Inr (length bs) \<and> fst (ReadMemory H a (length bs) t') = Inr bs"
proof -
  have r: "r = Inr (length bs)" and t': "t' = map_env (mif_store (mem_of H) (st_memory (state t)) a bs) t"
    using assms(1,3) by (simp_all add: WriteMemory_def)
  let ?e = "mif_store (mem_of H) (st_memory (state t)) a bs (t_env t)"
  note m = mem_of_memory [OF assms(2)]
  have "(a + of_nat i) - a = of_nat i" for i :: nat by simp
  moreover have "unat (of_nat i :: u64) = i" if "i < length bs" for i
    using that assms(4) by (simp add: unsigned_of_nat take_bit_nat_eq_self)
  ultimately have "map (\<lambda>i. xbytes (ext ?e) (a + of_nat i)) [0..<length bs] = bs"
    by (intro nth_equalityI) (simp_all add: mpact_memory.store_bytes [OF m])
  then have "lr_data (mif_load (mem_of H) (st_memory (state t)) a (length bs) c ?e) = bs" for c
    by (simp add: mpact_memory.load_data [OF m])
  then have "fst (ReadMemory H a (length bs) t') = Inr bs"
    using assms(1) by (simp add: t' ReadMemory_def map_env_def Let_def)
  with r show ?thesis by simp
qed

end

text \<open>Every callback of the semihosting requests a halt.\<close>

lemma run_callbacks_halt:
  assumes "cbs \<noteq> []"
  shows "halted (run_callbacks cbs e) \<and> halt_reason (run_callbacks cbs e) = Halt_kSemihostHaltRequest"
proof -
  obtain cbs' cb where c: "cbs = cbs' @ [cb]" using assms by (metis rev_exhaust)
  show ?thesis by (cases cb) (simp_all add: c run_callbacks_def RequestHalt_def)
qed

section \<open>Disassembly at a breakpoint\<close>

context debug_session
begin

lemma disassembly_original:
  fixes a :: u32
  assumes ok: "core_ok H t" and run: "run_status t = Run_kHalted"
    and isb: "h_IsBreakpoint H (ucast a) (ext (t_env t))" and has: "h_HasBreakpoint H (ucast a) (ext (t_env t))"
    and w: "word_at (orig (ext (t_env t))) (ucast a) = w" and nc: "\<not> csr_op (DecodeRiscVInst32 w)"
  shows "\<exists>t'. GetDisassembly lib H (ucast a) t =
      (Inr (h_AsString H (decoded (lib_default_size lib) (ucast a) w (DecodeRiscVInst32 w) (state t))), t') \<and>
    word_at (xbytes (ext (t_env t'))) (ucast a) = ebreak_word \<and>
    orig (ext (t_env t')) = orig (ext (t_env t)) \<and> h_HasBreakpoint H (ucast a) (ext (t_env t')) \<and>
    reg_db (state t') = reg_db (state t) \<and> same_frame (state t) (state t')"
proof -
  let ?inst = "decoded (lib_default_size lib) (ucast a) w (DecodeRiscVInst32 w) (state t)"
  obtain x1 where x1: "h_DisableBreakpoint H (ucast a) (ext (t_env t)) = (OkStatus, x1)"
    "word_at (xbytes x1) (ucast a) = w" "h_cached H (ucast a) x1 = None" "h_HasBreakpoint H (ucast a) x1"
    "orig x1 = orig (ext (t_env t))"
    using disable_bp [OF has] w by auto
  let ?t1 = "set_ext x1 t"
  have fr0: "same_frame (state t) (state ?t1)" by (simp add: set_ext_def map_env_def)
  have x: "xregs_ok (state ?t1)" and dm: "code_memory (dec_memory (rv32_decoder ?t1))"
    using ok by (simp_all add: core_ok_def machine_ok_def regs_good_def set_ext_def map_env_def xregs_ok_def code_memory_def)
  have miss: "h_cached H (ucast a) (ext (t_env ?t1)) = None" using x1(3) by simp
  have w1: "rv_word (rv_of mbytes a (state ?t1)) a = w"
    using x1(2) word_at_rv_word [of xbytes "state ?t1" a a] by simp
  obtain t2 where g: "GetDecodedInstruction lib H (ucast a) ?t1 = (?inst, t2)"
    and fr: "same_frame (state ?t1) (state t2)" and db: "reg_db (state t2) = reg_db (state ?t1)"
    and hb: "h_HasBreakpoint H (ucast a) (ext (t_env t2))" "orig (ext (t_env t2)) = orig (ext (t_env t))"
    by (rule fetch_miss [OF x dm miss w1 nc refl])
       (simp add: decoded_frame [OF fr0] has_bp_cache has_bp_load orig_cache orig_load x1(4,5))
  obtain x3 where x3: "h_EnableBreakpoint H (ucast a) (ext (t_env t2)) = (OkStatus, x3)"
    "word_at (xbytes x3) (ucast a) = ebreak_word" "h_HasBreakpoint H (ucast a) x3" "orig x3 = orig (ext (t_env t2))"
    using enable_bp [OF hb(1)] by blast
  have "GetDisassembly lib H (ucast a) t = (Inr (h_AsString H ?inst), set_ext x3 t2)"
    using run isb x1(1) g x3(1) by (simp add: GetDisassembly_def Let_def)
  moreover have "same_frame (state t) (state (set_ext x3 t2))"
    using same_frame_trans [OF fr0 fr] by (simp add: same_frame_def set_ext_def map_env_def)
  moreover have "reg_db (state (set_ext x3 t2)) = reg_db (state t)"
    using db by (simp add: set_ext_def map_env_def)
  ultimately show ?thesis using x3(2-4) hb(2) by (intro exI [of _ "set_ext x3 t2"]) simp
qed

end

end
