(* ===== verification/Debug_Properties.thy ===== *)
theory Debug_Properties
  imports Debug_Library Reference_Session
begin

text \<open>
  What the debug interface guarantees: registers by name and alias, memory, disassembly, the
  run status every call asks for, and what errors leave behind.
\<close>

section \<open>Registers\<close>

text \<open>C34: a register written by one of its names reads back by any other, at the width of the
  register; the pc reads back unless the core is at a breakpoint and was written by another name.\<close>

theorem write_read_register:
  assumes "run_status t = Run_kHalted"
    and "registers (state t) nm = Some r" and "registers (state t) nm' = Some r"
    and "length (db_bytes (reg_db (state t) r)) = n" and "n \<in> {1, 2, 4, 8}"
    and "nm' = ''pc'' \<longrightarrow> nm = ''pc'' \<or> halt_reason (t_env t) \<noteq> Halt_kSoftwareBreakpoint"
  shows "\<exists>t'. WriteRegister nm v t = (OkStatus, t') \<and> ReadRegister nm' t' = Some (Inr (take_bit (8 * n) v))"
proof -
  let ?t0 = "if nm = ''pc'' \<and> halt_reason (t_env t) = Halt_kSoftwareBreakpoint
    then set_halt_reason Halt_kNone t else t"
  let ?t' = "set_register_bytes r (le_bytes n v) ?t0"
  have t0: "registers (state ?t0) = registers (state t)" "run_status ?t0 = run_status t"
    by (simp_all add: set_halt_reason_def map_env_def)
  have "registers (state ?t') nm' = Some r" "run_status ?t' = Run_kHalted"
    "db_bytes (reg_db (state ?t') r) = le_bytes n v"
    using assms(1,3) t0 by (simp_all add: set_register_bytes_def)
  moreover have "\<not> (nm' = ''pc'' \<and> halt_reason (t_env ?t') = Halt_kSoftwareBreakpoint)"
    using assms(6) by (auto simp: set_register_bytes_def set_halt_reason_def map_env_def)
  ultimately show ?thesis
    using WriteRegister_found [OF assms(1,2,4,5)] ReadRegister_written [OF _ _ _ assms(5)] by blast
qed

theorem write_read_register_witness:
  "\<exists>t'. WriteRegister ''a0'' 0x100000005 demo_top = (OkStatus, t') \<and> ReadRegister ''x10'' t' = Some (Inr 5)"
proof -
  have r: "registers (state demo_top) ''a0'' = Some (xreg (state demo_top) 10)"
    "registers (state demo_top) ''x10'' = Some (xreg (state demo_top) 10)"
    using demo_alias [of 10] xregs_okD(1) [OF demo_xregs_ok, of 10] by (simp_all add: demo_names)
  have "take_bit 32 (0x100000005 :: u64) = 5" by simp
  then show ?thesis
    using write_read_register [OF demo_constructed(7) r demo_bytes [OF r(1)], of "0x100000005"] by simp
qed

text \<open>Writing one register leaves what every other register reads as, errors included.\<close>

theorem write_other_register:
  assumes "WriteRegister nm v t = (st, t')" and "registers (state t) nm \<noteq> registers (state t) nm'"
    and "nm' \<noteq> ''pc''"
  shows "ReadRegister nm' t' = ReadRegister nm' t"
proof -
  have "registers (state t') = registers (state t) \<and> run_status t' = run_status t \<and>
      (\<forall>r. registers (state t) nm \<noteq> Some r \<longrightarrow> reg_db (state t') r = reg_db (state t) r)"
    using assms(1)
    by (auto simp: WriteRegister_def set_register_bytes_def set_halt_reason_def map_env_def Let_def
        split: if_splits option.splits)
  then show ?thesis
    using assms(2,3) by (cases "registers (state t) nm'") (simp_all add: ReadRegister_def)
qed

theorem write_other_register_witness:
  "ReadRegister ''a1'' (snd (WriteRegister ''a0'' 7 demo_top)) = ReadRegister ''a1'' demo_top"
proof -
  have "xreg (state demo_top) 10 \<noteq> xreg (state demo_top) 11"
    using xregs_okD(3) [OF demo_xregs_ok, of 10 11] by simp
  then have "registers (state demo_top) ''a0'' \<noteq> registers (state demo_top) ''a1''"
    using demo_alias [of 10] demo_alias [of 11] by (simp add: demo_names)
  then show ?thesis
    using write_other_register [of "''a0''" 7 demo_top _ _ "''a1''"] by (simp add: prod_eq_iff)
qed

text \<open>A debugger can change register object \<open>x0\<close> and reads the new value back, but no program
  sees it: the architectural state, in which \<open>x0\<close> is 0, is the same.\<close>

theorem debugger_x0_is_invisible:
  assumes ok: "xregs_ok (state t)" and pc: "top_pc t = pc_reg (state t)" and run: "run_status t = Run_kHalted"
    and "length (db_bytes (reg_db (state t) (xreg (state t) 0))) = 4"
  shows "\<exists>t'. WriteRegister (xreg_name 0) v t = (OkStatus, t') \<and>
    ReadRegister (xreg_name 0) t' = Some (Inr (take_bit 32 v)) \<and> top_abs xbytes t' = top_abs xbytes t"
proof -
  define r where "r = xreg (state t) 0"
  let ?t' = "set_register_bytes r (le_bytes 4 v) t"
  have r: "registers (state t) (xreg_name 0) = Some r" using xregs_okD(1) [OF ok, of 0] by (simp add: r_def)
  have n: "xreg_name 0 \<noteq> ''pc''" using xreg_name_not_pc [of 0] by (simp add: kPcName_def)
  have w: "WriteRegister (xreg_name 0) v t = (OkStatus, ?t')"
    using WriteRegister_found [OF run r, of 4 v] n assms(4) by (simp add: r_def)
  have rd: "ReadRegister (xreg_name 0) ?t' = Some (Inr (take_bit 32 v))"
    using ReadRegister_written [of ?t' "xreg_name 0" r 4 v] run r n by (simp add: set_register_bytes_def)
  have "xval (state ?t') (unat i) = xval (state t) (unat i)" for i :: regnum
    using xregs_okD(3) [OF ok, of "unat i" 0] unat_regnum_less [of i]
    by (simp add: xval_def set_register_bytes_def r_def)
  moreover have "pc_data_buffer ?t' = pc_data_buffer t"
    using xregs_okD(4) [OF ok, of 0] pc by (simp add: pc_data_buffer_def set_register_bytes_def r_def)
  ultimately have "top_abs xbytes ?t' = top_abs xbytes t"
    by (simp add: top_abs_def rv_of_def) (simp add: set_register_bytes_def)
  with w rd show ?thesis by blast
qed

theorem debugger_x0_is_invisible_witness:
  "\<exists>t'. WriteRegister ''x0'' 9 demo_top = (OkStatus, t') \<and> ReadRegister ''x0'' t' = Some (Inr 9) \<and>
     top_abs rw_mem t' = top_abs rw_mem demo_top"
  using debugger_x0_is_invisible [OF demo_xregs_ok demo_constructed(2,7) demo_bytes [OF xregs_okD(1) [OF demo_xregs_ok, of 0]],
      of 9 rw_mem]
  by (simp add: demo_names)

text \<open>Writing the pc of a core stopped at a breakpoint moves it for good: the halt reason is
  cleared, so the next \<open>Step\<close> or \<open>Run\<close> starts at the new pc and does not step over the breakpoint,
  and the pc reads back as written.\<close>

theorem write_pc_at_breakpoint:
  assumes ok: "xregs_ok (state t)" and pc: "top_pc t = pc_reg (state t)" and run: "run_status t = Run_kHalted"
    and bp: "GetLastHaltReason t = Halt_kSoftwareBreakpoint"
    and len: "length (db_bytes (pc_data_buffer t)) = 4"
  shows "\<exists>t'. WriteRegister ''pc'' v t = (OkStatus, t') \<and> GetLastHaltReason t' = Halt_kNone \<and>
    db_get32 (pc_data_buffer t') = ucast v \<and> ReadRegister ''pc'' t' = Some (Inr (take_bit 32 v)) \<and>
    (\<forall>num. 0 < num \<longrightarrow> Step lib H num t' =
       step_rest lib H num 0 (set_halted False (t'\<lparr>run_status := Run_kSingleStep\<rparr>)))"
proof -
  let ?r = "pc_reg (state t)"
  let ?t' = "set_register_bytes ?r (le_bytes 4 v) (set_halt_reason Halt_kNone t)"
  have r: "registers (state t) ''pc'' = Some ?r" using xregs_okD(2) [OF ok] by (simp add: kPcName_def)
  have l: "length (db_bytes (reg_db (state t) ?r)) = 4" using len pc by (simp add: pc_data_buffer_def)
  have w: "WriteRegister ''pc'' v t = (OkStatus, ?t')"
    using WriteRegister_found [OF run r l, of v] bp by (simp add: GetLastHaltReason_def)
  have h: "GetLastHaltReason ?t' = Halt_kNone" "run_status ?t' = Run_kHalted"
    using run by (simp_all add: GetLastHaltReason_def set_register_bytes_def)
  then have rd: "ReadRegister ''pc'' ?t' = Some (Inr (take_bit 32 v))"
    using ReadRegister_written [of ?t' "''pc''" ?r 4 v] r
    by (simp add: GetLastHaltReason_def set_register_bytes_def)
  have "(le_word (le_bytes 4 v) :: u32) = ucast v" using le_bytes_le_word_ucast [of v] .
  then have "db_get32 (pc_data_buffer ?t') = ucast v"
    using pc by (simp add: pc_data_buffer_def set_register_bytes_def db_get32_def)
  moreover have "Step lib H num ?t' =
      step_rest lib H num 0 (set_halted False (?t'\<lparr>run_status := Run_kSingleStep\<rparr>))" if "0 < num" for num
    using that h by (simp add: Step_def GetLastHaltReason_def)
  ultimately show ?thesis using w h rd by blast
qed

theorem write_pc_at_breakpoint_witness:
  "\<exists>t'. WriteRegister ''pc'' 8 stopped_top = (OkStatus, t') \<and> GetLastHaltReason t' = Halt_kNone \<and>
     db_get32 (pc_data_buffer t') = 8"
  using write_pc_at_breakpoint [OF stopped_state, of 8 std_lib ref_host] by auto

section \<open>Memory and disassembly\<close>

text \<open>Bytes written to memory through the debug interface read back, whatever the length,
  and both calls succeed on a halted core.\<close>

theorem write_read_memory:
  assumes "host_memory H xbytes" and "code_memory (st_memory (state t))"
    and "run_status t = Run_kHalted" and "WriteMemory H a bs t = (r, t')" and "length bs < 2 ^ 64"
  shows "r = Inr (length bs) \<and> fst (ReadMemory H a (length bs) t') = Inr bs"
  by (rule host_memory.memory_write_read [OF assms(1,3,2,4,5)])

theorem write_read_memory_witness:
  "fst (ReadMemory ref_host 100 3 (snd (WriteMemory ref_host 100 [1, 2, 3] demo_top))) = Inr [1, 2, 3]"
proof -
  obtain r t' where w: "WriteMemory ref_host 100 [1, 2, 3] demo_top = (r, t')" by fastforce
  from write_read_memory [OF ref.host_memory_axioms _ demo_constructed(7) w] show ?thesis
    by (simp add: w demo_constructed code_memory_def numeral_3_eq_3)
qed



text \<open>C40: after \<open>SetUpSemiHosting\<close> the debugger's own memory writes go through the watcher. With a
  semihost that watches the address \<open>tohost\<close> it is given and calls back at a store there with which
  the program ends, a \<open>WriteMemory\<close> of such a value to that address halts the core for a semihost
  request. The comments in the code say that these accesses bypass watch points and semihosting.\<close>

theorem debug_write_triggers_semihosting:
  assumes "semihost_watcher H watches ends" and "run_status t = Run_kHalted" and "SetUpSemiHosting H magic t = (st, t1)"
    and "ends bs"
  shows "st = OkStatus \<and> (\<exists>t2. WriteMemory H (tohost magic) bs t1 = (Inr (length bs), t2) \<and> halted (t_env t2) \<and>
    GetLastHaltReason t2 = Halt_kSemihostHaltRequest)"
proof -
  have t1: "st = OkStatus" "run_status t1 = Run_kHalted" "st_memory (state t1) = WatcherMemory"
    "ext (t_env t1) = h_SemiHost H magic (ext (t_env t))"
    using assms(2,3) by (auto simp: SetUpSemiHosting_def set_memory_def set_ext_def map_env_def)
  obtain cbs x where st: "h_store H WatcherMemory (tohost magic) bs (ext (t_env t1)) = (cbs, x)" by fastforce
  have "watches (tohost magic) (ext (t_env t1))" unfolding t1(4) by (rule semihost_watcher.watch_set_up [OF assms(1)])
  then have "cbs \<noteq> []" using semihost_watcher.end_called [OF assms(1) _ assms(4)] st by (metis fst_conv)
  let ?e = "run_callbacks cbs ((t_env t1)\<lparr>ext := x\<rparr>)"
  have "halted ?e \<and> halt_reason ?e = Halt_kSemihostHaltRequest"
    using run_callbacks_halt [OF \<open>cbs \<noteq> []\<close>] .
  moreover have "WriteMemory H (tohost magic) bs t1 = (Inr (length bs), map_env (\<lambda>_. ?e) t1)"
    using st t1(2,3) by (simp add: WriteMemory_def mem_of_def map_env_def)
  ultimately show ?thesis using t1(1) by (auto simp: GetLastHaltReason_def map_env_def)
qed

definition magic_16 :: semihost_addresses where
  "magic_16 = \<lparr>tohost_ready = 8, tohost = 16, fromhost_ready = 24, fromhost = 32\<rparr>"

theorem debug_write_triggers_semihosting_witness:
  "\<exists>t2. WriteMemory ref_host 16 [1] (snd (SetUpSemiHosting ref_host magic_16 demo_top)) = (Inr 1, t2) \<and> halted (t_env t2) \<and>
     GetLastHaltReason t2 = Halt_kSemihostHaltRequest"
proof -
  obtain st t1 where s: "SetUpSemiHosting ref_host magic_16 demo_top = (st, t1)" by fastforce
  from debug_write_triggers_semihosting [OF ref_watcher.semihost_watcher_axioms demo_constructed(7) s, of "[1]"]
  moreover have "tohost magic_16 = 16" by (simp add: magic_16_def)
  ultimately show ?thesis by (simp add: s)
qed

section \<open>The core must be halted\<close>

text \<open>The operations of the debug interface that test the run status refuse with a failed
  precondition, whatever their arguments, and change nothing.\<close>

definition debug_refused :: "'x top_env mpact \<Rightarrow> 'x host \<Rightarrow> 'x top \<Rightarrow> bool" where
  "debug_refused lib H t \<longleftrightarrow>
     (\<forall>nm. \<exists>m. ReadRegister nm t = Some (Inl (FailedPreconditionError m))) \<and>
     (\<forall>nm v. \<exists>m. WriteRegister nm v t = (FailedPreconditionError m, t)) \<and>
     (\<forall>nm. \<exists>m. GetRegisterDataBuffer nm t = Inl (FailedPreconditionError m)) \<and>
     (\<forall>a n. \<exists>m. ReadMemory H a n t = (Inl (FailedPreconditionError m), t)) \<and>
     (\<forall>a bs. \<exists>m. WriteMemory H a bs t = (Inl (FailedPreconditionError m), t)) \<and>
     (\<forall>a. \<exists>m. SetSwBreakpoint H a t = (FailedPreconditionError m, t)) \<and>
     (\<forall>a. \<exists>m. ClearSwBreakpoint H a t = (FailedPreconditionError m, t)) \<and>
     (\<exists>m. ClearAllSwBreakpoints H t = (FailedPreconditionError m, t)) \<and>
     (\<forall>a. \<exists>m. GetDisassembly lib H a t = (Inl (FailedPreconditionError m), t)) \<and>
     (\<forall>magic. \<exists>m. SetUpSemiHosting H magic t = (FailedPreconditionError m, t))"

lemma not_halted_refused: "run_status t \<noteq> Run_kHalted \<Longrightarrow> debug_refused lib H t"
  by (simp add: debug_refused_def ReadRegister_def WriteRegister_def GetRegisterDataBuffer_def ReadMemory_def
      WriteMemory_def SetSwBreakpoint_def ClearSwBreakpoint_def ClearAllSwBreakpoints_def
      GetDisassembly_def SetUpSemiHosting_def)

lemma GetInstruction_status:
  "GetInstruction lib H a (t\<lparr>run_status := r\<rparr>) =
     (fst (GetInstruction lib H a t), (snd (GetInstruction lib H a t))\<lparr>run_status := r\<rparr>)"
  by (simp add: GetInstruction_def GetDecodedInstruction_def Let_def set_ext_def map_env_def
      split: option.split prod.split)

text \<open>C35: which operations of the debug interface a core that is not halted refuses. Registers, memory,
  setting and clearing breakpoints, disassembly and the semihosting set-up refuse with a failed
  precondition and change nothing, and so does \<open>Step\<close>. \<open>HasBreakpoint\<close> and \<open>GetInstruction\<close> do not look at the
  run status: they answer, and \<open>GetInstruction\<close> uses the decode cache, as on a halted core.\<close>

theorem debug_calls_refused:
  assumes "run_status t \<noteq> Run_kHalted"
  shows "debug_refused lib H t \<and> (\<exists>e. Step lib H num t = Some (Inl e, t) \<and> e \<noteq> OkStatus) \<and>
    HasBreakpoint H a t = HasBreakpoint H a (t\<lparr>run_status := Run_kHalted\<rparr>) \<and>
    fst (GetInstruction lib H a t) = fst (GetInstruction lib H a (t\<lparr>run_status := Run_kHalted\<rparr>)) \<and>
    snd (GetInstruction lib H a t) =
      (snd (GetInstruction lib H a (t\<lparr>run_status := Run_kHalted\<rparr>)))\<lparr>run_status := run_status t\<rparr>"
proof -
  have "GetInstruction lib H a t = GetInstruction lib H a ((t\<lparr>run_status := Run_kHalted\<rparr>)\<lparr>run_status := run_status t\<rparr>)"
    by simp
  also have "\<dots> = (fst (GetInstruction lib H a (t\<lparr>run_status := Run_kHalted\<rparr>)),
      (snd (GetInstruction lib H a (t\<lparr>run_status := Run_kHalted\<rparr>)))\<lparr>run_status := run_status t\<rparr>)"
    by (rule GetInstruction_status)
  finally show ?thesis
    using not_halted_refused [OF assms] assms by (simp add: Step_def HasBreakpoint_def)
qed

theorem debug_calls_refused_witness:
  "(\<exists>m. WriteRegister ''a0'' 1 bp_running = (FailedPreconditionError m, bp_running)) \<and>
   (\<exists>m. SetSwBreakpoint ref_host 8 bp_running = (FailedPreconditionError m, bp_running))"
proof -
  have "run_status bp_running \<noteq> Run_kHalted" by (simp add: bp_running_def set_halted_def map_env_def)
  from debug_calls_refused [OF this, of std_lib ref_host] show ?thesis by (auto simp: debug_refused_def)
qed

section \<open>Errors and lost information in single steps\<close>

text \<open>C38: when \<open>Step\<close> cannot enable the breakpoint again it returns the error with the core still
  marked as single stepping. From then on \<open>Step\<close> and \<open>Halt\<close> refuse, and so do registers, memory,
  setting and clearing breakpoints, disassembly and the semihosting set-up; \<open>Wait\<close> returns and does
  not help. (\<open>HasBreakpoint\<close> and \<open>GetInstruction\<close>, which never test the run status, still answer.)\<close>

theorem step_error_leaves_single_step:
  assumes "Step lib H num t = Some (Inl st, t')" and "0 < num" and "run_status t = Run_kHalted"
  shows "GetRunStatus t' = Run_kSingleStep \<and>
    Step lib H num' t' = Some (Inl (if num' \<le> 0 then InvalidArgumentError ''Step count must be > 0''
        else FailedPreconditionError ''RV32ITop::Step: Core must be halted''), t') \<and>
    Halt t' = (FailedPreconditionError ''RV32ITop::Halt: Core is not running'', t') \<and>
    debug_refused lib H t' \<and>
    (\<exists>t''. Wait t' = Some (OkStatus, t'') \<and> GetRunStatus t'' = Run_kSingleStep)"
proof -
  let ?t0 = "set_halted False (t\<lparr>run_status := Run_kSingleStep\<rparr>)"
  have no: "step_rest lib H num c u \<noteq> Some (Inl st, t')" for c u
    by (auto simp: step_rest_def Let_def bind_eq_Some_conv)
  then obtain a t1 where a: "step_over_breakpoint lib H ?t0 = Some (a, t1)"
    using assms by (auto simp: Step_def Let_def bind_eq_Some_conv split: if_splits)
  then have "t1 = t'"
    using assms no by (cases a) (auto simp: Step_def Let_def split: if_splits)
  then have "run_status t' = Run_kSingleStep"
    using step_over_breakpoint_counts(1) [OF a] by (simp add: control_same_def set_halted_def map_env_def)
  with not_halted_refused [of t' lib H] show ?thesis by (simp add: GetRunStatus_def Step_def Halt_def Wait_def)
qed

theorem step_error_leaves_single_step_witness:
  "\<exists>t'. Step std_lib stuck_host 1 stopped_top = Some (Inl (InternalError ''cannot enable''), t') \<and>
     GetRunStatus t' = Run_kSingleStep \<and>
     Halt t' = (FailedPreconditionError ''RV32ITop::Halt: Core is not running'', t')"
proof -
  have "\<exists>t'. Step std_lib stuck_host 1 stopped_top = Some (Inl (InternalError ''cannot enable''), t')"
    by (simp add: Step_def stopped_top_def demo_constructed step_over_breakpoint_def stuck_host_def
        GetDecodedInstruction_def nop_inst_def Execute_def set_halted_def set_halt_reason_def map_env_def Let_def)
  then obtain t' where t': "Step std_lib stuck_host 1 stopped_top = Some (Inl (InternalError ''cannot enable''), t')" ..
  with step_error_leaves_single_step [OF t' _ stopped_state(3)] show ?thesis by simp
qed

text \<open>C39: stepping once from a breakpoint executes the instruction under it and then stores the
  \<open>pc\<close> variable of the loop, which no turn has set: the recorded pc becomes indeterminate.\<close>

theorem step_one_over_breakpoint:
  assumes "Step lib H 1 t = Some (Inr c, t')" and "GetLastHaltReason t = Halt_kSoftwareBreakpoint"
  shows "c = 1 \<and> previous_pc t' = None"
proof -
  let ?t0 = "set_halted False (t\<lparr>run_status := Run_kSingleStep\<rparr>)"
  note assms = assms [unfolded GetLastHaltReason_def]
  have h: "run_status t = Run_kHalted" using assms(1) by (auto simp: Step_def split: if_splits)
  obtain a t1 where a: "step_over_breakpoint lib H ?t0 = Some (a, t1)"
    using assms h by (auto simp: Step_def Let_def bind_eq_Some_conv)
  then have r: "step_rest lib H 1 1 t1 = Some (Inr c, t')"
    using assms h by (cases a) (auto simp: Step_def Let_def)
  from step_rest_counts [OF r] show ?thesis by auto
qed

theorem step_one_over_breakpoint_witness:
  "\<exists>t2 t3. Step std_lib ref_host 1 bp_top = Some (Inr 1, t2) \<and> previous_pc t2 = Some 0 \<and>
     Step std_lib ref_host 1 t2 = Some (Inr 1, t3) \<and> previous_pc t3 = None"
proof -
  have nr: "halt_reason (t_env demo_top) \<noteq> Halt_kSoftwareBreakpoint" by (simp add: demo_constructed)
  obtain t2 where t2: "Step std_lib ref_host 1 bp_top = Some (Inr 1, t2)" "core_ok ref_host t2"
    "run_status t2 = Run_kHalted" "GetLastHaltReason t2 = Halt_kSoftwareBreakpoint" "previous_pc t2 = Some 0"
    using ref_session.breakpoint_session [OF demo_core_ok demo_constructed(7) nr demo_constructed(5) bp_set, of 1]
    by auto
  obtain t3 where t3: "Step std_lib ref_host 1 t2 = Some (Inr 1, t3)"
    using bp_second_step [OF t2(1)] by blast
  from step_one_over_breakpoint [OF t3 t2(4)] t2 t3 show ?thesis by blast
qed

section \<open>Breakpoint handlers\<close>

text \<open>\<open>ebreak\<close> asks its handlers in the order they were added until one accepts. The ones asked
  before it have their effects, the ones after it are not asked, and nothing is logged; if none
  accepts, the two warnings are logged and execution goes on.\<close>

theorem ebreak_asks_handlers_in_order:
  assumes "on_ebreak s = fs @ gs" and "try_handlers fs inst s = (False, s1)"
  shows "case gs of
      [] \<Rightarrow> EBreak inst s = s1\<lparr>slog := slog s @ [LogEBreakNoHandler (where_of inst), LogTreatingAsNop]\<rparr>
    | h # hs \<Rightarrow> fst (h inst (env s1)) \<longrightarrow> EBreak inst s = s\<lparr>env := snd (h inst (env s1))\<rparr>"
proof -
  obtain e where e: "s1 = s\<lparr>env := e\<rparr>" using try_handlers_env [of fs inst s] assms(2) by auto
  show ?thesis
  proof (cases gs)
    case Nil
    then show ?thesis using assms by (simp add: EBreak_def e)
  next
    case (Cons h hs)
    then show ?thesis
      using assms by (auto simp: EBreak_def try_handlers_append call_handler_def e split: prod.split)
  qed
qed

theorem ebreak_asks_handlers_in_order_witness:
  "EBreak None ((state demo_top)\<lparr>on_ebreak := [ebreak_handler ref_host]\<rparr>) =
     (state demo_top)\<lparr>on_ebreak := [ebreak_handler ref_host],
       slog := slog (state demo_top) @ [LogEBreakNoHandler None, LogTreatingAsNop]\<rparr>"
  using ebreak_asks_handlers_in_order [of "(state demo_top)\<lparr>on_ebreak := [ebreak_handler ref_host]\<rparr>"
      "[ebreak_handler ref_host]" "[]" None "(state demo_top)\<lparr>on_ebreak := [ebreak_handler ref_host]\<rparr>"]
  by (simp add: call_handler_def ebreak_handler_def where_of_def)

end
