(* ===== verification/Session_Runs.thy ===== *)
theory Session_Runs
  imports Session_Library
begin

text \<open>
  Runs of a session: what a halt request does to the thread, the thread undisturbed, and the
  schedules in which a step of another party falls between two steps of the thread.
\<close>

lemma session_run_trans:
  "session_run lib H as s u \<Longrightarrow> session_run lib H bs u v \<Longrightarrow> session_run lib H (as @ bs) s v"
  by (auto simp: session_run_append)

section \<open>A requested halt ends the run\<close>

text \<open>The turns a thread needs to store the run status once the halt flag is set.\<close>

fun turns_to_stop :: "run_position \<Rightarrow> nat" where
  "turns_to_stop T_start = 3"
| "turns_to_stop (T_loop pc d p) = 2"
| "turns_to_stop T_status = 1"
| "turns_to_stop p = 0"

lemma active_turns: "active p \<longleftrightarrow> 0 < turns_to_stop p"
  by (cases p) simp_all

definition stopping :: "nat \<Rightarrow> 'x top \<Rightarrow> 'x session \<Rightarrow> bool" where
  "stopping i t s \<longleftrightarrow>
     i < length (threads s) \<and> active (threads s ! i) \<and> halted (t_env (s_top s)) \<and>
     halt_reason (t_env (s_top s)) = Halt_kUserRequest \<and>
     counter_num_instructions (s_top s) = counter_num_instructions t"

definition stopped_run :: "'x top \<Rightarrow> 'x session \<Rightarrow> bool" where
  "stopped_run t s \<longleftrightarrow>
     run_status (s_top s) = Run_kHalted \<and> halt_reason (t_env (s_top s)) = Halt_kUserRequest \<and>
     counter_num_instructions (s_top s) = counter_num_instructions t"

context core
begin

lemma client_call_running:
  assumes "client_call lib H t t'" and "machine_ok H t" and "run_status t = Run_kRunning"
  shows "t_env t' = t_env t" "counter_num_instructions t' = counter_num_instructions t"
proof -
  have q: "quiet H t t'"
    using client_call_quiet [OF assms(1,2)] assms(3) by (auto simp: Step_def split: if_splits)
  show "t_env t' = t_env t" "counter_num_instructions t' = counter_num_instructions t"
    using q assms(3) by (auto simp: quiet_def)
qed

lemma stopping_step:
  assumes ok: "session_ok H s" and st: "stopping i t s" and step: "session_step lib H a s u"
  shows "if a = Thread i
    then (if turns_to_stop (threads s ! i) = 1 then stopped_run t u
          else stopping i t u \<and> turns_to_stop (threads u ! i) = turns_to_stop (threads s ! i) - 1)
    else stopping i t u \<and> threads u ! i = threads s ! i"
proof -
  have i: "i < length (threads s)" "active (threads s ! i)" using st by (simp_all add: stopping_def)
  note r = active_thread_running [OF ok i]
  from step show ?thesis
  proof cases
    case (client_calls t')
    then show ?thesis
      using client_call_running [OF client_calls(5) session_okD(1) [OF ok] r(1)] st by (simp add: stopping_def)
  next
    case (thread_turn j p t')
    show ?thesis
    proof (cases "j = i")
      case True
      then show ?thesis
        using thread_turn i st
        by (cases "threads s ! i")
           (auto simp: stopping_def stopped_run_def Let_def set_pc_value_def)
    next
      case False
      then have "threads s ! j = T_notify \<or> threads s ! j = T_done"
        using r(3) [OF thread_turn(4)] by (cases "threads s ! j") auto
      then have "t_env t' = t_env (s_top s) \<and> counter_num_instructions t' = counter_num_instructions (s_top s)"
        using thread_turn(5) by (auto split: if_splits)
      then show ?thesis using False thread_turn st by (simp add: stopping_def)
    qed
  next
    case (thread_undefined j)
    have "j \<noteq> i"
    proof
      assume "j = i"
      moreover have "threads s ! i \<noteq> T_notify" using i(2) by auto
      ultimately show False
        using thread_step_total [OF session_okD(1) [OF ok], of "threads s ! i"] thread_undefined(5) by auto
    qed
    then show ?thesis using thread_undefined st by (simp add: stopping_def)
  next
    case (halt_request st' t')
    then show ?thesis
      using st r(1) by (simp add: stopping_def Halt_def set_halted_def set_halt_reason_def map_env_def) auto
  next
    case (halt_part h t')
    then show ?thesis
      using st r(1)
      by (cases "halt_call s") (auto simp: stopping_def set_halted_def set_halt_reason_def map_env_def)
  qed (use r st in \<open>auto simp: stopping_def Run_prepare_def nth_append\<close>)
qed

lemma stopping_run:
  assumes "session_run lib H as s s'" and "session_ok H s" and "stopping i t s"
    and "turns_to_stop (threads s ! i) \<le> count_list as (Thread i)"
  shows "\<exists>as1 as2 u. as = as1 @ as2 \<and> session_run lib H as1 s u \<and> session_run lib H as2 u s' \<and>
    stopped_run t u \<and> count_list as1 (Thread i) = turns_to_stop (threads s ! i)"
  using assms
proof (induction rule: session_run.induct)
  case (run_nil s)
  then show ?case by (auto simp: stopping_def active_turns)
next
  case (run_cons a s u as v)
  note st = stopping_step [OF run_cons.prems(1,2) run_cons.hyps(1)]
    and ok = session_step_ok [OF run_cons.hyps(1) run_cons.prems(1)]
  have pos: "0 < turns_to_stop (threads s ! i)" using run_cons.prems(2) by (simp add: stopping_def active_turns)
  show ?case
  proof (cases "a = Thread i \<and> turns_to_stop (threads s ! i) = 1")
    case True
    then have "stopped_run t u" using st by simp
    then show ?thesis
      using True run_cons.hyps by (intro exI [of _ "[a]"] exI [of _ as] exI [of _ u]) auto
  next
    case False
    then have "stopping i t u \<and> turns_to_stop (threads u ! i) \<le> count_list as (Thread i) \<and>
        turns_to_stop (threads u ! i) + (if a = Thread i then 1 else 0) = turns_to_stop (threads s ! i)"
      using st run_cons.prems(3) pos by (auto split: if_splits)
    then obtain as1 as2 w where "as = as1 @ as2" "session_run lib H as1 u w" "session_run lib H as2 w v"
      "stopped_run t w"
      "count_list as1 (Thread i) + (if a = Thread i then 1 else 0) = turns_to_stop (threads s ! i)"
      using run_cons.IH [OF ok] by metis
    then show ?thesis
      using run_cons.hyps by (intro exI [of _ "a # as1"] exI [of _ as2] exI [of _ w]) auto
  qed
qed

lemma stopping_alone:
  assumes "session_ok H s" and "stopping i t s" and "\<not> crashed s"
  shows "\<exists>u. session_run lib H (replicate (turns_to_stop (threads s ! i)) (Thread i)) s u \<and> stopped_run t u"
  using assms
proof (induction "turns_to_stop (threads s ! i)" arbitrary: s)
  case 0
  then show ?case by (simp add: stopping_def active_turns)
next
  case (Suc n)
  have i: "i < length (threads s)" "active (threads s ! i)" using Suc.prems(2) by (simp_all add: stopping_def)
  have "threads s ! i \<noteq> T_notify" using i(2) by auto
  then obtain p t' where p: "thread_step lib H (threads s ! i) (s_top s) = Some (p, t')"
    using thread_step_total [OF session_okD(1) [OF Suc.prems(1)], of "threads s ! i"] by auto
  let ?u = "s\<lparr>s_top := t', threads := (threads s)[i := p]\<rparr>"
  have u: "session_step lib H (Thread i) s ?u" by (rule thread_turn [OF Suc.prems(3) i(1) p])
  note st = stopping_step [OF Suc.prems(1,2) u] and ok = session_step_ok [OF u Suc.prems(1)]
  show ?case
  proof (cases "turns_to_stop (threads s ! i) = 1")
    case True
    then show ?thesis using st u by (intro exI [of _ ?u]) (simp add: run_nil exI [of _ ?u])
  next
    case False
    then have "n = turns_to_stop (threads ?u ! i)" "stopping i t ?u" using st Suc.hyps(2) by (simp_all split: if_splits)
    then obtain v where "session_run lib H (replicate n (Thread i)) ?u v" "stopped_run t v"
      using Suc.hyps(1) [OF _ ok] Suc.prems(3) by auto
    then show ?thesis using u by (auto simp: Suc.hyps(2) [symmetric])
  qed
qed

lemma halt_stopping:
  assumes "session_ok H s" and "i < length (threads s)" "active (threads s ! i)" and "Halt (s_top s) = (st, t)"
  shows "st = OkStatus" "stopping i (s_top s) (s\<lparr>s_top := t\<rparr>)"
  using assms(2-4) active_thread_running(1) [OF assms(1-3)]
  by (auto simp: stopping_def Halt_def set_halted_def set_halt_reason_def map_env_def split: if_splits)

end

section \<open>The thread undisturbed\<close>

text \<open>A session whose only moving party is one thread.\<close>

definition alone :: "client_position \<Rightarrow> run_position \<Rightarrow> 'x top \<Rightarrow> 'x session" where
  "alone c p t = \<lparr>s_top = t, client = c, halt_call = H_none, threads = [p], crashed = False\<rparr>"

lemma alone_simps [simp]:
  "s_top (alone c p t) = t" "client (alone c p t) = c" "threads (alone c p t) = [p]"
  "crashed (alone c p t) = False" "halt_call (alone c p t) = H_none"
  by (simp_all add: alone_def)

lemma alone_turn:
  "thread_step lib H p t = Some (p', t') \<Longrightarrow> session_step lib H (Thread 0) (alone c p t) (alone c p' t')"
  using session_step.thread_turn [of "alone c p t" 0 lib H p' t'] by (simp add: alone_def)

lemma alone_stepE:
  assumes "session_step lib H (Thread 0) (alone c p t) s"
  obtains (turn) p' t' where "thread_step lib H p t = Some (p', t')" "s = alone c p' t'"
  | (undefined) "crashed s"
  using assms by (cases rule: thread_stepE) (auto simp: alone_def)

lemma crashed_runD: "session_run lib H as s s' \<Longrightarrow> crashed s \<Longrightarrow> s' = s"
  by (cases rule: session_run.cases) (auto elim: session_stepE)

lemma alone_runE:
  assumes "session_run lib H (replicate (Suc n) (Thread 0)) (alone c p t) (alone c q u)"
  obtains p' t' where "thread_step lib H p t = Some (p', t')"
    "session_run lib H (replicate n (Thread 0)) (alone c p' t') (alone c q u)"
  using assms by (auto elim!: alone_stepE dest: crashed_runD)

lemma alone_run_turn:
  "thread_step lib H p t = Some (p', t') \<Longrightarrow>
   session_run lib H (replicate n (Thread 0)) (alone c p' t') s \<Longrightarrow>
   session_run lib H (replicate (Suc n) (Thread 0)) (alone c p t) s"
  using alone_turn by fastforce

lemma done_run: "session_run lib H (replicate n (Thread 0)) (alone c T_done t) (alone c q u) \<Longrightarrow> u = t \<and> q = T_done"
proof (induction n)
  case 0
  then show ?case by (simp add: alone_def)
next
  case (Suc n)
  then show ?case by (elim alone_runE) simp
qed

text \<open>The end of a thread that has found the halt flag set.\<close>

definition finish_run :: "u32 option \<Rightarrow> u32 \<Rightarrow> 'x top \<Rightarrow> 'x top" where
  "finish_run pc p t =
     (set_pc_value p (t\<lparr>previous_pc := pc\<rparr>))\<lparr>run_status := Run_kHalted, run_halted := Some True\<rparr>"

lemma run_thread_finish:
  "run_thread lib H fuel t = Some t' \<longleftrightarrow>
     (\<exists>pc d p u. run_loop lib H fuel None (db_id (pc_data_buffer t), db_get32 (pc_data_buffer t), t) =
        Some (pc, d, p, u) \<and> run_halted u = Some False \<and> t' = finish_run pc p u)"
  by (simp add: run_thread_Some finish_run_def)

text \<open>What the thread has stored when it is about to notify.\<close>

definition stored_run :: "u32 option \<Rightarrow> u32 \<Rightarrow> 'x top \<Rightarrow> 'x top" where
  "stored_run pc p t = (set_pc_value p (t\<lparr>previous_pc := pc\<rparr>))\<lparr>run_status := Run_kHalted\<rparr>"

lemma finish_run_stored:
  "finish_run pc p t = (stored_run pc p t)\<lparr>run_halted := Some True\<rparr>"
  by (simp add: finish_run_def stored_run_def)

lemma stop_turns:
  assumes "halted (t_env t)"
  shows "session_run lib H [Thread 0, Thread 0] (alone c (T_loop pc d p) t) (alone c T_notify (stored_run pc p t))"
proof -
  let ?t1 = "set_pc_value p (t\<lparr>previous_pc := pc\<rparr>)"
  have 1: "thread_step lib H (T_loop pc d p) t = Some (T_status, ?t1)" using assms by simp
  have 2: "thread_step lib H T_status ?t1 = Some (T_notify, stored_run pc p t)" by (simp add: stored_run_def)
  from run_cons [OF alone_turn [OF 1] run_cons [OF alone_turn [OF 2] run_nil]] show ?thesis .
qed

lemma finish_turns:
  assumes "halted (t_env t)" and "run_halted t = Some False"
  shows "session_run lib H (replicate 3 (Thread 0)) (alone c (T_loop pc d p) t) (alone c T_done (finish_run pc p t))"
proof -
  have "thread_step lib H T_notify (stored_run pc p t) = Some (T_done, finish_run pc p t)"
    using assms(2) by (auto simp: finish_run_stored stored_run_def set_pc_value_def)
  from session_run_trans [OF stop_turns [OF assms(1)] run_cons [OF alone_turn [OF this] run_nil]]
  show ?thesis by (simp only: numeral_3_eq_3 replicate.simps append.simps)
qed

lemma loop_turns:
  assumes "run_loop lib H fuel pc (d, p, t) = Some (pc', d', p', t')"
  shows "halted (t_env t') \<and>
    (\<exists>n. session_run lib H (replicate n (Thread 0)) (alone c (T_loop pc d p) t) (alone c (T_loop pc' d' p') t'))"
  using assms
proof (induction fuel arbitrary: pc d p t)
  case (Suc fuel)
  show ?case
  proof (cases "halted (t_env t)")
    case True
    then show ?thesis using Suc.prems by (auto intro: exI [of _ 0])
  next
    case False
    then obtain d1 p1 t1 where b: "loop_body lib H (d, p, t) = Some (d1, p1, t1)"
      "run_loop lib H fuel (Some p) (d1, p1, t1) = Some (pc', d', p', t')"
      using Suc.prems by (auto split: option.splits)
    have "thread_step lib H (T_loop pc d p) t = Some (T_loop (Some p) d1 p1, t1)"
      using False b(1) by simp
    then show ?thesis using Suc.IH [OF b(2)] alone_run_turn by metis
  qed
qed simp

lemma notify_turns:
  assumes "session_run lib H (replicate n (Thread 0)) (alone c T_notify t) (alone c T_done t2)"
  shows "run_halted t = Some False \<and> t2 = t\<lparr>run_halted := Some True\<rparr>"
proof (cases n)
  case 0
  then show ?thesis using assms by (simp add: alone_def)
next
  case (Suc m)
  from assms [unfolded Suc] obtain p' u where u: "thread_step lib H T_notify t = Some (p', u)"
    "session_run lib H (replicate m (Thread 0)) (alone c p' u) (alone c T_done t2)"
    by (rule alone_runE)
  then have "p' = T_done" "u = t\<lparr>run_halted := Some True\<rparr>" "run_halted t = Some False" by (auto split: if_splits)
  then show ?thesis using done_run u(2) by fast
qed

lemma status_turns:
  assumes "session_run lib H (replicate n (Thread 0)) (alone c T_status t) (alone c T_done t2)"
  shows "run_halted t = Some False \<and> t2 = t\<lparr>run_status := Run_kHalted, run_halted := Some True\<rparr>"
proof (cases n)
  case 0
  then show ?thesis using assms by (simp add: alone_def)
next
  case (Suc m)
  from assms [unfolded Suc] obtain p' u where u: "thread_step lib H T_status t = Some (p', u)"
    "session_run lib H (replicate m (Thread 0)) (alone c p' u) (alone c T_done t2)"
    by (rule alone_runE)
  then show ?thesis using notify_turns [of lib H m c u t2] by auto
qed

lemma turns_loop:
  assumes "session_run lib H (replicate n (Thread 0)) (alone c (T_loop pc d p) t) (alone c T_done t2)"
  shows "\<exists>pc' d' p' t'. run_loop lib H n pc (d, p, t) = Some (pc', d', p', t') \<and>
    run_halted t' = Some False \<and> t2 = finish_run pc' p' t'"
  using assms
proof (induction n arbitrary: pc d p t)
  case 0
  then show ?case by (simp add: alone_def)
next
  case (Suc n)
  from Suc.prems obtain q u where u: "thread_step lib H (T_loop pc d p) t = Some (q, u)"
    "session_run lib H (replicate n (Thread 0)) (alone c q u) (alone c T_done t2)"
    by (elim alone_runE) blast
  show ?case
  proof (cases "halted (t_env t)")
    case False
    then obtain d1 p1 where "loop_body lib H (d, p, t) = Some (d1, p1, u)" "q = T_loop (Some p) d1 p1"
      using u(1) by auto
    then show ?thesis using Suc.IH [of "Some p" d1 p1 u] u(2) False by simp
  next
    case True
    let ?t1 = "set_pc_value p (t\<lparr>previous_pc := pc\<rparr>)"
    have q: "q = T_status" "u = ?t1" using True u(1) by simp_all
    have "run_halted t = Some False \<and> t2 = finish_run pc p t"
      using status_turns [of lib H n c ?t1 t2] u(2) by (auto simp: q finish_run_def set_pc_value_def)
    then show ?thesis using True by simp
  qed
qed

lemma thread_alone:
  "(\<exists>n. session_run lib H (replicate n (Thread 0)) (alone c T_start t) (alone c T_done t2)) \<longleftrightarrow>
    (\<exists>fuel. run_thread lib H fuel t = Some t2)"
    (is "?turns \<longleftrightarrow> ?thread")
proof
  let ?db = "pc_data_buffer t"
  have start: "thread_step lib H T_start t = Some (T_loop None (db_id ?db) (db_get32 ?db), t)" by (simp add: Let_def)
  { assume ?turns
    then obtain n where n: "session_run lib H (replicate n (Thread 0)) (alone c T_start t) (alone c T_done t2)" by blast
    then obtain m where "n = Suc m" by (cases n) (auto simp: alone_def)
    from n [unfolded this] have "session_run lib H (replicate m (Thread 0)) (alone c (T_loop None (db_id ?db) (db_get32 ?db)) t) (alone c T_done t2)"
      by (rule alone_runE) (use start in auto)
    then show ?thread using turns_loop run_thread_finish by metis
  next
    assume ?thread
    then obtain fuel pc d p u where f: "run_loop lib H fuel None (db_id ?db, db_get32 ?db, t) = Some (pc, d, p, u)"
      "run_halted u = Some False" "t2 = finish_run pc p u"
      by (auto simp: run_thread_finish)
    from loop_turns [OF f(1)] obtain n where n: "halted (t_env u)"
      "session_run lib H (replicate n (Thread 0)) (alone c (T_loop None (db_id ?db) (db_get32 ?db)) t) (alone c (T_loop pc d p) u)"
      by blast
    from finish_turns [OF n(1) f(2)] n(2)
    have "session_run lib H (replicate (n + 3) (Thread 0)) (alone c (T_loop None (db_id ?db) (db_get32 ?db)) t) (alone c T_done t2)"
      unfolding replicate_add f(3) by (auto simp: session_run_append)
    then show ?turns using alone_run_turn [OF start] by blast }
qed

section \<open>Up to the notification\<close>

text \<open>After \<open>n\<close> turns the thread is about to notify, in the state \<open>u\<close>; until then the core runs and
  nothing has been notified.\<close>

primrec ends_in :: "'x top_env mpact \<Rightarrow> 'x host \<Rightarrow> nat \<Rightarrow> run_position \<Rightarrow> 'x top \<Rightarrow> 'x top \<Rightarrow> bool" where
  "ends_in lib H 0 p t u = (p = T_notify \<and> t = u \<and> run_halted u = Some False)"
| "ends_in lib H (Suc n) p t u =
     (run_status t = Run_kRunning \<and> run_halted t = Some False \<and>
      (\<exists>p' t'. thread_step lib H p t = Some (p', t') \<and> ends_in lib H n p' t' u))"

lemma ends_in_waiting: "ends_in lib H n p t u \<Longrightarrow> run_halted t = Some False"
  by (cases n) simp_all

lemma ends_in_last: "ends_in lib H n p t u \<Longrightarrow> run_halted u = Some False"
  by (induction n arbitrary: p t) auto

lemma stopping_ends_in:
  assumes "halted (t_env t)" and "run_status t = Run_kRunning" and "run_halted t = Some False"
  shows "ends_in lib H 2 (T_loop pc d p) t (stored_run pc p t)"
  using assms by (simp add: numeral_2_eq_2 stored_run_def set_pc_value_def)

lemma run_loop_ends_in:
  assumes "run_loop lib H fuel pc (d, p, t) = Some (pc', d', p', t')"
    and "run_status t = Run_kRunning" and "run_halted t = Some False"
  shows "\<exists>n \<le> Suc fuel. ends_in lib H n (T_loop pc d p) t (stored_run pc' p' t')"
  using assms
proof (induction fuel arbitrary: pc d p t)
  case (Suc fuel)
  show ?case
  proof (cases "halted (t_env t)")
    case True
    from stopping_ends_in [OF this Suc.prems(2,3)] Suc.prems(1) True show ?thesis
      by (intro exI [of _ 2]) (simp del: ends_in.simps)
  next
    case False
    then obtain d1 p1 t1 where b: "loop_body lib H (d, p, t) = Some (d1, p1, t1)"
      "run_loop lib H fuel (Some p) (d1, p1, t1) = Some (pc', d', p', t')"
      using Suc.prems by (auto split: option.splits)
    have "run_status t1 = Run_kRunning" "run_halted t1 = Some False"
      using loop_body_counts(1) [OF b(1)] Suc.prems by (simp_all add: control_same_def)
    then obtain n where "n \<le> Suc fuel" "ends_in lib H n (T_loop (Some p) d1 p1) t1 (stored_run pc' p' t')"
      using Suc.IH [OF b(2)] by blast
    then show ?thesis using b(1) False Suc.prems by (intro exI [of _ "Suc n"]) simp
  qed
qed simp

lemma run_thread_ends_in:
  assumes "run_thread lib H fuel t = Some t2" and "run_status t = Run_kRunning"
  shows "\<exists>n u. 0 < n \<and> n \<le> fuel + 2 \<and> ends_in lib H n T_start t u \<and> run_status u = Run_kHalted \<and> t2 = u\<lparr>run_halted := Some True\<rparr>"
proof -
  let ?db = "pc_data_buffer t"
  obtain pc d p u where f: "run_loop lib H fuel None (db_id ?db, db_get32 ?db, t) = Some (pc, d, p, u)"
    "run_halted u = Some False" "t2 = finish_run pc p u"
    using assms(1) by (auto simp: run_thread_finish)
  have rh: "run_halted t = Some False" using run_loop_control [OF f(1)] f(2) by (simp add: control_same_def)
  obtain n where n: "n \<le> Suc fuel" "ends_in lib H n (T_loop None (db_id ?db) (db_get32 ?db)) t (stored_run pc p u)"
    using run_loop_ends_in [OF f(1) assms(2) rh] by blast
  then have "ends_in lib H (Suc n) T_start t (stored_run pc p u)" using assms(2) rh by (simp add: Let_def)
  then show ?thesis
    using n(1) by (intro exI [of _ "Suc n"] exI [of _ "stored_run pc p u"])
      (simp add: f(3) finish_run_stored del: ends_in.simps, simp add: stored_run_def)
qed

text \<open>The turns of any thread of a session, and those before the notification.\<close>

lemma ends_in_turns:
  assumes "ends_in lib H n p t u" and "\<not> crashed s" and "s_top s = t" and "i < length (threads s)" "threads s ! i = p"
  shows "session_run lib H (replicate n (Thread i)) s (s\<lparr>s_top := u, threads := (threads s)[i := T_notify]\<rparr>)"
  using assms
proof (induction n arbitrary: p t s)
  case 0
  then have "s_top s = u" "(threads s)[i := T_notify] = threads s" by (auto intro: list_update_same_conv [THEN iffD2])
  then have "s\<lparr>s_top := u, threads := (threads s)[i := T_notify]\<rparr> = s" by (cases s) simp
  then show ?case by simp
next
  case (Suc n)
  then obtain p' t' where p: "thread_step lib H p t = Some (p', t')" "ends_in lib H n p' t' u" by auto
  let ?s = "s\<lparr>s_top := t', threads := (threads s)[i := p']\<rparr>"
  have "session_step lib H (Thread i) s ?s" using thread_turn [of s i lib H p' t'] Suc.prems p(1) by simp
  moreover have "session_run lib H (replicate n (Thread i)) ?s (?s\<lparr>s_top := u, threads := (threads ?s)[i := T_notify]\<rparr>)"
    using Suc.IH [OF p(2), of ?s] Suc.prems by simp
  ultimately show ?case by auto
qed

lemma alone_notify_turns:
  "ends_in lib H n p t u \<Longrightarrow> session_run lib H (replicate n (Thread 0)) (alone c p t) (alone c T_notify u)"
  using ends_in_turns [of lib H n p t u "alone c p t" 0] by (simp add: alone_def)

lemma ends_in_prefix:
  assumes "ends_in lib H n p t u" and "m \<le> n"
  shows "\<exists>q v. session_run lib H (replicate m (Thread 0)) (alone c p t) (alone c q v) \<and> run_halted v = Some False"
  using assms
proof (induction m arbitrary: n p t)
  case 0
  from ends_in_waiting [OF this(1)] show ?case by (intro exI [of _ p] exI [of _ t]) simp
next
  case (Suc m)
  then obtain k where k: "n = Suc k" by (cases n) auto
  then obtain p' t' where p: "thread_step lib H p t = Some (p', t')" "ends_in lib H k p' t' u" using Suc.prems by auto
  from Suc.IH [OF p(2)] Suc.prems k obtain q v where
    "session_run lib H (replicate m (Thread 0)) (alone c p' t') (alone c q v)" "run_halted v = Some False" by auto
  then show ?case using alone_run_turn [OF p(1)] by blast
qed

text \<open>A blocked \<open>Wait\<close> has no step before the notification.\<close>

lemma wait_blocked: "run_halted v = Some False \<Longrightarrow> \<not> session_step lib H Client (alone C_waiting q v) s"
  by (auto elim: session_stepE)

section \<open>Starting a run\<close>

lemma sum_unit_Inl: "(r :: 'e + unit) \<noteq> Inr () \<longleftrightarrow> (\<exists>e. r = Inl e)"
  by (cases r) simp_all

lemma session_Run:
  assumes "Run lib H t = Some (OkStatus, t1)"
  shows "\<not> crashed s \<Longrightarrow> client s = C_idle \<Longrightarrow> s_top s = t \<Longrightarrow>
      session_run lib H [Client, Client] s (s\<lparr>s_top := t1, threads := threads s @ [T_start]\<rparr>)"
    "run_halted t1 = Some False" "run_status t1 = Run_kRunning"
proof -
  have nr: "run_status t \<noteq> Run_kRunning" using assms by (auto simp: Run_def)
  obtain r t' where r: "Run_prepare lib H t = Some (r, t')"
    "(case r of Inl st \<Rightarrow> (st, t') | Inr _ \<Rightarrow> (OkStatus, Run_launch t')) = (OkStatus, t1)"
    using assms by (auto simp: Run_in_parts)
  have "r \<noteq> Inl OkStatus"
    using r(1) nr step_over_breakpoint_counts(5) [of lib H t r t' OkStatus]
    by (auto simp: Run_prepare_def bind_eq_Some_conv sum_unit_Inl split: if_splits sum.splits)
  then have r': "Run_prepare lib H t = Some (Inr (), t')" "t1 = Run_launch t'"
    using r by (cases r; simp)+
  show "session_run lib H [Client, Client] s (s\<lparr>s_top := t1, threads := threads s @ [T_start]\<rparr>)"
    if s: "\<not> crashed s" "client s = C_idle" "s_top s = t"
  proof -
    let ?u = "s\<lparr>s_top := t', client := C_starting\<rparr>"
    have "session_step lib H Client s ?u" using run_accepted [of s lib H t'] s r'(1) by simp
    moreover have "session_step lib H Client ?u (s\<lparr>s_top := t1, threads := threads s @ [T_start]\<rparr>)"
      using run_started [of ?u lib H] s r'(2) by (cases s) simp
    ultimately show ?thesis by auto
  qed
  show "run_halted t1 = Some False" by (simp add: r'(2) Run_launch_def)
  show "run_status t1 = Run_kRunning"
    using r' nr by (auto simp: Run_prepare_def Run_launch_def bind_eq_Some_conv set_halted_def map_env_def sum_unit_Inl split: sum.splits)
qed

lemma new_session_Run:
  "Run lib H t = Some (OkStatus, t1) \<Longrightarrow>
   session_run lib H [Client, Client] (new_session t) (alone C_idle T_start t1)"
  using session_Run(1) [of lib H t t1 "new_session t"] by (simp add: new_session_def alone_def)

end
