(* ===== verification/Session_Properties.thy ===== *)
theory Session_Properties
  imports Session_Runs Reference_Session
begin

text \<open>
  What clients, the control-C handler and the threads of \<open>Run\<close> can rely on when their steps
  interleave, and the schedules on which they cannot.
\<close>

section \<open>A session on the reference platform\<close>

text \<open>A breakpoint is set on the first instruction of the small program, then \<open>Run\<close> is called.\<close>

definition starting_session :: "ref_world session" where
  "starting_session = \<lparr>s_top = bp_top\<lparr>run_status := Run_kRunning\<rparr>, client = C_starting, halt_call = H_none,
     threads = [], crashed = False\<rparr>"

definition running_session :: "ref_world session" where
  "running_session = alone C_idle T_start bp_running"

lemma new_reachable: "session_reachable std_lib ref_host (new_session bp_top)"
proof -
  have "session_reachable std_lib ref_host (new_session demo_top)"
    unfolding demo_top_def by (rule started) (simp add: ref_host_def demo_world_def)
  moreover have "session_step std_lib ref_host Client (new_session demo_top) (new_session bp_top)"
    using client_calls [of "new_session demo_top", OF _ _ client_call.intros(5)] bp_set
    by (simp add: new_session_def)
  ultimately show ?thesis by (rule stepped)
qed

lemma session_run_reachable:
  "session_run lib H as s s' \<Longrightarrow> session_reachable lib H s \<Longrightarrow> session_reachable lib H s'"
  by (induction rule: session_run.induct) (auto intro: stepped)

lemma starting_reachable: "session_reachable std_lib ref_host starting_session"
proof -
  have "Run_prepare std_lib ref_host bp_top = Some (Inr (), bp_top\<lparr>run_status := Run_kRunning\<rparr>)"
    by (simp add: Run_prepare_def bp_state)
  then show ?thesis
    using stepped [OF new_reachable run_accepted [of "new_session bp_top"]]
    by (simp add: new_session_def starting_session_def)
qed

lemma running_reachable: "session_reachable std_lib ref_host running_session"
  using session_run_reachable [OF new_session_Run [OF bp_run] new_reachable] by (simp add: running_session_def)

lemma running_simps [simp]:
  "threads running_session = [T_start]" "s_top running_session = bp_running" "crashed running_session = False"
  by (simp_all add: running_session_def)

text \<open>Control-C before the first turn: the thread stops and is about to notify.\<close>

definition halted_running :: "ref_world top" where
  "halted_running = set_halted True (set_halt_reason Halt_kUserRequest bp_running)"

definition notify_top :: "ref_world top" where
  "notify_top = (set_pc_value (db_get32 (pc_data_buffer halted_running)) (halted_running\<lparr>previous_pc := None\<rparr>))
     \<lparr>run_status := Run_kHalted\<rparr>"

lemma Halt_running: "Halt bp_running = (OkStatus, halted_running)"
  using session_Run(3) [OF bp_run] by (simp add: Halt_def halted_running_def)

definition status_top :: "ref_world top" where
  "status_top = set_pc_value (db_get32 (pc_data_buffer halted_running)) (halted_running\<lparr>previous_pc := None\<rparr>)"

lemma status_run:
  "session_run std_lib ref_host [Client, Client, Handler, Thread 0, Thread 0] (new_session bp_top)
     (alone C_idle T_status status_top)"
proof -
  let ?db = "pc_data_buffer halted_running"
  let ?l = "T_loop None (db_id ?db) (db_get32 ?db)"
  have "halted (t_env halted_running)" by (simp add: halted_running_def set_halted_def map_env_def)
  then have steps: "thread_step std_lib ref_host T_start halted_running = Some (?l, halted_running)"
    "thread_step std_lib ref_host ?l halted_running = Some (T_status, status_top)"
    by (simp_all add: Let_def status_top_def)
  have "session_step std_lib ref_host Handler running_session (alone C_idle T_start halted_running)"
    using halt_request [of running_session OkStatus halted_running] Halt_running
    by (simp add: running_session_def) (simp add: alone_def)
  from session_run_trans [OF new_session_Run [OF bp_run, folded running_session_def]
      run_cons [OF this run_cons [OF alone_turn [OF steps(1)] run_cons [OF alone_turn [OF steps(2)] run_nil]]]]
  show ?thesis by simp
qed

lemma status_reachable: "session_reachable std_lib ref_host (alone C_idle T_status status_top)"
  by (rule session_run_reachable [OF status_run new_reachable])

lemma status_step:
  "session_step std_lib ref_host (Thread 0) (alone C_idle T_status status_top) (alone C_idle T_notify notify_top)"
  by (rule alone_turn) (simp add: notify_top_def status_top_def)

lemma notify_reachable: "session_reachable std_lib ref_host (alone C_idle T_notify notify_top)"
  by (rule stepped [OF status_reachable status_step])

lemma notify_Run: "\<exists>t1. Run std_lib ref_host notify_top = Some (OkStatus, t1)"
proof -
  have "halt_reason (t_env notify_top) = Halt_kUserRequest" "run_status notify_top = Run_kHalted"
    by (simp_all add: notify_top_def halted_running_def set_pc_value_def set_halted_def set_halt_reason_def map_env_def)
  then show ?thesis by (simp add: Run_def)
qed

section \<open>Mutual exclusion\<close>

text \<open>C15: in every reachable interleaving at most one thread executes instructions, and exactly
  while the run status says that the core runs; whatever is interleaved, the registers stay
  consistent, no executed instruction is lost from the counters, and a halted core answers every
  register read.\<close>

theorem one_runner:
  assumes "core lib H" and "session_reachable lib H s"
  shows "length (filter active (threads s)) + (if client s = C_starting then 1 else 0) =
      (if GetRunStatus (s_top s) = Run_kRunning then 1 else 0) \<and>
    xregs_ok (state (s_top s)) \<and>
    counter_num_instructions (s_top s) = (\<Sum>op \<in> UNIV. counter_opcode (s_top s) op) \<and>
    (GetRunStatus (s_top s) \<noteq> Run_kRunning \<longrightarrow> (\<forall>name. ReadRegister name (s_top s) \<noteq> None))"
proof -
  note ok = core.session_reachable_ok [OF assms]
  have "ReadRegister name (s_top s) \<noteq> None" if "run_status (s_top s) \<noteq> Run_kRunning" for name
    using halted_core_ok [OF ok that] by (auto simp: core_ok_def ReadRegister_def Let_def split: option.split)
  with session_okD [OF ok] show ?thesis
    by (auto simp: GetRunStatus_def running_parties_def counters_ok_def machine_ok_def regs_good_def)
qed

theorem one_runner_witness:
  "length (filter active (threads running_session)) = 1 \<and> GetRunStatus (s_top running_session) = Run_kRunning \<and>
   xregs_ok (state bp_running)"
  using one_runner [OF ref_core.core_axioms running_reachable] by (auto simp: running_session_def split: if_splits)

text \<open>C17: the notification object is what a session can fail at. If a step of any party in a
  reachable session is undefined behaviour, then it is a thread's \<open>Notify\<close> on the null pointer that
  \<open>Wait\<close> leaves or on an object that another thread has notified, or it is a blocked \<open>Wait\<close> whose object
  is gone: no instruction, no \<open>Step\<close> and no \<open>Run\<close> dereferences a missing operand or uses an
  indeterminate address. Merely copying the uninitialised variable \<^verbatim>\<open>pc\<close> to \<^verbatim>\<open>previous_pc_\<close>, which
  happens when a loop takes no turn, is not counted as a failure here.\<close>

theorem only_notification_fails:
  assumes "core lib H" and "session_reachable lib H s" and "session_step lib H a s s'" and "crashed s'"
  shows "(\<exists>i. a = Thread i \<and> i < length (threads s) \<and> threads s ! i = T_notify \<and>
      (run_halted (s_top s) = None \<or> run_halted (s_top s) = Some True)) \<or>
    (a = Client \<and> client s = C_waiting \<and> run_halted (s_top s) = None)"
  using core.crash_notification [OF assms(1) core.session_reachable_ok [OF assms(1,2)] assms(3,4)] by auto

theorem only_notification_fails_witness:
  "\<exists>s s'. session_reachable std_lib ref_host s \<and> session_step std_lib ref_host (Thread 0) s s' \<and> crashed s' \<and>
     (run_halted (s_top s) = None \<or> run_halted (s_top s) = Some True)"
proof -
  let ?s = "alone C_idle T_notify (notify_top\<lparr>run_halted := None\<rparr>)"
  have "session_step std_lib ref_host Client (alone C_idle T_notify notify_top) ?s"
    using wait_returns [of "alone C_idle T_notify notify_top"] by (simp add: alone_def notify_top_def)
  then have r: "session_reachable std_lib ref_host ?s" by (rule stepped [OF notify_reachable])
  have x: "session_step std_lib ref_host (Thread 0) ?s (?s\<lparr>crashed := True\<rparr>)"
    by (rule thread_undefined) simp_all
  have "crashed (?s\<lparr>crashed := True\<rparr>)" by simp
  from only_notification_fails [OF ref_core.core_axioms r x this] r x show ?thesis
    by (intro exI [of _ ?s] exI [of _ "?s\<lparr>crashed := True\<rparr>"]) auto
qed

section \<open>The end of a run\<close>

text \<open>C16: a halt request ends the run. If \<open>Halt\<close> arrives while a thread runs, it succeeds, and in
  every interleaving that gives the thread three more turns it has stopped by then, for the user's
  request and without executing another instruction; three turns are always possible.\<close>

theorem halt_ends_run:
  assumes "core lib H" and "session_reachable lib H s" and "\<not> crashed s"
    and "i < length (threads s)" and "active (threads s ! i)" and "Halt (s_top s) = (st, t)"
    and s1: "s1 = s\<lparr>s_top := t\<rparr>"
  shows "st = OkStatus \<and> session_step lib H Handler s s1 \<and>
    (\<forall>as s'. session_run lib H as s1 s' \<and> 3 \<le> count_list as (Thread i) \<longrightarrow>
      (\<exists>as1 as2 u. as = as1 @ as2 \<and> session_run lib H as1 s1 u \<and> session_run lib H as2 u s' \<and>
        count_list as1 (Thread i) \<le> 3 \<and> run_status (s_top u) = Run_kHalted \<and>
        GetLastHaltReason (s_top u) = Halt_kUserRequest \<and>
        counter_num_instructions (s_top u) = counter_num_instructions (s_top s))) \<and>
    (\<exists>n u. n \<le> 3 \<and> session_run lib H (replicate n (Thread i)) s1 u \<and> run_status (s_top u) = Run_kHalted)"
proof -
  note ok = core.session_reachable_ok [OF assms(1,2)]
  have step: "session_step lib H Handler s s1" unfolding s1 by (rule halt_request [OF assms(3,6)])
  note ok1 = core.session_step_ok [OF assms(1) step ok]
  note h = core.halt_stopping [OF assms(1) ok assms(4,5,6), folded s1]
  have t3: "turns_to_stop (threads s1 ! i) \<le> 3" by (cases "threads s1 ! i") simp_all
  have "\<exists>as1 as2 u. as = as1 @ as2 \<and> session_run lib H as1 s1 u \<and> session_run lib H as2 u s' \<and>
      stopped_run (s_top s) u \<and> count_list as1 (Thread i) = turns_to_stop (threads s1 ! i)"
    if "session_run lib H as s1 s'" "3 \<le> count_list as (Thread i)" for as s'
    using core.stopping_run [OF assms(1) that(1) ok1 h(2)] that(2) t3 by simp
  moreover have "\<exists>u. session_run lib H (replicate (turns_to_stop (threads s1 ! i)) (Thread i)) s1 u \<and>
      stopped_run (s_top s) u"
    using core.stopping_alone [OF assms(1) ok1 h(2)] assms(3) by (simp add: s1)
  ultimately show ?thesis
    using h(1) step t3 unfolding stopped_run_def GetLastHaltReason_def by metis
qed

theorem halt_ends_run_witness:
  "\<exists>n u. n \<le> 3 \<and> run_status (s_top u) = Run_kHalted \<and>
     session_run std_lib ref_host (replicate n (Thread 0)) (running_session\<lparr>s_top := halted_running\<rparr>) u"
  using halt_ends_run [OF ref_core.core_axioms running_reachable, of 0 OkStatus halted_running] Halt_running by auto

text \<open>The thread undisturbed is \<open>run_thread\<close>. After a \<open>Run\<close> that was accepted the interleaving
  model with no other party and the sequential model end in the same states.\<close>

theorem undisturbed_thread:
  assumes "Run lib H t = Some (OkStatus, t1)"
  shows "session_run lib H [Client, Client] (new_session t) (alone C_idle T_start t1) \<and>
    ((\<exists>n. session_run lib H (replicate n (Thread 0)) (alone C_idle T_start t1) (alone C_idle T_done t2)) \<longleftrightarrow>
     (\<exists>fuel. run_thread lib H fuel t1 = Some t2))"
  using new_session_Run [OF assms] thread_alone [of lib H C_idle t1 t2] by simp

theorem undisturbed_thread_witness:
  "\<exists>n t2. session_run std_lib ref_host (replicate n (Thread 0)) running_session (alone C_idle T_done t2) \<and>
     GetLastHaltReason t2 = Halt_kSoftwareBreakpoint"
  using undisturbed_thread [OF bp_run] bp_run_ends unfolding running_session_def by blast

text \<open>C24: \<open>Run\<close> followed by \<open>Wait\<close>, the batch mode of the program, when nobody calls \<open>Halt\<close>. If
  \<open>Wait\<close> is called while the core runs it blocks: it has no step until the thread has notified, and
  then returns with the result of the run. If it is called after the thread has set the run status
  and before it notifies, it returns at once and leaves a null pointer, and the next step of the
  thread, \<open>Notify\<close>, is undefined behaviour. After the notification it returns with the result.\<close>

theorem run_and_wait:
  assumes "Run lib H t = Some (OkStatus, t1)" and "run_thread lib H fuel t1 = Some t2"
  shows "\<exists>n u. run_status u = Run_kHalted \<and> t2 = u\<lparr>run_halted := Some True\<rparr> \<and>
    (session_run lib H [Client, Client, Client] (new_session t) (alone C_waiting T_start t1) \<and>
     (\<forall>m \<le> n. \<exists>p v. session_run lib H (replicate m (Thread 0)) (alone C_waiting T_start t1) (alone C_waiting p v) \<and>
        (\<forall>s. \<not> session_step lib H Client (alone C_waiting p v) s)) \<and>
     session_run lib H (replicate (Suc n) (Thread 0) @ [Client]) (alone C_waiting T_start t1)
       (alone C_idle T_done (t2\<lparr>run_halted := None\<rparr>))) \<and>
    (session_run lib H ([Client, Client] @ replicate n (Thread 0)) (new_session t) (alone C_idle T_notify u) \<and>
     Wait u = Some (OkStatus, u\<lparr>run_halted := None\<rparr>) \<and>
     session_step lib H Client (alone C_idle T_notify u) (alone C_idle T_notify (u\<lparr>run_halted := None\<rparr>)) \<and>
     (\<exists>s. session_step lib H (Thread 0) (alone C_idle T_notify (u\<lparr>run_halted := None\<rparr>)) s) \<and>
     (\<forall>s. session_step lib H (Thread 0) (alone C_idle T_notify (u\<lparr>run_halted := None\<rparr>)) s \<longrightarrow> crashed s)) \<and>
    session_run lib H [Thread 0, Client] (alone C_idle T_notify u) (alone C_idle T_done (t2\<lparr>run_halted := None\<rparr>))"
proof -
  note r = session_Run(2,3) [OF assms(1)] and start = new_session_Run [OF assms(1)]
  obtain n u where u: "ends_in lib H n T_start t1 u" "run_status u = Run_kHalted" "t2 = u\<lparr>run_halted := Some True\<rparr>"
    using run_thread_ends_in [OF assms(2) r(2)] by blast
  have rh: "run_halted u = Some False" by (rule ends_in_last [OF u(1)])
  have w: "session_step lib H Client (alone C_idle T_start t1) (alone C_waiting T_start t1)"
    using wait_blocks [of "alone C_idle T_start t1"] r(2) by (simp add: alone_def)
  have blocked: "\<exists>p v. session_run lib H (replicate m (Thread 0)) (alone C_waiting T_start t1) (alone C_waiting p v) \<and>
      (\<forall>s. \<not> session_step lib H Client (alone C_waiting p v) s)" if "m \<le> n" for m
    using ends_in_prefix [OF u(1) that, of C_waiting] wait_blocked by blast
  have nt: "session_step lib H (Thread 0) (alone c T_notify u) (alone c T_done t2)" for c
    by (rule alone_turn) (simp add: rh u(3))
  have e: "session_step lib H Client (alone C_waiting T_done t2) (alone C_idle T_done (t2\<lparr>run_halted := None\<rparr>))"
    using wait_notified [of "alone C_waiting T_done t2"] u(3) by (simp add: alone_def)
  have l: "session_step lib H Client (alone C_idle T_done t2) (alone C_idle T_done (t2\<lparr>run_halted := None\<rparr>))"
    using wait_returns [of "alone C_idle T_done t2"] u(2,3) by (simp add: alone_def)
  have f: "session_step lib H Client (alone C_idle T_notify u) (alone C_idle T_notify (u\<lparr>run_halted := None\<rparr>))"
    using wait_returns [of "alone C_idle T_notify u"] u(2) by (simp add: alone_def)
  have x: "\<exists>s. session_step lib H (Thread 0) (alone C_idle T_notify (u\<lparr>run_halted := None\<rparr>)) s"
    "\<forall>s. session_step lib H (Thread 0) (alone C_idle T_notify (u\<lparr>run_halted := None\<rparr>)) s \<longrightarrow> crashed s"
    using thread_undefined [of "alone C_idle T_notify (u\<lparr>run_halted := None\<rparr>)" 0 lib H] by (auto elim: alone_stepE)
  have eq: "replicate (Suc n) (Thread 0) @ [Client] = replicate n (Thread 0) @ [Thread 0, Client]"
    by (simp add: replicate_append_same)
  note good = session_run_trans [OF alone_notify_turns [OF u(1), of C_waiting]
      run_cons [OF nt run_cons [OF e run_nil]], folded eq]
  note window = session_run_trans [OF start alone_notify_turns [OF u(1), of C_idle]]
  have "Wait u = Some (OkStatus, u\<lparr>run_halted := None\<rparr>)" using u(2) by (simp add: Wait_def)
  moreover have "session_run lib H [Client, Client, Client] (new_session t) (alone C_waiting T_start t1)"
    using session_run_trans [OF start run_cons [OF w run_nil]] by simp
  ultimately show ?thesis
    using u(2,3) blocked good window f x run_cons [OF nt run_cons [OF l run_nil]]
    by (intro exI [of _ n] exI [of _ u]) (simp del: session_run_simps)
qed

theorem run_and_wait_witness:
  "\<exists>n u. session_run std_lib ref_host ([Client, Client] @ replicate n (Thread 0)) (new_session bp_top)
       (alone C_idle T_notify u) \<and> Wait u = Some (OkStatus, u\<lparr>run_halted := None\<rparr>) \<and>
     (\<exists>s. session_step std_lib ref_host (Thread 0) (alone C_idle T_notify (u\<lparr>run_halted := None\<rparr>)) s \<and> crashed s)"
  using bp_run_ends run_and_wait [OF bp_run] by metis

text \<open>C18: a run ends for a reason, and the reason is true. Whatever was interleaved, when the
  thread of a run reports the core halted, \<open>GetLastHaltReason\<close> is the user's request, a semihosting
  request, or a software breakpoint; in the last case \<open>previous_pc\<close> is the address of a
  breakpoint that is set, and the pc register reads as that address. There is no reason only if a call
  of \<open>Halt\<close> was interrupted on the way.\<close>

theorem run_ends_for_a_reason:
  assumes "halting lib H" and "reachable lib H t" and "run_status t = Run_kHalted"
    and "session_run lib H as (new_session t) s"
    and "i < length (threads s)" and "threads s ! i = T_status" and "session_step lib H (Thread i) s s'"
  shows "GetRunStatus (s_top s') = Run_kHalted \<and>
    (GetLastHaltReason (s_top s') = Halt_kUserRequest \<or>
     GetLastHaltReason (s_top s') = Halt_kSemihostHaltRequest \<or>
     GetLastHaltReason (s_top s') = Halt_kNone \<and> Handler_part \<in> set as \<or>
     GetLastHaltReason (s_top s') = Halt_kSoftwareBreakpoint \<and>
       (\<exists>a. previous_pc (s_top s') = Some a \<and> HasBreakpoint H (ucast a) (s_top s') \<and>
          ReadRegister ''pc'' (s_top s') = Some (Inr (ucast a))))"
proof -
  have s': "s' = s\<lparr>s_top := (s_top s)\<lparr>run_status := Run_kHalted\<rparr>, threads := (threads s)[i := T_notify]\<rparr>"
    using assms(6,7) by (auto elim: thread_stepE)
  note r = halting.new_session_reasons [OF assms(1) core.reachable_ok [OF halting.axioms(1) [OF assms(1)] assms(2)]
      assms(3,4)]
  have "asked_to_halt H (Handler_part \<in> set as) (previous_pc (s_top s)) (s_top s)"
    using r(1) assms(5,6) by (auto simp: reasons_ok_def list_all_length)
  moreover have "registers (state (s_top s)) ''pc'' \<noteq> None"
    using session_okD(1) [OF r(2)]
    by (auto simp: machine_ok_def regs_good_def xregs_ok_def kPcName_def)
  ultimately show ?thesis
    by (auto simp: s' asked_to_halt_def GetRunStatus_def GetLastHaltReason_def HasBreakpoint_def ReadRegister_def)
qed

theorem run_ends_for_a_reason_witness:
  "GetRunStatus notify_top = Run_kHalted \<and> GetLastHaltReason notify_top \<noteq> Halt_kNone"
proof -
  have 0: "0 < length (threads (alone C_idle T_status status_top))" "threads (alone C_idle T_status status_top) ! 0 = T_status"
    by (simp_all add: alone_def)
  from run_ends_for_a_reason [OF ref_halting.halting_axioms bp_reachable bp_state(2) status_run 0 status_step]
  show ?thesis by (auto simp: alone_def)
qed

section \<open>Requests that are lost\<close>

text \<open>C27: control-C while \<open>Run\<close> is starting is lost. Between the store of the run status and
  \<^verbatim>\<open>halted_ = false\<close> the core counts as running, so \<open>Halt\<close> succeeds and sets the flag; then \<open>Run\<close>
  clears it and starts the thread: the core runs on, although its halt reason is the user's
  request.\<close>

theorem halt_during_start_is_lost:
  assumes "core lib H" and "session_reachable lib H s" and "\<not> crashed s" and "client s = C_starting"
    and "Halt (s_top s) = (st, t)"
  shows "st = OkStatus \<and> halted (t_env t) \<and> session_step lib H Handler s (s\<lparr>s_top := t\<rparr>) \<and>
    (\<exists>s'. session_step lib H Client (s\<lparr>s_top := t\<rparr>) s' \<and> run_status (s_top s') = Run_kRunning \<and>
      \<not> halted (t_env (s_top s')) \<and> GetLastHaltReason (s_top s') = Halt_kUserRequest \<and>
      threads s' = threads s @ [T_start])"
proof -
  note ok = core.session_reachable_ok [OF assms(1,2)]
  have "run_status (s_top s) = Run_kRunning" using halted_no_active(1) [OF ok] assms(4) by blast
  then have t: "st = OkStatus" "t = set_halted True (set_halt_reason Halt_kUserRequest (s_top s))"
    "run_status t = Run_kRunning"
    using assms(5) by (auto simp: Halt_def set_halted_def set_halt_reason_def map_env_def)
  have "session_step lib H Client (s\<lparr>s_top := t\<rparr>)
      (s\<lparr>s_top := Run_launch t, client := C_idle, threads := threads s @ [T_start]\<rparr>)"
    using run_started [of "s\<lparr>s_top := t\<rparr>"] assms(3,4) by simp
  moreover have "halted (t_env t) \<and> run_status (Run_launch t) = Run_kRunning \<and> \<not> halted (t_env (Run_launch t)) \<and>
      GetLastHaltReason (Run_launch t) = Halt_kUserRequest"
    using t(3) by (simp add: t(2) Run_launch_def GetLastHaltReason_def set_halted_def set_halt_reason_def map_env_def)
  ultimately show ?thesis
    using halt_request [OF assms(3,5)] t(1) by (intro conjI exI) auto
qed

theorem halt_during_start_is_lost_witness:
  "\<exists>t s'. Halt (s_top starting_session) = (OkStatus, t) \<and> halted (t_env t) \<and>
     session_step std_lib ref_host Client (starting_session\<lparr>s_top := t\<rparr>) s' \<and> \<not> halted (t_env (s_top s'))"
proof -
  obtain st t where h: "Halt (s_top starting_session) = (st, t)" by fastforce
  from halt_during_start_is_lost [OF ref_core.core_axioms starting_reachable _ _ h] show ?thesis
    by (auto simp: h) (auto simp: starting_session_def)
qed

lemma stored_at_breakpoint:
  assumes "registers (state v) ''pc'' = Some (top_pc v)" and "halt_reason (t_env v) = Halt_kSoftwareBreakpoint"
  shows "run_status (stored_run (Some a) p v) = Run_kHalted"
    "GetLastHaltReason (stored_run (Some a) p v) = Halt_kSoftwareBreakpoint"
    "ReadRegister ''pc'' (stored_run (Some a) p v) = Some (Inr (ucast a))"
  using assms by (simp_all add: stored_run_def GetLastHaltReason_def ReadRegister_def set_pc_value_def)

lemma stored_after_halt:
  fixes v :: "'x top" and pc and p
  assumes "registers (state v) ''pc'' = Some (top_pc v)"
  defines "u \<equiv> stored_run pc p (set_halted True (set_halt_reason Halt_kUserRequest v))"
  shows "run_status u = Run_kHalted" "GetLastHaltReason u = Halt_kUserRequest"
    "ReadRegister ''pc'' u = Some (Inr (ucast p))"
    "\<forall>num. 0 < num \<longrightarrow> Step lib H num u = step_rest lib H num 0 (set_halted False (u\<lparr>run_status := Run_kSingleStep\<rparr>))"
proof -
  show u: "run_status u = Run_kHalted" "GetLastHaltReason u = Halt_kUserRequest"
    "ReadRegister ''pc'' u = Some (Inr (ucast p))"
    using assms(1) by (simp_all add: u_def stored_run_def GetLastHaltReason_def ReadRegister_def set_pc_value_def
        set_halted_def set_halt_reason_def map_env_def Let_def)
  show "\<forall>num. 0 < num \<longrightarrow> Step lib H num u = step_rest lib H num 0 (set_halted False (u\<lparr>run_status := Run_kSingleStep\<rparr>))"
    using u(1,2) by (simp add: Step_def GetLastHaltReason_def)
qed

lemma running_at_breakpoint:
  "machine_ok ref_host bp_running" "\<not> halted (t_env bp_running)" "at_breakpoint ref_host rw_mem 0 bp_running"
  "db_get32 (pc_data_buffer bp_running) = 0" "registers (state bp_running) ''pc'' = Some (top_pc bp_running)"
proof -
  show m: "machine_ok ref_host bp_running" using bp_core_ok by (simp add: bp_running_def core_ok_def)
  show "\<not> halted (t_env bp_running)" "at_breakpoint ref_host rw_mem 0 bp_running"
    "db_get32 (pc_data_buffer bp_running) = 0"
    using bp_state by (simp_all add: bp_running_def at_breakpoint_def set_halted_def map_env_def pc_data_buffer_def)
  have "xregs_ok (state bp_running)" "top_pc bp_running = pc_reg (state bp_running)"
    using m by (simp_all add: machine_ok_def regs_good_def)
  then show "registers (state bp_running) ''pc'' = Some (top_pc bp_running)"
    using xregs_okD(2) [of "state bp_running"] by (simp add: kPcName_def)
qed

text \<open>C25: control-C can make the simulator skip an instruction. When the thread of \<open>Run\<close> reaches a
  breakpoint, undisturbed it stops for the breakpoint and the pc reads as its address. If \<open>Halt\<close>
  arrives before the thread has tested the halt flag, it replaces the halt reason: the pc reads 4
  higher, and the next \<open>Step\<close> starts there, past the instruction under the breakpoint that has
  not been executed.\<close>

theorem halt_replaces_breakpoint:
  assumes "debug_session lib H xbytes orig" and "machine_ok H t" and "run_status t = Run_kRunning"
    and "\<not> halted (t_env t)" and "at_breakpoint H xbytes a t" and "db_get32 (pc_data_buffer t) = a"
    and "registers (state t) ''pc'' = Some (top_pc t)"
  shows "(\<exists>u. session_run lib H [Thread 0, Thread 0, Thread 0, Thread 0] (alone c T_start t) (alone c T_notify u) \<and>
      run_status u = Run_kHalted \<and> GetLastHaltReason u = Halt_kSoftwareBreakpoint \<and>
      ReadRegister ''pc'' u = Some (Inr (ucast a))) \<and>
    (\<exists>u. session_run lib H [Thread 0, Thread 0, Handler, Thread 0, Thread 0] (alone c T_start t) (alone c T_notify u) \<and>
      run_status u = Run_kHalted \<and> GetLastHaltReason u = Halt_kUserRequest \<and>
      ReadRegister ''pc'' u = Some (Inr (ucast (a + 4))) \<and>
      (\<forall>num. 0 < num \<longrightarrow> Step lib H num u =
         step_rest lib H num 0 (set_halted False (u\<lparr>run_status := Run_kSingleStep\<rparr>))))"
proof -
  let ?d = "db_id (pc_data_buffer t)"
  have cm: "code_memory (dec_memory (rv32_decoder t))" using assms(2) by (simp add: machine_ok_def code_memory_def)
  obtain v where v: "loop_body lib H (?d, a, t) = Some (?d, a + 4, v)" "halted (t_env v)"
    "halt_reason (t_env v) = Halt_kSoftwareBreakpoint" "same_frame (state t) (state v)" "control_same t v"
    using debugger.loop_body_breakpoint [OF debug_session.axioms(1) [OF assms(1)] assms(2) cm assms(5) refl] by blast
  have pc: "registers (state v) ''pc'' = Some (top_pc v)" and rv: "run_status v = Run_kRunning"
    using v(4,5) assms(3,7) by (simp_all add: same_frame_def control_same_def)
  have 0: "session_step lib H (Thread 0) (alone c T_start t) (alone c (T_loop None ?d a) t)"
    using assms(6) by (intro alone_turn) (simp add: Let_def)
  have 1: "session_step lib H (Thread 0) (alone c (T_loop None ?d a) t) (alone c (T_loop (Some a) ?d (a + 4)) v)"
    using assms(4) v(1) by (intro alone_turn) simp
  let ?w = "set_halted True (set_halt_reason Halt_kUserRequest v)"
  have h: "session_step lib H Handler (alone c (T_loop (Some a) ?d (a + 4)) v) (alone c (T_loop (Some a) ?d (a + 4)) ?w)"
    using halt_request [of "alone c (T_loop (Some a) ?d (a + 4)) v" OkStatus ?w] rv
    by (simp add: alone_def Halt_def)
  have "halted (t_env ?w)" by (simp add: set_halted_def map_env_def)
  from run_cons [OF 0 run_cons [OF 1 stop_turns [OF v(2)]]] run_cons [OF 0 run_cons [OF 1 run_cons [OF h stop_turns [OF this]]]]
  have "session_run lib H [Thread 0, Thread 0, Thread 0, Thread 0] (alone c T_start t)
      (alone c T_notify (stored_run (Some a) (a + 4) v))"
    "session_run lib H [Thread 0, Thread 0, Handler, Thread 0, Thread 0] (alone c T_start t)
      (alone c T_notify (stored_run (Some a) (a + 4) ?w))" .
  moreover note stored_at_breakpoint [OF pc v(3)] stored_after_halt [OF pc]
  ultimately show ?thesis by blast
qed

theorem halt_replaces_breakpoint_witness:
  "\<exists>u. session_run std_lib ref_host [Thread 0, Thread 0, Handler, Thread 0, Thread 0] running_session
       (alone C_idle T_notify u) \<and> ReadRegister ''pc'' u = Some (Inr 4)"
proof -
  note b = running_at_breakpoint
  from halt_replaces_breakpoint [OF ref_session.debug_session_axioms b(1) session_Run(3) [OF bp_run] b(2-5), of C_idle]
  show ?thesis unfolding running_session_def by (auto simp del: session_run_simps)
qed

text \<open>The thread beside a call of \<open>Halt\<close> that has been interrupted.\<close>

abbreviation beside :: "halt_position \<Rightarrow> client_position \<Rightarrow> run_position \<Rightarrow> 'x top \<Rightarrow> 'x session" where
  "beside h c p t \<equiv> (alone c p t)\<lparr>halt_call := h\<rparr>"

lemma beside_turn:
  "thread_step lib H p t = Some (p', t') \<Longrightarrow> session_step lib H (Thread 0) (beside h c p t) (beside h c p' t')"
  using session_step.thread_turn [of "beside h c p t" 0 lib H p' t'] by (simp add: alone_def)

lemma beside_part:
  "Halt_part h t = (h', t') \<Longrightarrow> session_step lib H Handler_part (beside h c p t) (beside h' c p t')"
  using session_step.halt_part [of "beside h c p t" h' t'] by (simp add: alone_def)

text \<open>C26: control-C can move the pc of a core that has halted. If \<open>Halt\<close> has found the core running
  and is interrupted until the thread has stopped for a breakpoint, the core reports that it is
  halted at the breakpoint, and the pc reads as its address. Then \<open>Halt\<close> goes on: on the halted core the
  reason becomes the user's request, the pc reads 4 higher, and the next \<open>Step\<close> starts there, past
  the instruction under the breakpoint that has not been executed.\<close>

theorem late_halt_moves_pc:
  assumes "debug_session lib H xbytes orig" and "machine_ok H t" and "run_status t = Run_kRunning"
    and "\<not> halted (t_env t)" and "at_breakpoint H xbytes a t" and "db_get32 (pc_data_buffer t) = a"
    and "registers (state t) ''pc'' = Some (top_pc t)"
  shows "\<exists>u v. session_run lib H [Thread 0, Thread 0, Handler_part, Thread 0, Thread 0]
        (alone c T_start t) (beside H_accepted c T_notify u) \<and>
      run_status u = Run_kHalted \<and> GetLastHaltReason u = Halt_kSoftwareBreakpoint \<and>
      ReadRegister ''pc'' u = Some (Inr (ucast a)) \<and>
      session_run lib H [Handler_part, Handler_part] (beside H_accepted c T_notify u) (alone c T_notify v) \<and>
      run_status v = Run_kHalted \<and> GetLastHaltReason v = Halt_kUserRequest \<and>
      ReadRegister ''pc'' v = Some (Inr (ucast (a + 4))) \<and>
      (\<forall>num. 0 < num \<longrightarrow> Step lib H num v =
         step_rest lib H num 0 (set_halted False (v\<lparr>run_status := Run_kSingleStep\<rparr>)))"
proof -
  let ?d = "db_id (pc_data_buffer t)"
  have cm: "code_memory (dec_memory (rv32_decoder t))" using assms(2) by (simp add: machine_ok_def code_memory_def)
  obtain v where v: "loop_body lib H (?d, a, t) = Some (?d, a + 4, v)" "halted (t_env v)"
    "halt_reason (t_env v) = Halt_kSoftwareBreakpoint" "same_frame (state t) (state v)" "control_same t v"
    using debugger.loop_body_breakpoint [OF debug_session.axioms(1) [OF assms(1)] assms(2) cm assms(5) refl] by blast
  have pc: "registers (state v) ''pc'' = Some (top_pc v)" and rv: "run_status v = Run_kRunning"
    using v(4,5) assms(3,7) by (simp_all add: same_frame_def control_same_def)
  let ?u = "stored_run (Some a) (a + 4) v"
  let ?w = "stored_run (Some a) (a + 4) (set_halted True (set_halt_reason Halt_kUserRequest v))"
  let ?l = "T_loop (Some a) ?d (a + 4)" and ?t1 = "set_pc_value (a + 4) (v\<lparr>previous_pc := Some a\<rparr>)"
  have 0: "session_step lib H (Thread 0) (alone c T_start t) (alone c (T_loop None ?d a) t)"
    using assms(6) by (intro alone_turn) (simp add: Let_def)
  have 1: "session_step lib H (Thread 0) (alone c (T_loop None ?d a) t) (alone c ?l v)"
    using assms(4) v(1) by (intro alone_turn) simp
  have h: "session_step lib H Handler_part (alone c ?l v) (beside H_accepted c ?l v)"
    using beside_part [of H_none v H_accepted v] rv by (simp add: alone_def)
  have 2: "session_step lib H (Thread 0) (beside H_accepted c ?l v) (beside H_accepted c T_status ?t1)"
    using v(2) by (intro beside_turn) simp
  have 3: "session_step lib H (Thread 0) (beside H_accepted c T_status ?t1) (beside H_accepted c T_notify ?u)"
    by (intro beside_turn) (simp add: stored_run_def)
  have late: "set_halted True (set_halt_reason Halt_kUserRequest ?u) = ?w"
    by (simp add: stored_run_def set_halted_def set_halt_reason_def map_env_def set_pc_value_def pc_data_buffer_def)
  have 4: "session_step lib H Handler_part (beside H_accepted c T_notify ?u)
      (beside H_reason_stored c T_notify (set_halt_reason Halt_kUserRequest ?u))"
    by (intro beside_part) simp
  have 5: "session_step lib H Handler_part (beside H_reason_stored c T_notify (set_halt_reason Halt_kUserRequest ?u))
      (alone c T_notify ?w)"
    using beside_part [of H_reason_stored "set_halt_reason Halt_kUserRequest ?u" H_none ?w] late
    by (simp add: alone_def)
  from run_cons [OF 0 run_cons [OF 1 run_cons [OF h run_cons [OF 2 run_cons [OF 3 run_nil]]]]]
    run_cons [OF 4 run_cons [OF 5 run_nil]] stored_at_breakpoint [OF pc v(3)] stored_after_halt [OF pc]
  show ?thesis by blast
qed

theorem late_halt_moves_pc_witness:
  "\<exists>u v. session_run std_lib ref_host [Thread 0, Thread 0, Handler_part, Thread 0, Thread 0]
       running_session (beside H_accepted C_idle T_notify u) \<and> ReadRegister ''pc'' u = Some (Inr 0) \<and>
     session_run std_lib ref_host [Handler_part, Handler_part] (beside H_accepted C_idle T_notify u)
       (alone C_idle T_notify v) \<and> ReadRegister ''pc'' v = Some (Inr 4)"
proof -
  note b = running_at_breakpoint
  from late_halt_moves_pc [OF ref_session.debug_session_axioms b(1) session_Run(3) [OF bp_run] b(2-5), of C_idle]
  show ?thesis unfolding running_session_def by (auto simp del: session_run_simps)
qed

text \<open>C28: \<open>Wait\<close> can return while the core runs. If the thread of an earlier run has set the run
  status but not notified yet when \<open>Run\<close> is called again, its notification goes to the new object:
  the following \<open>Wait\<close> returns although the new thread is running.\<close>

theorem stale_notification:
  assumes "\<not> crashed s" and "client s = C_idle" and i: "i < length (threads s)" "threads s ! i = T_notify"
    and "Run lib H (s_top s) = Some (OkStatus, t1)"
  shows "\<exists>s'. session_run lib H [Client, Client, Thread i, Client, Client] s s' \<and> client s' = C_idle \<and>
    \<not> crashed s' \<and> threads s' ! length (threads s) = T_start \<and> s_top s' = t1\<lparr>run_halted := None\<rparr> \<and>
    run_status (s_top s') = Run_kRunning"
proof -
  let ?s = "s\<lparr>s_top := t1, threads := threads s @ [T_start]\<rparr>"
  let ?u = "?s\<lparr>s_top := t1\<lparr>run_halted := Some True\<rparr>, threads := (threads s @ [T_start])[i := T_done]\<rparr>"
  let ?w = "?u\<lparr>client := C_waiting\<rparr>"
  let ?v = "?w\<lparr>s_top := t1\<lparr>run_halted := None\<rparr>, client := C_idle\<rparr>"
  note r = session_Run [OF assms(5)]
  have 1: "session_run lib H [Client, Client] s ?s" using r(1) [of s] assms(1,2) by simp
  have 2: "session_step lib H (Thread i) ?s ?u"
    using thread_turn [of ?s i lib H T_done "t1\<lparr>run_halted := Some True\<rparr>"] r(2) i assms(1) by (simp add: nth_append)
  have 3: "session_step lib H Client ?u ?w" using wait_blocks [of ?u] r(3) assms(1,2) by simp
  have 4: "session_step lib H Client ?w ?v" using wait_notified [of ?w] assms(1) by simp
  have "session_run lib H [Client, Client, Thread i, Client, Client] s ?v"
    using session_run_trans [OF 1 run_cons [OF 2 run_cons [OF 3 run_cons [OF 4 run_nil]]]] by (simp del: session_run_simps)
  then show ?thesis using r(3) i(1) assms(1) by (intro exI [of _ ?v]) (simp add: nth_append del: session_run_simps)
qed

theorem stale_notification_witness:
  "\<exists>s s'. session_reachable std_lib ref_host s \<and> session_reachable std_lib ref_host s' \<and>
     session_run std_lib ref_host [Client, Client, Thread 0, Client, Client] s s' \<and>
     client s' = C_idle \<and> run_status (s_top s') = Run_kRunning"
proof -
  obtain t1 where "Run std_lib ref_host notify_top = Some (OkStatus, t1)" using notify_Run by blast
  from stale_notification [of "alone C_idle T_notify notify_top" 0 std_lib ref_host t1] this
  obtain s' where s': "session_run std_lib ref_host [Client, Client, Thread 0, Client, Client] (alone C_idle T_notify notify_top) s'"
    "client s' = C_idle" "run_status (s_top s') = Run_kRunning"
    by (auto simp del: session_run_simps)
  with session_run_reachable [OF s'(1) notify_reachable] notify_reachable show ?thesis by blast
qed

text \<open>C29: an object is notified twice. When the thread of an earlier run has not notified yet while
  \<open>Run\<close> is called again and the new run ends, its notification goes to the object of the new run; the
  new thread then notifies that object a second time, which \<^verbatim>\<open>absl::Notification\<close> does not allow.\<close>

theorem notified_twice:
  assumes "\<not> crashed s" and "client s = C_idle" and i: "i < length (threads s)" "threads s ! i = T_notify"
    and "Run lib H (s_top s) = Some (OkStatus, t1)" and "run_thread lib H fuel t1 = Some t2"
    and j: "j = length (threads s)"
  shows "\<exists>n u. session_run lib H ([Client, Client] @ replicate n (Thread j) @ [Thread i]) s u \<and>
    threads u ! i = T_done \<and> threads u ! j = T_notify \<and> run_halted (s_top u) = Some True \<and> \<not> crashed u \<and>
    run_status (s_top u) = Run_kHalted \<and> session_step lib H (Thread j) u (u\<lparr>crashed := True\<rparr>) \<and>
    (\<forall>s'. session_step lib H (Thread j) u s' \<longrightarrow> crashed s')"
proof -
  note r = session_Run [OF assms(5)]
  obtain n v where v: "ends_in lib H n T_start t1 v" "run_status v = Run_kHalted" "t2 = v\<lparr>run_halted := Some True\<rparr>"
    using run_thread_ends_in [OF assms(6) r(3)] by blast
  let ?s = "s\<lparr>s_top := t1, threads := threads s @ [T_start]\<rparr>"
  let ?v = "?s\<lparr>s_top := v, threads := (threads ?s)[j := T_notify]\<rparr>"
  let ?u = "?v\<lparr>s_top := t2, threads := (threads ?v)[i := T_done]\<rparr>"
  have start: "session_run lib H [Client, Client] s ?s" using r(1) [of s] assms(1,2) by simp
  have turns: "session_run lib H (replicate n (Thread j)) ?s ?v"
    by (rule ends_in_turns [OF v(1)]) (use assms(1) in \<open>simp_all add: j\<close>)
  have old: "session_step lib H (Thread i) ?v ?u"
    using thread_turn [of ?v i lib H T_done t2] ends_in_last [OF v(1)] i assms(1) v(3)
    by (simp add: nth_append nth_list_update j)
  have jn: "threads ?u ! j = T_notify" "threads ?u ! i = T_done" "j < length (threads ?u)" "run_halted (s_top ?u) = Some True"
    using i v(3) by (simp_all add: j nth_list_update)
  have x: "session_step lib H (Thread j) ?u (?u\<lparr>crashed := True\<rparr>)"
    by (rule thread_undefined) (use jn assms(1) in simp_all)
  have all: "crashed s'" if "session_step lib H (Thread j) ?u s'" for s'
    using that jn(1,4) by (auto elim!: thread_stepE simp del: nth_list_update)
  have "session_run lib H ([Client, Client] @ replicate n (Thread j) @ [Thread i]) s ?u"
    by (rule session_run_trans [OF start session_run_trans [OF turns run_cons [OF old run_nil]]])
  with x all jn v(2,3) assms(1) show ?thesis by (intro exI [of _ n] exI [of _ ?u]) (simp del: session_run_simps)
qed

text \<open>The breakpoint is still set when \<open>Run\<close> is called again, so the second run ends.\<close>

lemma notify_Run_ends:
  "\<exists>t1 t2. Run std_lib ref_host notify_top = Some (OkStatus, t1) \<and> run_thread std_lib ref_host 2 t1 = Some t2"
proof -
  let ?t1 = "(set_halted False (notify_top\<lparr>run_status := Run_kRunning\<rparr>))\<lparr>run_halted := Some False\<rparr>"
  have n: "halt_reason (t_env notify_top) = Halt_kUserRequest" "run_status notify_top = Run_kHalted"
    by (simp_all add: notify_top_def halted_running_def set_pc_value_def set_halted_def set_halt_reason_def map_env_def)
  have r: "Run std_lib ref_host notify_top = Some (OkStatus, ?t1)" using n by (simp add: Run_def)
  note b = running_at_breakpoint
  have m: "machine_ok ref_host ?t1" using b(1) by (simp add: notify_top_def halted_running_def)
  have "at_breakpoint ref_host rw_mem 0 ?t1" "db_get32 (pc_data_buffer ?t1) = 0" "\<not> halted (t_env ?t1)"
    using b(3,4)
    by (simp_all add: notify_top_def halted_running_def set_pc_value_def set_halted_def set_halt_reason_def map_env_def
        at_breakpoint_def pc_data_buffer_def)
  from ref_debugger.run_thread_at_breakpoint [OF m this(1,2,3)] r show ?thesis by auto
qed

theorem notified_twice_witness:
  "\<exists>s u. session_reachable std_lib ref_host s \<and> session_reachable std_lib ref_host u \<and> \<not> crashed u \<and>
     (\<exists>s'. session_step std_lib ref_host (Thread 1) u s' \<and> crashed s' \<and> run_halted (s_top u) = Some True)"
proof -
  let ?s = "alone C_idle T_notify notify_top"
  obtain t1 t2 where t: "Run std_lib ref_host notify_top = Some (OkStatus, t1)" "run_thread std_lib ref_host 2 t1 = Some t2"
    using notify_Run_ends by blast
  from notified_twice [of ?s 0 std_lib ref_host t1 2 t2 1] t obtain n u where
    u: "session_run std_lib ref_host ([Client, Client] @ replicate n (Thread 1) @ [Thread 0]) ?s u"
    "run_halted (s_top u) = Some True" "\<not> crashed u" "session_step std_lib ref_host (Thread 1) u (u\<lparr>crashed := True\<rparr>)"
    by (auto simp del: session_run_simps)
  have "crashed (u\<lparr>crashed := True\<rparr>)" by simp
  with session_run_reachable [OF u(1) notify_reachable] notify_reachable u(2-4) show ?thesis by blast
qed

end
