(* ===== verification/Schedules.thy ===== *)
theory Schedules
  imports Session_Runs
begin

text \<open>
  A batch run of the simulator program: \<^verbatim>\<open>main\<close> in its call of \<open>Wait\<close> and the thread that \<open>Run\<close> has
  started, in any order that a schedule gives. Nobody calls \<open>Halt\<close>; what control-C does to a
  run is the subject of the sessions.
\<close>

section \<open>Main and the thread\<close>

text \<open>\<^verbatim>\<open>main\<close> is about to test the run status in \<open>Wait\<close>, is blocked there, or has come back with a
  status; what it does then no longer meets the thread, but the thread may still be running.\<close>

datatype main_position = M_wait | M_blocked | M_rest status

datatype batch_party = Main_turn | Run_turn

text \<open>A turn of \<^verbatim>\<open>main\<close>; \<open>None\<close> is waiting for a null notification. A blocked turn changes nothing.\<close>

fun main_turn :: "main_position \<Rightarrow> 'x top \<Rightarrow> (main_position \<times> 'x top) option" where
  "main_turn M_wait t =
     (if run_status t \<noteq> Run_kRunning then Some (M_rest OkStatus, t\<lparr>run_halted := None\<rparr>) else Some (M_blocked, t))"
| "main_turn M_blocked t =
     (case run_halted t of
        None \<Rightarrow> None
      | Some False \<Rightarrow> Some (M_blocked, t)
      | Some True \<Rightarrow> Some (M_rest OkStatus, t\<lparr>run_halted := None\<rparr>))"
| "main_turn (M_rest st) t = Some (M_rest st, t)"

text \<open>The turns of a schedule; \<open>None\<close> is undefined behaviour of one of the two.\<close>

fun batch_turns ::
  "'x top_env mpact \<Rightarrow> 'x host \<Rightarrow> batch_party list \<Rightarrow> main_position \<times> run_position \<times> 'x top \<Rightarrow>
   (main_position \<times> run_position \<times> 'x top) option" where
  "batch_turns lib H [] s = Some s"
| "batch_turns lib H (Main_turn # sched) (m, p, t) =
     (case main_turn m t of None \<Rightarrow> None | Some (m', t') \<Rightarrow> batch_turns lib H sched (m', p, t'))"
| "batch_turns lib H (Run_turn # sched) (m, p, t) =
     (case thread_step lib H p t of None \<Rightarrow> None | Some (p', t') \<Rightarrow> batch_turns lib H sched (m, p', t'))"

section \<open>Schedules are sessions\<close>

fun client_of :: "main_position \<Rightarrow> client_position" where
  "client_of M_blocked = C_waiting"
| "client_of m = C_idle"

lemma main_turn_session:
  assumes "main_turn m t = Some (m', t')"
  shows "session_step lib H Client (alone (client_of m) p t) (alone (client_of m') p t') \<or> (m' = m \<and> t' = t)"
proof (cases m)
  case M_wait
  then show ?thesis
    using assms wait_returns [of "alone C_idle p t"] wait_blocks [of "alone C_idle p t"]
    by (auto simp: alone_def split: if_splits)
next
  case M_blocked
  then show ?thesis
    using assms wait_notified [of "alone C_waiting p t"] by (auto simp: alone_def split: option.splits bool.splits)
next
  case (M_rest st)
  then show ?thesis using assms by simp
qed

lemma batch_turns_session:
  assumes "batch_turns lib H sched (m, p, t) = Some (m', p', t')"
  shows "\<exists>as. set as \<subseteq> {Client, Thread 0} \<and> session_run lib H as (alone (client_of m) p t) (alone (client_of m') p' t')"
  using assms
proof (induction sched arbitrary: m p t)
  case Nil
  then show ?case by (auto intro!: exI [of _ "[]"])
next
  case (Cons b sched)
  show ?case
  proof (cases b)
    case Main_turn
    then obtain n v where v: "main_turn m t = Some (n, v)" "batch_turns lib H sched (n, p, v) = Some (m', p', t')"
      using Cons.prems by (auto split: option.splits)
    obtain as where as: "set as \<subseteq> {Client, Thread 0}" "session_run lib H as (alone (client_of n) p v) (alone (client_of m') p' t')"
      using Cons.IH [OF v(2)] by blast
    from main_turn_session [OF v(1), of lib H p] show ?thesis
    proof
      assume "session_step lib H Client (alone (client_of m) p t) (alone (client_of n) p v)"
      from run_cons [OF this as(2)] as(1) show ?thesis by (intro exI [of _ "Client # as"]) simp
    next
      assume "n = m \<and> v = t"
      with as show ?thesis by blast
    qed
  next
    case Run_turn
    then obtain q v where v: "thread_step lib H p t = Some (q, v)" "batch_turns lib H sched (m, q, v) = Some (m', p', t')"
      using Cons.prems by (auto split: option.splits)
    obtain as where "set as \<subseteq> {Client, Thread 0}" "session_run lib H as (alone (client_of m) q v) (alone (client_of m') p' t')"
      using Cons.IH [OF v(2)] by blast
    then show ?thesis using alone_turn [OF v(1), of "client_of m"] by (auto intro!: exI [of _ "Thread 0 # as"])
  qed
qed

section \<open>The outcomes\<close>

lemma rest_turns: "batch_turns lib H sched (M_rest st, T_done, t) = Some (M_rest st, T_done, t)"
proof (induction sched)
  case (Cons b sched)
  then show ?case by (cases b) simp_all
qed simp

lemma notified_turns:
  "run_halted t = Some True \<Longrightarrow> Main_turn \<in> set sched \<Longrightarrow>
   batch_turns lib H sched (M_blocked, T_done, t) = Some (M_rest OkStatus, T_done, t\<lparr>run_halted := None\<rparr>)"
proof (induction sched)
  case (Cons b sched)
  then show ?case by (cases b) (simp_all add: rest_turns)
qed simp

lemma finished_turns:
  "run_status t \<noteq> Run_kRunning \<Longrightarrow> Main_turn \<in> set sched \<Longrightarrow>
   batch_turns lib H sched (M_wait, T_done, t) = Some (M_rest OkStatus, T_done, t\<lparr>run_halted := None\<rparr>)"
proof (induction sched)
  case (Cons b sched)
  then show ?case by (cases b) (simp_all add: rest_turns)
qed simp

text \<open>\<open>Wait\<close> blocked, and the thread with \<open>n\<close> turns to go to its notification.\<close>

lemma blocked_turns:
  assumes "ends_in lib H n p t u" and "Suc n \<le> count_list sched Run_turn"
  shows "batch_turns lib H (sched @ Main_turn # rest) (M_blocked, p, t) = Some (M_rest OkStatus, T_done, u\<lparr>run_halted := None\<rparr>)"
  using assms
proof (induction sched arbitrary: n p t)
  case (Cons b sched)
  have rh: "run_halted t = Some False" by (rule ends_in_waiting [OF Cons.prems(1)])
  show ?case
  proof (cases b)
    case Main_turn
    then show ?thesis using Cons.IH [OF Cons.prems(1)] Cons.prems(2) rh by simp
  next
    case Run_turn
    show ?thesis
    proof (cases n)
      case 0
      then show ?thesis
        using Cons.prems Run_turn notified_turns [of "u\<lparr>run_halted := Some True\<rparr>" "sched @ Main_turn # rest" lib H] by simp
    next
      case (Suc k)
      then show ?thesis using Cons.prems Run_turn Cons.IH [of k] by auto
    qed
  qed
qed simp

text \<open>If \<^verbatim>\<open>main\<close> does not come to \<open>Wait\<close> exactly between the store of the run status and the
  notification, \<open>Wait\<close> returns after the thread has ended.\<close>

lemma wait_turns:
  assumes "ends_in lib H n p t u" and "run_status u = Run_kHalted" and "Suc n \<le> count_list sched Run_turn"
    and "length (takeWhile ((=) Run_turn) sched) \<noteq> n"
  shows "batch_turns lib H (sched @ Main_turn # rest) (M_wait, p, t) = Some (M_rest OkStatus, T_done, u\<lparr>run_halted := None\<rparr>)"
  using assms
proof (induction sched arbitrary: n p t)
  case (Cons b sched)
  show ?case
  proof (cases b)
    case Main_turn
    then obtain k where "n = Suc k" using Cons.prems(4) by (cases n) auto
    then have "run_status t = Run_kRunning" using Cons.prems(1) by simp
    then show ?thesis using Main_turn Cons.prems(3) blocked_turns [OF Cons.prems(1), of sched rest] by simp
  next
    case Run_turn
    show ?thesis
    proof (cases n)
      case 0
      then show ?thesis
        using Cons.prems Run_turn finished_turns [of "u\<lparr>run_halted := Some True\<rparr>" "sched @ Main_turn # rest" lib H] by simp
    next
      case (Suc k)
      then show ?thesis using Cons.prems Run_turn Cons.IH [of k] by auto
    qed
  qed
qed simp

text \<open>If it does, the thread fails unless the process ends before its next turn.\<close>

lemma stale_turns:
  "run_halted t = None \<Longrightarrow>
   batch_turns lib H sched (M_rest st, T_notify, t) = (if Run_turn \<in> set sched then None else Some (M_rest st, T_notify, t))"
proof (induction sched)
  case (Cons b sched)
  then show ?case by (cases b) simp_all
qed simp

lemma window_turns:
  assumes "ends_in lib H n p t u" and "run_status u = Run_kHalted"
  shows "batch_turns lib H (replicate n Run_turn @ Main_turn # rest) (M_wait, p, t) =
    (if Run_turn \<in> set rest then None else Some (M_rest OkStatus, T_notify, u\<lparr>run_halted := None\<rparr>))"
  using assms
proof (induction n arbitrary: p t)
  case 0
  then show ?case using stale_turns [of "u\<lparr>run_halted := None\<rparr>"] by simp
qed auto

end
