(* ===== verification/Sim_Main.thy ===== *)
theory Sim_Main
  imports Batch Debug_Library Construction Schedules
begin

text \<open>
  The simulator program, \<^verbatim>\<open>other/rv32i_sim.cc\<close>: command line, loading the program, semihosting,
  the interactive shell or a batch run, and the file of counters. The ELF loader, the debug
  command shell, \<^verbatim>\<open>Component::Export\<close>, the text format printer and the file system are the record
  \<open>sim_lib\<close>; what the program writes is a list of outputs.
\<close>

section \<open>The surroundings of the program\<close>

text \<open>\<open>sl_LoadProgram\<close> loads a file into the memory of the simulator and returns the entry point;
  \<open>sl_GetSymbol\<close> looks a symbol of that file up (value and size); \<open>sl_uninit_magic\<close> is what an
  uninitialized \<^verbatim>\<open>SemiHostAddresses\<close> holds; \<open>sl_shell\<close> is \<^verbatim>\<open>DebugCommandShell::Run\<close> (\<open>None\<close>: it does
  not return); \<open>sl_good\<close> says whether a file can be opened for writing.\<close>

record ('x, 'p) sim_lib =
  sl_LoadProgram :: "string \<Rightarrow> 'x \<Rightarrow> (status + u64) \<times> 'x"
  sl_GetSymbol :: "string \<Rightarrow> string \<Rightarrow> status + u64 \<times> u64"
  sl_uninit_magic :: semihost_addresses
  sl_shell :: "'x top \<Rightarrow> 'x top option"
  sl_Export :: "'x top \<Rightarrow> status + 'p"
  sl_PrintToString :: "'p \<Rightarrow> string option"
  sl_good :: "string \<Rightarrow> bool"

record sim_flags =
  flag_i :: bool
  flag_interactive :: bool
  flag_output_dir :: string

datatype sim_output =
    Cerr string
  | LogError string
  | ProtoFile string string

text \<open>How the process ends; \<open>Aborted\<close> is a failed \<^verbatim>\<open>CHECK\<close> or \<^verbatim>\<open>StatusOr::value()\<close> of an error.\<close>

datatype sim_exit = Returned int | Exited int | Aborted

fun status_message :: "status \<Rightarrow> string" where
  "status_message OkStatus = []"
| "status_message (NotFoundError m) = m"
| "status_message (FailedPreconditionError m) = m"
| "status_message (InvalidArgumentError m) = m"
| "status_message (InternalError m) = m"

definition endl :: string where
  "endl = [CHR 0x0A]"

section \<open>Control-C\<close>

text \<open>\<open>None\<close> is the null pointer before \<^verbatim>\<open>main\<close> has set it; the result is the exit code or the
  simulator after \<open>Halt\<close>.\<close>

definition sim_sigint_handler :: "'x top option \<Rightarrow> int + 'x top" where
  "sim_sigint_handler p = (case p of Some t \<Rightarrow> Inr (snd (Halt t)) | None \<Rightarrow> Inl (- 1))"

text \<open>The handler's steps in a session are calls of it once \<^verbatim>\<open>main\<close> has set the pointer.\<close>

lemma handler_steps:
  "session_step lib H Handler s s' \<longleftrightarrow>
     \<not> crashed s \<and> (\<exists>t. sim_sigint_handler (Some (s_top s)) = Inr t \<and> s' = s\<lparr>s_top := t\<rparr>)"
proof -
  have "session_step lib H Handler s (s\<lparr>s_top := snd (Halt (s_top s))\<rparr>)" if "\<not> crashed s"
    using halt_request [OF that, of "fst (Halt (s_top s))"] by simp
  then show ?thesis by (auto simp: sim_sigint_handler_def elim: session_stepE)
qed

section \<open>Semihosting addresses\<close>

text \<open>The addresses found so far are stored through the pointer also when a later symbol is
  missing.\<close>

definition GetMagicAddresses ::
  "(string \<Rightarrow> status + u64 \<times> u64) \<Rightarrow> semihost_addresses \<Rightarrow> bool \<times> semihost_addresses" where
  "GetMagicAddresses GetSymbol magic =
     (case GetSymbol ''tohost_ready'' of Inl _ \<Rightarrow> (False, magic) | Inr r \<Rightarrow>
      let magic = magic\<lparr>tohost_ready := fst r\<rparr> in
      case GetSymbol ''tohost'' of Inl _ \<Rightarrow> (False, magic) | Inr r \<Rightarrow>
      let magic = magic\<lparr>tohost := fst r\<rparr> in
      case GetSymbol ''fromhost_ready'' of Inl _ \<Rightarrow> (False, magic) | Inr r \<Rightarrow>
      let magic = magic\<lparr>fromhost_ready := fst r\<rparr> in
      case GetSymbol ''fromhost'' of Inl _ \<Rightarrow> (False, magic) | Inr r \<Rightarrow>
      (True, magic\<lparr>fromhost := fst r\<rparr>))"

section \<open>File names\<close>

fun find_first_of :: "char \<Rightarrow> string \<Rightarrow> nat option" where
  "find_first_of c [] = None"
| "find_first_of c (x # xs) = (if x = c then Some 0 else map_option Suc (find_first_of c xs))"

fun find_last_of :: "char \<Rightarrow> string \<Rightarrow> nat option" where
  "find_last_of c [] = None"
| "find_last_of c (x # xs) =
     (case find_last_of c xs of Some i \<Rightarrow> Some (Suc i) | None \<Rightarrow> if x = c then Some 0 else None)"

text \<open>\<^verbatim>\<open>npos + 1\<close> is 0, and a length of \<^verbatim>\<open>npos\<close> takes the rest of the string.\<close>

definition file_basename :: "string \<Rightarrow> string" where
  "file_basename full_file_name =
     (let file_name = drop (case find_last_of CHR ''/'' full_file_name of None \<Rightarrow> 0 | Some i \<Rightarrow> i + 1) full_file_name
      in take (case find_first_of CHR ''.'' file_name of None \<Rightarrow> length file_name | Some i \<Rightarrow> i) file_name)"

definition proto_file_name :: "string \<Rightarrow> string \<Rightarrow> string" where
  "proto_file_name output_dir basename =
     (if output_dir = [] then ''./'' @ basename @ ''.proto'' else output_dir @ ''/'' @ basename @ ''.proto'')"

section \<open>The main program\<close>

text \<open>From loading the program to setting up semihosting; \<open>Inl\<close> ends the process. The entry point
  is narrowed to 32 bits.\<close>

definition load_program ::
  "'x host \<Rightarrow> ('x, 'p) sim_lib \<Rightarrow> string \<Rightarrow> 'x top \<Rightarrow> sim_output list \<times> (sim_exit + 'x top)" where
  "load_program H S full_file_name t =
     (let (load_result, x) = sl_LoadProgram S full_file_name (ext (t_env t));
          t = set_ext x t
      in case load_result of
        Inl st \<Rightarrow>
          ([Cerr (''Error while loading '' @ [CHR 0x27] @ full_file_name @ [CHR 0x27] @ '': '' @ status_message st)],
           Inl Aborted)
      | Inr v \<Rightarrow>
          (let entry_point = ucast v :: u32;
               (pc_write, t) = WriteRegister ''pc'' (ucast entry_point) t;
               out = (if status_ok pc_write then [] else [Cerr (''Error writing to pc: '' @ status_message pc_write)]);
               (found, magic) = GetMagicAddresses (sl_GetSymbol S full_file_name) (sl_uninit_magic S)
           in if found
              then (let (st, t) = SetUpSemiHosting H magic t
                    in if status_ok st then (out, Inr t)
                       else (out @ [Cerr (''Failed to set up semihosting'' @ endl)], Inl (Exited (- 1))))
              else (out, Inr t)))"

text \<open>The shell, or a run: \<open>Run\<close>, then \<open>Wait\<close> beside the thread of the run in the order of \<open>sched\<close>, which
  also says how many turns there are before the process ends. \<open>None\<close> is undefined behaviour, or that
  \<open>Wait\<close> has not returned within the schedule. A \<open>Run\<close> that is refused starts no thread.\<close>

definition simulate ::
  "'x top_env mpact \<Rightarrow> 'x host \<Rightarrow> ('x, 'p) sim_lib \<Rightarrow> sim_flags \<Rightarrow> batch_party list \<Rightarrow> 'x top \<Rightarrow>
   (sim_output list \<times> 'x top) option" where
  "simulate lib H S flags sched t =
     (if flag_i flags \<or> flag_interactive flags then map_option (\<lambda>t. ([], t)) (sl_shell S t)
      else do {
        (run_st, t) \<leftarrow> Run lib H t;
        (m, _, t) \<leftarrow> batch_turns lib H sched (M_wait, if status_ok run_st then T_start else T_done, t);
        case m of
          M_rest wait_st \<Rightarrow>
            Some ([Cerr (''Starting simulation'' @ endl)] @
                  (if status_ok run_st then [] else [Cerr (status_message run_st @ endl)]) @
                  (if status_ok wait_st then [] else [Cerr (status_message wait_st @ endl)]) @
                  [Cerr (''Simulation done'' @ endl)], t)
        | _ \<Rightarrow> None
      })"

definition export_counters ::
  "('x, 'p) sim_lib \<Rightarrow> sim_flags \<Rightarrow> string \<Rightarrow> 'x top \<Rightarrow> sim_exit \<times> sim_output list" where
  "export_counters S flags basename t =
     (case sl_Export S t of
        Inl st \<Rightarrow> (Aborted, [LogError ''Failed to export proto''])
      | Inr p \<Rightarrow>
          (let name = proto_file_name (flag_output_dir flags) basename
           in (Returned 0,
               case sl_PrintToString S p of
                 Some serialized \<Rightarrow>
                   if sl_good S name then [ProtoFile name serialized] else [LogError ''Failed to write proto to file'']
               | None \<Rightarrow> [LogError ''Failed to write proto to file''])))"

text \<open>The simulator's destructor, at the end of \<^verbatim>\<open>main\<close>, waits for a run that has not ended; \<open>None\<close>
  is waiting forever.\<close>

definition RV32ITop_dtor :: "'x top \<Rightarrow> unit option" where
  "RV32ITop_dtor t =
     (if run_status t = Run_kRunning then (if run_halted t = Some True then Some () else None) else Some ())"

text \<open>\<open>None\<close> is also reading \<^verbatim>\<open>arg_vec[1]\<close> when there is none.\<close>

definition sim_main ::
  "'x top_env mpact \<Rightarrow> 'x host \<Rightarrow> ('x, 'p) sim_lib \<Rightarrow> sim_flags \<Rightarrow> string list \<Rightarrow> batch_party list \<Rightarrow> 'x \<Rightarrow>
   (sim_exit \<times> sim_output list \<times> 'x top option) option" where
  "sim_main lib H S flags arg_vec sched x =
     (if 2 < length arg_vec
        then Some (Returned (- 1), [Cerr (''Only a single input file allowed'' @ endl)], None)
      else if length arg_vec < 2 then None
      else
        (let full_file_name = arg_vec ! 1; t = RV32ITop_ctor lib H x
         in case load_program H S full_file_name t of
              (out, Inl e) \<Rightarrow> Some (e, out, None)
            | (out, Inr t) \<Rightarrow> do {
                (out', t) \<leftarrow> simulate lib H S flags sched t;
                let (e, out'') = export_counters S flags (file_basename full_file_name) t;
                if e = Aborted then Some (e, out @ out' @ out'', None)
                else do { _ \<leftarrow> RV32ITop_dtor t; Some (e, out @ out' @ out'', Some t) }
              }))"

section \<open>Loading a program\<close>

lemma GetMagicAddresses_found:
  assumes "\<And>nm. nm \<in> {''tohost_ready'', ''tohost'', ''fromhost_ready'', ''fromhost''} \<Longrightarrow> \<exists>r. get nm = Inr r"
  shows "GetMagicAddresses get m =
    (True, \<lparr>tohost_ready = fst (projr (get ''tohost_ready'')), tohost = fst (projr (get ''tohost'')),
      fromhost_ready = fst (projr (get ''fromhost_ready'')), fromhost = fst (projr (get ''fromhost''))\<rparr>)"
proof -
  obtain a b c d where "get ''tohost_ready'' = Inr a" "get ''tohost'' = Inr b" "get ''fromhost_ready'' = Inr c"
    "get ''fromhost'' = Inr d"
    using assms by (metis insertCI)
  then show ?thesis by (simp add: GetMagicAddresses_def Let_def)
qed

lemma write_pc:
  assumes x: "xregs_ok (state t)" and pc: "top_pc t = pc_reg (state t)" and run: "run_status t = Run_kHalted"
    and hr: "halt_reason (t_env t) \<noteq> Halt_kSoftwareBreakpoint" and len: "length (db_bytes (pc_data_buffer t)) = 4"
  shows "WriteRegister ''pc'' (ucast (v :: u32)) t = (OkStatus, set_pc_value v t)"
proof -
  have r: "registers (state t) ''pc'' = Some (top_pc t)" using xregs_okD(2) [OF x] pc by (simp add: kPcName_def)
  have "le_bytes 4 (ucast v :: u64) = le_bytes 4 v"
    using le_bytes_le_word32 [of "le_bytes 4 (ucast v :: u64)"] le_bytes_le_word_ucast [of "ucast v"]
    by (simp add: ucast_32_64_32)
  then have "set_register_bytes (top_pc t) (le_bytes 4 (ucast v :: u64)) t = set_pc_value v t"
    by (simp add: set_register_bytes_def set_pc_value_def pc_data_buffer_def)
  then show ?thesis
    using WriteRegister_found [OF run r, of 4 "ucast v"] len hr by (simp add: pc_data_buffer_def)
qed

lemma top_abs_same_regs:
  assumes "registers (state t') = registers (state t)" "reg_db (state t') = reg_db (state t)" "top_pc t' = top_pc t"
  shows "top_abs xbytes t' = (top_abs xbytes t)\<lparr>rv_mem := xbytes (ext (t_env t'))\<rparr>"
  using assms by (simp add: top_abs_def rv_of_def xval_def pc_data_buffer_def cong: if_cong)

context batch
begin

lemma load_program_runs:
  assumes load: "sl_LoadProgram S file x = (Inr v, x')"
    and empty: "\<And>a. h_cached H a x' = None"
    and magic: "GetMagicAddresses (sl_GetSymbol S file) (sl_uninit_magic S) = (True, m)"
  shows "\<exists>t. load_program H S file (RV32ITop_ctor lib H x) = ([], Inr t) \<and>
    sim_ok H xbytes (lib_default_size lib) C t \<and> st_memory (state t) = WatcherMemory \<and>
    watches (tohost m) (ext (t_env t)) \<and> run_status t = Run_kHalted \<and> halt_reason (t_env t) = Halt_kNone \<and>
    counter_num_instructions t = 0 \<and>
    top_abs xbytes t = \<lparr>rv_pc = ucast v, rv_x = rv_x (top_abs xbytes (RV32ITop_ctor lib H x)), rv_mem = xbytes x'\<rparr>"
proof -
  define t0 where "t0 = RV32ITop_ctor lib H x"
  note c = constructed [OF mpact_registers_axioms t0_def]
  have x0: "xregs_ok (state t0)" by (rule regs_upto_xregs_ok [OF c(1)])
  let ?t1 = "set_ext x' t0"
  have "xregs_ok (state ?t1)" using x0 by (simp add: xregs_ok_def set_ext_def map_env_def)
  then have m1: "machine_ok H ?t1"
    using c empty
    by (simp add: machine_ok_def regs_good_def regs_upto_def cache_made_def code_memory_def set_ext_def map_env_def)
  have "top_pc t0 \<in> ran (registers (state t0))" using xregs_okD(2) [OF x0] c(2) by (auto simp: ran_def)
  then have "length (db_bytes (pc_data_buffer ?t1)) = 4"
    using c(1) by (simp add: regs_upto_def pc_data_buffer_def set_ext_def map_env_def)
  then have w: "WriteRegister ''pc'' (ucast (ucast v :: u32)) ?t1 = (OkStatus, set_pc_value (ucast v) ?t1)"
    using c x0 by (intro write_pc) (simp_all add: set_ext_def map_env_def xregs_ok_def)
  let ?t2 = "set_pc_value (ucast v) ?t1"
  have m2: "machine_ok H ?t2" using m1 by simp
  have abs2: "top_abs xbytes ?t2 = rv_of mbytes (ucast v) (state ?t1)"
    using m1 by (intro top_abs_set_pc) (simp_all add: machine_ok_def regs_good_def)
  have x1: "rv_of mbytes p (state ?t1) = \<lparr>rv_pc = p, rv_x = rv_x (top_abs xbytes t0), rv_mem = xbytes x'\<rparr>" for p
    by (simp add: rv_of_def top_abs_def xval_def set_ext_def map_env_def cong: if_cong)
  let ?x2 = "h_SemiHost H m (ext (t_env ?t2))"
  let ?t3 = "(set_ext ?x2 ?t2)\<lparr>state := set_memory WatcherMemory (state (set_ext ?x2 ?t2)), semihosting := True\<rparr>"
  have s: "SetUpSemiHosting H m ?t2 = (OkStatus, ?t3)"
    using c(7) by (simp add: SetUpSemiHosting_def set_ext_def map_env_def Let_def)
  have "\<And>b. h_cached H b ?x2 = None" using empty h_semihost_cached by simp
  moreover have "regs_good (s\<lparr>st_memory := h\<rparr>) = regs_good s" for s :: "'x top_env riscv_state" and h
    by (simp add: regs_good_def xregs_ok_def)
  ultimately have "machine_ok H ?t3" "\<forall>b. h_cached H b (ext (t_env ?t3)) = None"
    using m2 by (simp_all add: machine_ok_def cache_made_def code_memory_def set_memory_def set_ext_def map_env_def)
  then have ok3: "sim_ok H xbytes (lib_default_size lib) C ?t3" by (rule uncached_sim_ok)
  have "xbytes ?x2 = xbytes x'" by (simp add: h_semihost_bytes)
  then have "top_abs xbytes ?t3 = \<lparr>rv_pc = ucast v, rv_x = rv_x (top_abs xbytes t0), rv_mem = xbytes x'\<rparr>"
    using top_abs_same_regs [of ?t3 ?t2 xbytes]
    unfolding abs2 x1 by (simp add: set_memory_def set_ext_def map_env_def)
  moreover have "load_program H S file t0 = ([], Inr ?t3)"
    using load magic by (simp add: load_program_def c(6) w s Let_def)
  ultimately show ?thesis
    using ok3 c watch_set_up [of m]
    by (intro exI [of _ ?t3]) (simp add: t0_def [symmetric] set_memory_def set_ext_def map_env_def set_pc_value_def)
qed

text \<open>\<open>N\<close> is the number of turns of the thread, its notification the last.\<close>

lemma simulate_ends:
  assumes ok: "sim_ok H xbytes (lib_default_size lib) C t" and mem: "st_memory (state t) = WatcherMemory"
    and watch: "watches a (ext (t_env t))" and st: "run_status t = Run_kHalted" "halt_reason (t_env t) = Halt_kNone"
    and batch: "\<not> flag_i flags" "\<not> flag_interactive flags"
    and run: "(sim_step (lib_default_size lib) C ^^ n) (top_abs xbytes t) m" "sim_step (lib_default_size lib) C m m'" "ending_store ends a m"
    and out: "out = [Cerr (''Starting simulation'' @ endl), Cerr (''Simulation done'' @ endl)]"
  shows "\<exists>N k t'. 1 < N \<and> N \<le> n + 5 \<and> 0 < k \<and> k \<le> Suc n \<and>
    (\<forall>as bs. N \<le> count_list as Run_turn \<and> length (takeWhile ((=) Run_turn) as) \<noteq> N - 1 \<longrightarrow>
       simulate lib H S flags (as @ Main_turn # bs) t = Some (out, t')) \<and>
    (\<forall>bs. simulate lib H S flags (replicate (N - 1) Run_turn @ Main_turn # bs) t =
       (if Run_turn \<in> set bs then None else Some (out, t'))) \<and>
    (sim_step (lib_default_size lib) C ^^ k) (top_abs xbytes t) (top_abs xbytes t') \<and>
    counter_num_instructions t' = counter_num_instructions t + of_nat k \<and> run_status t' = Run_kHalted"
proof -
  let ?t1 = "(set_halted False (t\<lparr>run_status := Run_kRunning\<rparr>))\<lparr>run_halted := Some False\<rparr>"
  have r: "Run lib H t = Some (OkStatus, ?t1)" using st by (simp add: Run_def)
  have ok1: "sim_ok H xbytes (lib_default_size lib) C ?t1"
    by (rule whole.inv_cong [OF ok]) (simp_all add: same_frame_def)
  have abs1: "top_abs xbytes ?t1 = top_abs xbytes t"
    unfolding top_abs_def pc_data_buffer_def by (simp add: rv_of_def)
  obtain k t2 where t2: "run_thread lib H (n + 2) ?t1 = Some t2" "0 < k" "k \<le> Suc n"
    "(sim_step (lib_default_size lib) C ^^ k) (top_abs xbytes t) (top_abs xbytes t2)"
    "counter_num_instructions t2 = counter_num_instructions ?t1 + of_nat k" "run_status t2 = Run_kHalted"
    using run_thread_ends [OF ok1 _ run(2,3), of n] run(1) mem watch unfolding abs1 by auto
  obtain j u where u: "0 < j" "j \<le> n + 4" "ends_in lib H j T_start ?t1 u" "run_status u = Run_kHalted"
    "t2 = u\<lparr>run_halted := Some True\<rparr>"
    using run_thread_ends_in [OF t2(1)] by auto
  have "simulate lib H S flags (as @ Main_turn # bs) t = Some (out, u\<lparr>run_halted := None\<rparr>)"
    if "Suc j \<le> count_list as Run_turn \<and> length (takeWhile ((=) Run_turn) as) \<noteq> j" for as bs
    using wait_turns [OF u(3,4), of as bs] that batch r by (simp add: simulate_def out)
  moreover have "simulate lib H S flags (replicate j Run_turn @ Main_turn # bs) t =
      (if Run_turn \<in> set bs then None else Some (out, u\<lparr>run_halted := None\<rparr>))" for bs
    using window_turns [OF u(3,4), of bs] batch r by (simp add: simulate_def out)
  moreover have "top_abs xbytes (u\<lparr>run_halted := None\<rparr>) = top_abs xbytes t2"
    by (simp add: top_abs_def pc_data_buffer_def u(5))
  ultimately show ?thesis
    using t2 u by (intro exI [of _ "Suc j"] exI [of _ k] exI [of _ "u\<lparr>run_halted := None\<rparr>"])
      (simp add: set_halted_def map_env_def)
qed

end

end
