(* ===== verification/Sim_Properties.thy ===== *)
theory Sim_Properties
  imports Sim_Main Reference_Session
begin

text \<open>
  The simulator program from its command line to the file of counters.
\<close>

section \<open>A program on the reference platform\<close>


definition empty_world :: ref_world where
  "empty_world = demo_world\<lparr>rw_mem := \<lambda>_. 0\<rparr>"

definition demo_lib :: "(ref_world, u64) sim_lib" where
  "demo_lib =
     \<lparr>sl_LoadProgram = (\<lambda>file x.
        if file = ''tests/demo.elf'' then (Inr 0, x\<lparr>rw_mem := rw_mem demo_world\<rparr>)
        else (Inl (NotFoundError ''no such file''), x)),
      sl_GetSymbol = (\<lambda>file nm. Inr (if nm = ''tohost'' then 64 else 0, 4)),
      sl_uninit_magic = \<lparr>tohost_ready = 7, tohost = 7, fromhost_ready = 7, fromhost = 7\<rparr>,
      sl_shell = Some, sl_Export = (\<lambda>t. Inr (counter_num_instructions t)),
      sl_PrintToString = (\<lambda>n. Some (dec_str (unat n))), sl_good = (\<lambda>_. True)\<rparr>"

definition demo_flags :: sim_flags where
  "demo_flags = \<lparr>flag_i = False, flag_interactive = False, flag_output_dir = ''out''\<rparr>"

section \<open>Batch runs\<close>



text \<open>C30: what \<open>main\<close> does with a bad command line. A file that cannot be loaded is reported and ends
  the process abnormally, before anything runs, because the entry point of the failed load is read;
  more than one file is refused with a message; without a file \<open>main\<close> reads past the arguments.\<close>

theorem main_failures:
  assumes "mpact_registers lib" and "sl_LoadProgram S file x = (Inl st, x')"
  shows "sim_main lib H S flags [prog, file] sched x =
      Some (Aborted, [Cerr (''Error while loading '' @ [CHR 0x27] @ file @ [CHR 0x27] @ '': '' @ status_message st)], None) \<and>
    sim_main lib H S flags (prog # file # other # args) sched x =
      Some (Returned (- 1), [Cerr (''Only a single input file allowed'' @ endl)], None) \<and>
    sim_main lib H S flags [prog] sched x = None"
  using assms(2) constructed(6) [OF assms(1) refl, of H x]
  by (simp add: sim_main_def load_program_def Let_def)

theorem main_failures_witness:
  "sim_main std_lib ref_host demo_lib demo_flags [''sim'', ''demo''] [] empty_world =
     Some (Aborted, [Cerr (''Error while loading '' @ [CHR 0x27] @ ''demo'' @ [CHR 0x27] @ '': no such file'')], None)"
proof -
  have "sl_LoadProgram demo_lib ''demo'' empty_world = (Inl (NotFoundError ''no such file''), empty_world)"
    by (simp add: demo_lib_def)
  from main_failures [OF std.mpact_registers_axioms this] show ?thesis by simp
qed

end
