(* ===== verification/Transparency.thy ===== *)
theory Transparency
  imports Breakpoints
begin

text \<open>
  What breakpoints leave alone. With software breakpoints set at any of its instructions, a turn of
  the loop executes the program's own instruction, on the registers and the memory without the
  \<^verbatim>\<open>ebreak\<close> words, or stops before it; stepping over a breakpoint executes the instruction under it
  and puts the breakpoint back.
\<close>

section \<open>Programs that treat their code as code\<close>

fun load_size :: "load_op \<Rightarrow> nat" where
  "load_size L_LB = 1"
| "load_size L_LH = 2"
| "load_size L_LW = 4"
| "load_size L_LBU = 1"
| "load_size L_LHU = 2"

fun reads_from :: "rv_inst \<Rightarrow> rv32 \<Rightarrow> u64 set" where
  "reads_from (LOAD op rd rs1 imm) m =
     {ucast (rv_x m rs1 + scast imm) + of_nat k | k. k < load_size op}"
| "reads_from _ m = {}"

inductive user_step :: "u32 set \<Rightarrow> rv32 \<Rightarrow> rv32 \<Rightarrow> bool" for C where
  user: "rv_pc m \<in> C \<Longrightarrow> rv_word m (rv_pc m) = encode i \<Longrightarrow> jalr_even i m \<Longrightarrow>
     writes_to i m \<inter> code_bytes C = {} \<Longrightarrow> reads_from i m \<inter> code_bytes C = {} \<Longrightarrow>
     user_step C m (rv_exec i m)"

inductive_cases user_stepE: "user_step C m m'"

lemma user_rv_step: "user_step C m m' \<Longrightarrow> rv_step C m m'"
  by (auto elim!: user_stepE intro: rv_step.step)

lemma user_run_det: "(user_step C ^^ n) m m1 \<Longrightarrow> (user_step C ^^ n) m m2 \<Longrightarrow> m1 = m2"
proof (induction n arbitrary: m)
  case (Suc n)
  then show ?case by (metis relpowp_Suc_E2 rv_step_det user_rv_step)
qed simp

text \<open>An instruction executed on a memory that differs where it neither reads nor writes has the
  same effect.\<close>

lemma load_value_cong:
  assumes "\<And>k. k < load_size op \<Longrightarrow> rv_mem m' (ucast a + of_nat k) = rv_mem m (ucast a + of_nat k)"
  shows "load_value op m' a = load_value op m a"
proof -
  have "rv_bytes m' a (load_size op) = rv_bytes m a (load_size op)"
    using assms by (simp add: rv_bytes_def)
  then show ?thesis by (cases op) simp_all
qed

lemma rv_exec_other_memory:
  assumes "\<And>y. y \<in> reads_from i m \<Longrightarrow> g y = rv_mem m y"
  shows "rv_exec i (m\<lparr>rv_mem := g\<rparr>) =
    (rv_exec i m)\<lparr>rv_mem := (\<lambda>y. if y \<in> writes_to i m then rv_mem (rv_exec i m) y else g y)\<rparr>"
proof (cases i)
  case (LOAD op rd rs1 imm)
  have "load_value op (m\<lparr>rv_mem := g\<rparr>) (rv_x m rs1 + scast imm) = load_value op m (rv_x m rs1 + scast imm)"
    by (rule load_value_cong) (use assms LOAD in auto)
  then show ?thesis by (simp add: LOAD rv_next_def rv_set_def)
next
  case (STORE op rs1 rs2 imm)
  then show ?thesis by (auto simp: rv_next_def rv_store_def fun_eq_iff)
qed (auto simp: rv_next_def rv_set_def)

section \<open>Code addresses\<close>

definition code_aligned :: "u32 set \<Rightarrow> bool" where
  "code_aligned C \<longleftrightarrow> (\<forall>a \<in> C. a AND 3 = 0)"

lemma ucast_aligned: "a AND 3 = 0 \<Longrightarrow> (ucast (a :: u32) :: u64) AND 3 = 0"
proof -
  assume "a AND 3 = 0"
  then have "(ucast (a AND 3) :: u64) = 0" by simp
  then show ?thesis by (simp add: unsigned_and_eq)
qed

lemma same_word:
  assumes "code_aligned C" and "a \<in> C" and "b \<in> C" and "k < 4"
    and "unat (ucast a + of_nat k - (ucast b :: u64)) < 4"
  shows "a = b"
proof -
  have al: "(ucast a :: u64) AND 3 = 0" "(ucast b :: u64) AND 3 = 0"
    using assms(1-3) ucast_aligned by (auto simp: code_aligned_def)
  have "(ucast a + of_nat k :: u64) AND NOT 3 = ucast b"
    using in_word_iff [OF al(2)] assms(5) by blast
  moreover have "(ucast a + of_nat k :: u64) AND NOT 3 = ucast a"
    by (rule offset_in_word(1) [OF al(1) assms(4)])
  ultimately show ?thesis by (simp add: ucast_inj)
qed

lemma code_byte: "a \<in> C \<Longrightarrow> unat (y - ucast a) < 4 \<Longrightarrow> y \<in> code_bytes C"
  by (auto simp: code_bytes_def intro!: exI [of _ a] exI [of _ "unat (y - ucast a)"])

section \<open>What the breakpoint manager leaves alone\<close>

text \<open>A patch of the word at \<open>a\<close> changes no other byte and drops the cache entry of \<open>a\<close> only.\<close>

definition patches :: "'x host \<Rightarrow> ('x \<Rightarrow> u64 \<Rightarrow> u8) \<Rightarrow> u64 \<Rightarrow> 'x \<Rightarrow> 'x \<Rightarrow> bool" where
  "patches H xbytes a x x' \<longleftrightarrow>
     (\<forall>y. \<not> unat (y - a) < 4 \<longrightarrow> xbytes x' y = xbytes x y) \<and>
     (\<forall>b. h_cached H b x' = (if b = a then None else h_cached H b x))"

definition under_breakpoint :: "'x host \<Rightarrow> 'x \<Rightarrow> u64 \<Rightarrow> bool" where
  "under_breakpoint H x y \<longleftrightarrow> (\<exists>b. h_HasBreakpoint H b x \<and> unat (y - b) < 4)"

locale breakpoint_frame = breakpoint_manager H xbytes orig
  for H :: "'x host" and xbytes :: "'x \<Rightarrow> u64 \<Rightarrow> u8" and orig :: "'x \<Rightarrow> u64 \<Rightarrow> u8" +
  assumes set_frame: "h_SetBreakpoint H a x = (OkStatus, x') \<Longrightarrow>
      patches H xbytes a x x' \<and> (\<forall>b. h_HasBreakpoint H b x' = (b = a \<or> h_HasBreakpoint H b x))"
    and set_refused: "h_SetBreakpoint H a x = (st, x') \<Longrightarrow> st \<noteq> OkStatus \<Longrightarrow> x' = x"
    and disable_frame: "h_HasBreakpoint H a x \<Longrightarrow> h_DisableBreakpoint H a x = (st, x') \<Longrightarrow>
      patches H xbytes a x x' \<and> (\<forall>b. h_HasBreakpoint H b x' = h_HasBreakpoint H b x)"
    and disable_refused: "\<not> h_HasBreakpoint H a x \<Longrightarrow> h_DisableBreakpoint H a x = (st, x') \<Longrightarrow>
      \<not> status_ok st \<and> x' = x"
    and enable_frame: "h_HasBreakpoint H a x \<Longrightarrow> h_EnableBreakpoint H a x = (st, x') \<Longrightarrow>
      patches H xbytes a x x' \<and> (\<forall>b. h_HasBreakpoint H b x' = h_HasBreakpoint H b x)"
    and clear_frame: "h_HasBreakpoint H a x \<Longrightarrow> h_ClearBreakpoint H a x = (st, x') \<Longrightarrow>
      patches H xbytes a x x' \<and> (\<forall>b. h_HasBreakpoint H b x' = (b \<noteq> a \<and> h_HasBreakpoint H b x)) \<and>
      orig x' = orig x"
    and clear_refused: "\<not> h_HasBreakpoint H a x \<Longrightarrow> h_ClearBreakpoint H a x = (st, x') \<Longrightarrow> x' = x"
    and clear_all: "x' = h_ClearAllBreakpoints H x \<Longrightarrow>
      orig x' = orig x \<and> \<not> h_HasBreakpoint H b x' \<and>
      (h_cached H b x' = Some j \<longrightarrow> h_cached H b x = Some j \<and> \<not> h_HasBreakpoint H b x)"
    and orig_outside: "\<not> under_breakpoint H x y \<Longrightarrow> orig x y = xbytes x y"
    and orig_store: "under_breakpoint H x y \<Longrightarrow> orig (snd (h_store H h a bs x)) y = orig x y"

section \<open>The debugged machine\<close>

text \<open>
  \<open>armed C D x\<close>: breakpoints are set at code addresses only, and those outside \<open>D\<close> are in memory.
  The decode cache holds what is in memory, breakpoints included.
\<close>

definition armed :: "'x host \<Rightarrow> ('x \<Rightarrow> u64 \<Rightarrow> u8) \<Rightarrow> u32 set \<Rightarrow> u32 set \<Rightarrow> 'x \<Rightarrow> bool" where
  "armed H xbytes C D x \<longleftrightarrow>
     (\<forall>b. h_HasBreakpoint H b x \<longrightarrow>
        (\<exists>a \<in> C. b = ucast a \<and> (a \<notin> D \<longrightarrow> word_at (xbytes x) b = ebreak_word)))"

lemma armed_cong:
  assumes "armed H xbytes C D x" and "\<And>b. h_HasBreakpoint H b x' = h_HasBreakpoint H b x"
    and "\<And>a. a \<in> C \<Longrightarrow> word_at (xbytes x') (ucast a) = word_at (xbytes x) (ucast a)"
  shows "armed H xbytes C D x'"
  using assms unfolding armed_def by metis

definition cache_fresh ::
  "'x host \<Rightarrow> ('x \<Rightarrow> u64 \<Rightarrow> u8) \<Rightarrow> nat \<Rightarrow> u32 set \<Rightarrow> 'x top \<Rightarrow> bool" where
  "cache_fresh H xbytes L C t \<longleftrightarrow>
     (\<forall>a \<in> C. \<forall>inst. h_cached H (ucast a) (ext (t_env t)) = Some inst \<longrightarrow>
        (let w = word_at (xbytes (ext (t_env t))) (ucast a)
         in inst = decoded L (ucast a) w (DecodeRiscVInst32 w) (state t)))"

definition debug_core ::
  "'x host \<Rightarrow> ('x \<Rightarrow> u64 \<Rightarrow> u8) \<Rightarrow> nat \<Rightarrow> u32 set \<Rightarrow> u32 set \<Rightarrow> 'x top \<Rightarrow> bool" where
  "debug_core H xbytes L C D t \<longleftrightarrow>
     machine_ok H t \<and> armed H xbytes C D (ext (t_env t)) \<and> cache_fresh H xbytes L C t"

text \<open>Of \<open>c\<close> turns, those the program took: a stop at a breakpoint is a turn but no step.\<close>

definition taken :: "nat \<Rightarrow> 'x top \<Rightarrow> nat" where
  "taken c t = (if halt_reason (t_env t) = Halt_kSoftwareBreakpoint then c - 1 else c)"

lemma word_at_cong: "(\<And>k. k < 4 \<Longrightarrow> m' (a + of_nat k) = m (a + of_nat k)) \<Longrightarrow> word_at m' a = word_at m a"
  unfolding word_at_def by (rule arg_cong [of _ _ le_word]) simp

lemma rv_word_at: "rv_word m a = word_at (rv_mem m) (ucast a)"
  by (simp add: rv_word_def rv_bytes_def word_at_def)

lemma debug_core_cong:
  assumes "debug_core H xbytes L C D t" and "machine_ok H t'" and "same_frame (state t) (state t')"
    and "ext (t_env t') = ext (t_env t)"
  shows "debug_core H xbytes L C D t'"
  using assms by (simp add: debug_core_def cache_fresh_def decoded_frame)


lemma mem_effect_reason:
  assumes "mem_effect (mem_of H) h e e'" and "halt_reason e' = Halt_kSoftwareBreakpoint"
  shows "halt_reason e = Halt_kSoftwareBreakpoint"
  using assms by cases (auto dest: mem_reason)

locale transparent_debugger =
  debugger lib H xbytes orig + core lib H + breakpoint_frame H xbytes orig
  for lib :: "'x top_env mpact" and H :: "'x host" and xbytes and orig
begin

abbreviation obytes :: "'x top_env \<Rightarrow> u64 \<Rightarrow> u8" where
  "obytes \<equiv> \<lambda>e. orig (ext e)"

abbreviation dbg :: "u32 set \<Rightarrow> u32 set \<Rightarrow> 'x top \<Rightarrow> bool" where
  "dbg \<equiv> debug_core H xbytes (lib_default_size lib)"

lemma under_code:
  assumes "armed H xbytes C D x" and "under_breakpoint H x y"
  shows "y \<in> code_bytes C"
  using assms by (auto simp: under_breakpoint_def armed_def dest: code_byte)

lemma outside_word:
  assumes "code_aligned C" and "armed H xbytes C D x" and "p \<in> C" and "\<not> h_HasBreakpoint H (ucast p) x" and "k < 4"
  shows "\<not> under_breakpoint H x (ucast p + of_nat k)"
  using assms same_word [OF assms(1,3) _ assms(5)] unfolding under_breakpoint_def armed_def by metis

lemma original_word:
  assumes "code_aligned C" and "armed H xbytes C D x" and "p \<in> C" and "\<not> h_HasBreakpoint H (ucast p) x"
  shows "word_at (xbytes x) (ucast p) = word_at (orig x) (ucast p)"
  by (rule word_at_cong) (use orig_outside outside_word [OF assms] in metis)

section \<open>One instruction\<close>

lemma fetch_current:
  assumes ok: "dbg C D t" and C: "p \<in> C" and w: "w = word_at (xbytes (ext (t_env t))) (ucast p)"
    and ncsr: "\<not> csr_op (DecodeRiscVInst32 w)"
  obtains t1 where
    "GetDecodedInstruction lib H (ucast p) t =
       (decoded (lib_default_size lib) (ucast p) w (DecodeRiscVInst32 w) (state t), t1)"
    "dbg C D t1" "same_frame (state t) (state t1)" "reg_db (state t1) = reg_db (state t)"
    "xbytes (ext (t_env t1)) = xbytes (ext (t_env t))" "orig (ext (t_env t1)) = orig (ext (t_env t))"
    "\<And>b. h_HasBreakpoint H b (ext (t_env t1)) = h_HasBreakpoint H b (ext (t_env t))"
    "control_same t t1"
proof (cases "h_cached H (ucast p) (ext (t_env t))")
  case (Some inst)
  then have "inst = decoded (lib_default_size lib) (ucast p) w (DecodeRiscVInst32 w) (state t)"
    using ok C by (auto simp: debug_core_def cache_fresh_def w Let_def)
  with Some show ?thesis using that [of t] ok by (simp add: GetDecodedInstruction_def)
next
  case None
  let ?L = "lib_default_size lib"
  let ?inst = "decoded ?L (ucast p) w (DecodeRiscVInst32 w) (state t)"
  have m: "machine_ok H t" using ok by (simp add: debug_core_def)
  have o: "xregs_ok (state t)" "code_memory (dec_memory (rv32_decoder t))"
    using m by (simp_all add: machine_ok_def regs_good_def code_memory_def)
  have "rv_word (rv_of mbytes p (state t)) p = w" by (simp add: rv_word_at w)
  from fetch_miss [OF o None this ncsr refl] obtain t1 x where
    g: "GetDecodedInstruction lib H (ucast p) t = (?inst, t1)"
    and fr: "same_frame (state t) (state t1)" and db: "reg_db (state t1) = reg_db (state t)"
    and xb: "xbytes (ext (t_env t1)) = xbytes (ext (t_env t))"
    and e: "ext (t_env t1) = h_cache H (ucast p) ?inst x" "\<And>b. h_cached H b x = h_cached H b (ext (t_env t))"
      "x = hr_ext (h_load H (dec_memory (rv32_decoder t)) (ucast p) 4 False (ext (t_env t)))"
    and cs: "control_same t t1"
    by metis
  have hb: "h_HasBreakpoint H b (ext (t_env t1)) = h_HasBreakpoint H b (ext (t_env t))" for b
    by (simp add: e(1,3) has_bp_cache has_bp_load)
  have ob: "orig (ext (t_env t1)) = orig (ext (t_env t))" by (simp add: e(1,3) orig_cache orig_load)
  have "cache_fresh H xbytes ?L C t1"
    unfolding cache_fresh_def
  proof (intro ballI allI impI)
    fix a inst assume a: "a \<in> C" and hit: "h_cached H (ucast a) (ext (t_env t1)) = Some inst"
    then have "a = p \<and> inst = ?inst \<or> h_cached H (ucast a) (ext (t_env t)) = Some inst"
      using h_cache_lookup [of "ucast a" "ucast p" ?inst x inst] by (auto simp: e(1,2) ucast_inj)
    then show "let w = word_at (xbytes (ext (t_env t1))) (ucast a)
        in inst = decoded ?L (ucast a) w (DecodeRiscVInst32 w) (state t1)"
      using ok a by (auto simp: debug_core_def cache_fresh_def xb w decoded_frame [OF fr] Let_def)
  qed
  moreover have "machine_ok H t1" by (rule decode_ok(2) [OF m g])
  moreover have "armed H xbytes C D (ext (t_env t1))" using ok hb xb by (simp add: debug_core_def armed_def)
  ultimately have "dbg C D t1" by (simp add: debug_core_def)
  with that g fr db xb ob hb cs show ?thesis by blast
qed

lemma mem_effect_orig:
  assumes "mem_effect (mem_of H) h e e'" and "under_breakpoint H (ext e) y"
  shows "orig (ext e') y = orig (ext e) y"
  using assms(1)
proof cases
  case (a_load a n)
  then show ?thesis by (simp add: mem_of_def orig_load Let_def)
next
  case (a_store a bs)
  then show ?thesis
    using orig_store [OF assms(2), of h a bs] by (auto simp: mem_of_def split: prod.split)
qed simp

lemma under_same:
  "(\<And>b. h_HasBreakpoint H b x' = h_HasBreakpoint H b x) \<Longrightarrow> under_breakpoint H x' y = under_breakpoint H x y"
  by (simp add: under_breakpoint_def)

lemma effect_original:
  assumes ok: "dbg C D t" and e: "exec_effect (mem_of H) mbytes p i (state t) s'"
    and wr: "writes_to i (rv_of obytes p (state t)) \<inter> code_bytes C = {}"
    and rd: "reads_from i (rv_of obytes p (state t)) \<inter> code_bytes C = {}"
  shows "rv_of obytes (next_pc p 4 (state t) s') s' = rv_exec i (rv_of obytes p (state t))"
    and "a \<in> C \<Longrightarrow> word_at (xbytes (ext (env s'))) (ucast a) = word_at (xbytes (ext (t_env t))) (ucast a)"
proof -
  let ?m = "rv_of obytes p (state t)" and ?x = "ext (t_env t)" and ?x' = "ext (env s')"
  have me: "mem_effect (mem_of H) (st_memory (state t)) (t_env t) (env s')"
    and ex: "rv_of mbytes (next_pc p 4 (state t) s') s' = rv_exec i (rv_of mbytes p (state t))"
    using e by (simp_all add: exec_effect_def)
  have arm: "armed H xbytes C D ?x" using ok by (simp add: debug_core_def)
  have mm: "rv_of mbytes p (state t) = ?m\<lparr>rv_mem := xbytes ?x\<rparr>" by (simp add: rv_of_def)
  have "xbytes ?x y = rv_mem ?m y" if "y \<in> reads_from i ?m" for y
  proof -
    have "\<not> under_breakpoint H ?x y" using under_code [OF arm, of y] rd that by blast
    from orig_outside [OF this] show ?thesis by simp
  qed
  from rv_exec_other_memory [OF this]
  have ex': "rv_of mbytes (next_pc p 4 (state t) s') s' = (rv_exec i ?m)
      \<lparr>rv_mem := (\<lambda>y. if y \<in> writes_to i ?m then rv_mem (rv_exec i ?m) y else xbytes ?x y)\<rparr>"
    unfolding ex mm by simp
  have "rv_mem (rv_of mbytes (next_pc p 4 (state t) s') s') =
      (\<lambda>y. if y \<in> writes_to i ?m then rv_mem (rv_exec i ?m) y else xbytes ?x y)"
    unfolding ex' by simp
  then have xb: "xbytes ?x' = (\<lambda>y. if y \<in> writes_to i ?m then rv_mem (rv_exec i ?m) y else xbytes ?x y)"
    by simp
  have us: "under_breakpoint H ?x' y = under_breakpoint H ?x y" for y
    by (rule under_same) (rule mem_effect_has_bp [OF me])
  have "orig ?x' y = rv_mem (rv_exec i ?m) y" for y
  proof (cases "under_breakpoint H ?x y")
    case True
    then have "y \<notin> writes_to i ?m" using under_code [OF arm] wr by blast
    then show ?thesis using mem_effect_orig [OF me True] rv_exec_mem [of y i ?m] by simp
  next
    case False
    then show ?thesis
      using orig_outside [of ?x' y] orig_outside [of ?x y] us rv_exec_mem [of y i ?m] by (auto simp: xb)
  qed
  then have om: "orig ?x' = rv_mem (rv_exec i ?m)" by (simp add: fun_eq_iff)
  have "rv_of obytes (next_pc p 4 (state t) s') s' =
      (rv_of mbytes (next_pc p 4 (state t) s') s')\<lparr>rv_mem := rv_mem (rv_exec i ?m)\<rparr>"
    using om by (simp add: rv_of_def)
  then show "rv_of obytes (next_pc p 4 (state t) s') s' = rv_exec i ?m"
    unfolding ex' by simp
  show "a \<in> C \<Longrightarrow> word_at (xbytes ?x') (ucast a) = word_at (xbytes ?x) (ucast a)"
    by (rule word_at_cong) (use wr in \<open>auto simp: xb code_bytes_def\<close>)
qed

lemma execute_original:
  assumes ok: "dbg C D t" and C: "p \<in> C"
    and w: "word_at (xbytes (ext (t_env t))) (ucast p) = encode i"
    and ev: "jalr_even i (rv_of obytes p (state t))"
    and wr: "writes_to i (rv_of obytes p (state t)) \<inter> code_bytes C = {}"
    and rd: "reads_from i (rv_of obytes p (state t)) \<inter> code_bytes C = {}"
  obtains inst t1 s' t2 where "GetDecodedInstruction lib H (ucast p) t = (inst, t1)" "inst_size inst = 4"
    "Execute lib (mem_of H) inst (state t1) = Some s'" "t2 = count_instruction inst (t1\<lparr>state := s'\<rparr>)"
    "rv_of obytes (next_pc p 4 (state t) s') s' = rv_exec i (rv_of obytes p (state t))"
    "dbg C D t2" "same_frame (state t) s'" "control_same t t2"
    "db_id (pc_db (state t)) = db_id (pc_db s') \<longrightarrow> pc_db s' = pc_db (state t)"
    "\<And>b. h_HasBreakpoint H b (ext (t_env t2)) = h_HasBreakpoint H b (ext (t_env t))"
    "halt_reason (t_env t2) = Halt_kSoftwareBreakpoint \<longrightarrow> halt_reason (t_env t) = Halt_kSoftwareBreakpoint"
proof -
  let ?L = "lib_default_size lib" and ?inst = "word_inst (lib_default_size lib) p i (state t)"
  have "\<not> csr_op (DecodeRiscVInst32 (encode i))"
    using base_opcode_of [of i] by (simp add: decode_encode base_opcode_def csr_op_def)
  from fetch_current [OF ok C w [symmetric] this] obtain t1 where
    g: "GetDecodedInstruction lib H (ucast p) t = (?inst, t1)"
    and ok1: "dbg C D t1" and fr: "same_frame (state t) (state t1)" and db: "reg_db (state t1) = reg_db (state t)"
    and xb: "xbytes (ext (t_env t1)) = xbytes (ext (t_env t))" and ob: "orig (ext (t_env t1)) = orig (ext (t_env t))"
    and hb: "\<And>b. h_HasBreakpoint H b (ext (t_env t1)) = h_HasBreakpoint H b (ext (t_env t))"
    and cs: "control_same t t1"
    unfolding word_inst_def decode_encode by metis
  have m: "machine_ok H t" "machine_ok H t1" using ok ok1 by (simp_all add: debug_core_def)
  have o1: "code_memory (st_memory (state t1))" "xregs_ok (state t1)"
    using m(2) by (simp_all add: machine_ok_def regs_good_def)
  have rv1: "rv_of obytes p (state t1) = rv_of obytes p (state t)" by (rule rv_of_cong [OF fr db]) (simp add: ob)
  have "rv_x (rv_of mbytes p (state t1)) = rv_x (rv_of obytes p (state t1))" by (simp add: fun_eq_iff)
  from jalr_even_cong [OF this] have "jalr_even i (rv_of mbytes p (state t1))" using ev rv1 by simp
  then obtain s' where s': "Execute lib (mem_of H) ?inst (state t1) = Some s'"
    "exec_effect (mem_of H) mbytes p i (state t1) s'"
    using execute_word_inst [OF o1, of i p ?L] word_inst_frame [OF fr] by metis
  define t2 where "t2 = count_instruction ?inst (t1\<lparr>state := s'\<rparr>)"
  note ef = effect_original [OF ok1 s'(2) wr [folded rv1] rd [folded rv1], unfolded rv1]
  have pdb: "pc_db (state t1) = pc_db (state t)" using db fr by (simp add: same_frame_def)
  have np: "next_pc p 4 (state t1) s' = next_pc p 4 (state t) s'" by (simp add: next_pc_def pdb)
  have fr': "same_frame (state t1) s'" and me: "mem_effect (mem_of H) (st_memory (state t1)) (t_env t1) (env s')"
    and pd: "db_id (pc_db (state t)) = db_id (pc_db s') \<longrightarrow> pc_db s' = pc_db (state t)"
    using s'(2) pdb by (simp_all add: exec_effect_def)
  have hb2: "h_HasBreakpoint H b (ext (t_env t2)) = h_HasBreakpoint H b (ext (t_env t1))" for b
    using mem_effect_has_bp [OF me] by (simp add: t2_def)
  obtain u where u: "Execute lib (mem_of H) ?inst (state t1) = Some u"
    "machine_ok H (count_instruction ?inst (t1\<lparr>state := u\<rparr>))"
    using execute_ok [OF m(2) decode_ok(1) [OF m(1) g]] by blast
  then have m2: "machine_ok H t2" using s'(1) by (simp add: t2_def)
  have "cache_fresh H xbytes ?L C t2"
    using ok1 ef(2) by (simp add: debug_core_def cache_fresh_def t2_def mem_effect_cached [OF o1(1) me]
        decoded_frame [OF fr'])
  moreover have "armed H xbytes C D (ext (t_env t2))"
    by (rule armed_cong [of _ _ _ _ "ext (t_env t1)"])
       (use ok1 hb2 ef(2) in \<open>simp_all add: debug_core_def t2_def\<close>)
  ultimately have "dbg C D t2" using m2 by (simp add: debug_core_def)
  moreover have "control_same t t2" using cs by (simp add: t2_def control_same_def count_instruction_def)
  moreover have "halt_reason (t_env t2) = Halt_kSoftwareBreakpoint \<longrightarrow> halt_reason (t_env t) = Halt_kSoftwareBreakpoint"
    using mem_effect_reason [OF me] GetDecodedInstruction_reason [OF g] m(1) by (auto simp: t2_def)
  ultimately show ?thesis
    using that g word_inst_size s'(1) t2_def ef(1) np same_frame_trans [OF fr fr'] pd hb2 hb
    by metis
qed


section \<open>One turn of the loop\<close>

lemma turn_original:
  assumes al: "code_aligned C" and ok: "dbg C {} t" and nb: "\<not> h_HasBreakpoint H (ucast p) (ext (t_env t))"
    and step: "user_step C (rv_of obytes p (state t)) m'" and d: "d = db_id (pc_data_buffer t)"
  obtains d' p' t' where "loop_body lib H (d, p, t) = Some (d', p', t')" "dbg C {} t'"
    "d' = db_id (pc_data_buffer t')" "rv_of obytes p' (state t') = m'"
    "halt_reason (t_env t') = Halt_kSoftwareBreakpoint \<longrightarrow> halt_reason (t_env t) = Halt_kSoftwareBreakpoint"
    "control_same t t'"
proof -
  from step obtain i where i: "p \<in> C" "rv_word (rv_of obytes p (state t)) p = encode i"
    "jalr_even i (rv_of obytes p (state t))" "writes_to i (rv_of obytes p (state t)) \<inter> code_bytes C = {}"
    "reads_from i (rv_of obytes p (state t)) \<inter> code_bytes C = {}"
    "m' = rv_exec i (rv_of obytes p (state t))"
    by (auto elim: user_stepE)
  have arm: "armed H xbytes C {} (ext (t_env t))" and m: "machine_ok H t" using ok by (simp_all add: debug_core_def)
  have w: "word_at (xbytes (ext (t_env t))) (ucast p) = encode i"
    using original_word [OF al arm i(1) nb] i(2) by (simp add: rv_word_at)
  obtain inst t1 s' t2 where e: "GetDecodedInstruction lib H (ucast p) t = (inst, t1)" "inst_size inst = 4"
    "Execute lib (mem_of H) inst (state t1) = Some s'" "t2 = count_instruction inst (t1\<lparr>state := s'\<rparr>)"
    "rv_of obytes (next_pc p 4 (state t) s') s' = m'" "dbg C {} t2" "same_frame (state t) s'" "control_same t t2"
    "halt_reason (t_env t2) = Halt_kSoftwareBreakpoint \<longrightarrow> halt_reason (t_env t) = Halt_kSoftwareBreakpoint"
    using execute_original [OF ok i(1) w i(3-5)] i(6) by metis
  have st: "state t2 = s'" by (simp add: e(4))
  have tp: "top_pc t2 = pc_reg s'" "top_pc t = pc_reg (state t)"
    using e(7,8) m by (simp_all add: machine_ok_def control_same_def same_frame_def)
  have b: "loop_body lib H (d, p, t) = Some (db_id (pc_data_buffer t2), next_pc p 4 (state t) s', t2)"
    using d tp by (simp add: loop_body_def e(1-4) next_pc_def pc_data_buffer_def Let_def)
  from that [OF b e(6) refl _ e(9,8)] e(5) show ?thesis by (simp add: st)
qed

lemma turn_breakpoint:
  assumes ok: "dbg C {} t" and p: "p \<in> C" and has: "h_HasBreakpoint H (ucast p) (ext (t_env t))"
    and d: "d = db_id (pc_data_buffer t)"
  obtains t' where "loop_body lib H (d, p, t) = Some (d, p + 4, t')" "dbg C {} t'"
    "d = db_id (pc_data_buffer t')" "rv_of obytes q (state t') = rv_of obytes q (state t)"
    "halted (t_env t')" "halt_reason (t_env t') = Halt_kSoftwareBreakpoint" "control_same t t'"
proof -
  let ?L = "lib_default_size lib"
  have arm: "armed H xbytes C {} (ext (t_env t))" and m: "machine_ok H t" using ok by (simp_all add: debug_core_def)
  have w: "ebreak_word = word_at (xbytes (ext (t_env t))) (ucast p)"
    using arm has by (auto simp: armed_def ucast_inj)
  have "\<not> csr_op (DecodeRiscVInst32 ebreak_word)" by (simp add: decode_ebreak csr_op_def)
  from fetch_current [OF ok p w this] obtain t1 where
    g: "GetDecodedInstruction lib H (ucast p) t = (ebreak_inst ?L p (state t), t1)"
    and ok1: "dbg C {} t1" and fr: "same_frame (state t) (state t1)" and db: "reg_db (state t1) = reg_db (state t)"
    and ob: "orig (ext (t_env t1)) = orig (ext (t_env t))"
    and hb: "\<And>b. h_HasBreakpoint H b (ext (t_env t1)) = h_HasBreakpoint H b (ext (t_env t))"
    and cs: "control_same t t1"
    unfolding ebreak_inst_def decode_ebreak by metis
  have eb: "on_ebreak (state t1) = [ebreak_handler H]" and m1: "machine_ok H t1"
    using ok1 by (simp_all add: debug_core_def machine_ok_def)
  let ?s = "(state t1)\<lparr>env := RequestHalt Halt_kSoftwareBreakpoint (t_env t1)\<rparr>"
  define t' where "t' = count_instruction (ebreak_inst ?L p (state t)) (t1\<lparr>state := ?s\<rparr>)"
  have ex: "Execute lib (mem_of H) (ebreak_inst ?L p (state t)) (state t1) = Some ?s"
    using has hb by (simp add: execute_ebreak EBreak_def eb call_handler_def ebreak_handler_def)
  have st: "state t' = ?s" by (simp add: t'_def)
  have pcb1: "pc_data_buffer (t1\<lparr>state := ?s\<rparr>) = pc_data_buffer t"
    using db cs by (simp add: pc_data_buffer_def control_same_def)
  then have pcb: "pc_data_buffer t' = pc_data_buffer t" by (simp add: t'_def pc_data_buffer_def)
  have b: "loop_body lib H (d, p, t) = Some (d, p + 4, t')"
    using pcb1 d by (simp add: loop_body_def g ex Let_def t'_def)
  have "machine_ok H t'"
    using m1 by (simp add: t'_def machine_ok_def RequestHalt_def)
  then have "dbg C {} t'"
    by (rule debug_core_cong [OF ok1]) (simp_all add: st RequestHalt_def)
  moreover have "rv_of obytes q (state t') = rv_of obytes q (state t)"
    by (rule rv_of_cong) (use fr db ob in \<open>simp_all add: st RequestHalt_def same_frame_def\<close>)
  moreover have "control_same t t'" using cs by (simp add: t'_def control_same_def count_instruction_def)
  moreover have "halted (t_env t')" "halt_reason (t_env t') = Halt_kSoftwareBreakpoint"
    by (simp_all add: st RequestHalt_def)
  moreover have "d = db_id (pc_data_buffer t')" using pcb d by simp
  ultimately show ?thesis using that [of t'] b by blast
qed


section \<open>Several turns\<close>

lemma step_loop_transparent:
  assumes al: "code_aligned C"
  shows "dbg C {} t \<Longrightarrow> d = db_id (pc_data_buffer t) \<Longrightarrow> halt_reason (t_env t) \<noteq> Halt_kSoftwareBreakpoint \<Longrightarrow>
    (user_step C ^^ n) (rv_of obytes p (state t)) m \<Longrightarrow>
    \<exists>c last d' p' t'. step_loop lib H n count pc (d, p, t) = Some (count + int c, last, d', p', t') \<and>
      c \<le> n \<and> (0 < n \<longrightarrow> 0 < c) \<and> (c < n \<longrightarrow> halted (t_env t')) \<and> dbg C {} t' \<and> control_same t t' \<and>
      (halt_reason (t_env t') = Halt_kSoftwareBreakpoint \<longrightarrow>
         0 < c \<and> halted (t_env t') \<and> (\<exists>a \<in> C. last = Some a \<and> p' = a + 4)) \<and>
      (user_step C ^^ taken c t') (rv_of obytes p (state t))
        (rv_of obytes (if halt_reason (t_env t') = Halt_kSoftwareBreakpoint then the last else p') (state t'))"
proof (induction n arbitrary: count pc d p t)
  case 0
  then show ?case by (intro exI [of _ 0] exI [of _ pc] exI [of _ d] exI [of _ p] exI [of _ t]) (simp add: taken_def)
next
  case (Suc n)
  let ?m0 = "rv_of obytes p (state t)"
  from Suc.prems(4) obtain m1 where m1: "user_step C ?m0 m1" "(user_step C ^^ n) m1 m"
    by (metis relpowp_Suc_D2)
  have p: "p \<in> C" using m1(1) by (auto elim: user_stepE)
  show ?case
  proof (cases "h_HasBreakpoint H (ucast p) (ext (t_env t))")
    case True
    obtain t' where t': "loop_body lib H (d, p, t) = Some (d, p + 4, t')" "dbg C {} t'"
      "rv_of obytes p (state t') = ?m0" "halted (t_env t')" "halt_reason (t_env t') = Halt_kSoftwareBreakpoint"
      "control_same t t'"
      using turn_breakpoint [OF Suc.prems(1) p True Suc.prems(2), of p] by metis
    then show ?thesis
      using p by (intro exI [of _ 1] exI [of _ "Some p"] exI [of _ d] exI [of _ "p + 4"] exI [of _ t'])
        (simp add: taken_def)
  next
    case nb: False
    obtain d1 p1 t1 where b: "loop_body lib H (d, p, t) = Some (d1, p1, t1)" "dbg C {} t1"
      "d1 = db_id (pc_data_buffer t1)" "rv_of obytes p1 (state t1) = m1"
      "halt_reason (t_env t1) = Halt_kSoftwareBreakpoint \<longrightarrow> halt_reason (t_env t) = Halt_kSoftwareBreakpoint"
      "control_same t t1"
      using turn_original [OF al Suc.prems(1) nb m1(1) Suc.prems(2)] by metis
    have nr: "halt_reason (t_env t1) \<noteq> Halt_kSoftwareBreakpoint" using b(5) Suc.prems(3) by blast
    show ?thesis
    proof (cases "halted (t_env t1)")
      case True
      have "(user_step C ^^ 1) ?m0 m1" using m1(1) by (simp only: relpowp_1)
      then show ?thesis
        using b True nr
        by (intro exI [of _ 1] exI [of _ "Some p"] exI [of _ d1] exI [of _ p1] exI [of _ t1])
           (simp add: taken_def del: relpowp.simps One_nat_def)
    next
      case False
      have rest: "(user_step C ^^ n) (rv_of obytes p1 (state t1)) m" using m1(2) b(4) by simp
      obtain c last d' p' t' where r:
        "step_loop lib H n (count + 1) (Some p) (d1, p1, t1) = Some (count + 1 + int c, last, d', p', t')"
        "c \<le> n" "0 < n \<longrightarrow> 0 < c" "c < n \<longrightarrow> halted (t_env t')" "dbg C {} t'" "control_same t1 t'"
        "halt_reason (t_env t') = Halt_kSoftwareBreakpoint \<longrightarrow>
           0 < c \<and> halted (t_env t') \<and> (\<exists>a \<in> C. last = Some a \<and> p' = a + 4)"
        "(user_step C ^^ taken c t') m1
           (rv_of obytes (if halt_reason (t_env t') = Halt_kSoftwareBreakpoint then the last else p') (state t'))"
        using Suc.IH [OF b(2,3) nr rest, where count = "count + 1" and pc = "Some p"] b(4) by blast
      have "taken (Suc c) t' = Suc (taken c t')" using r(7) by (auto simp: taken_def)
      then have "(user_step C ^^ taken (Suc c) t') ?m0
          (rv_of obytes (if halt_reason (t_env t') = Halt_kSoftwareBreakpoint then the last else p') (state t'))"
        using relpowp_Suc_I2 [of "user_step C", OF m1(1) r(8)] by (simp only:)
      then show ?thesis
        using b(1) False r(1-7) control_same_trans [OF b(6) r(6)]
        by (intro exI [of _ "Suc c"] exI [of _ last] exI [of _ d'] exI [of _ p'] exI [of _ t'])
           (simp add: algebra_simps)
    qed
  qed
qed


section \<open>Stepping over a breakpoint\<close>

lemma patched_word:
  assumes "code_aligned C" and "patches H xbytes (ucast a) x x'" and "a \<in> C" and "b \<in> C" and "b \<noteq> a"
  shows "word_at (xbytes x') (ucast b) = word_at (xbytes x) (ucast b)"
proof (rule word_at_cong)
  fix k :: nat assume "k < 4"
  then have "\<not> unat (ucast b + of_nat k - (ucast a :: u64)) < 4"
    using same_word [OF assms(1,4,3)] assms(5) by blast
  then show "xbytes x' (ucast b + of_nat k) = xbytes x (ucast b + of_nat k)"
    using assms(2) by (simp add: patches_def)
qed

lemma patched_dbg:
  assumes al: "code_aligned C" and ok: "dbg C D t" and m: "machine_ok H (set_ext x' t)"
    and p: "patches H xbytes (ucast a) (ext (t_env t)) x'" and C: "a \<in> C" and D: "D \<subseteq> insert a D'"
    and h: "\<And>b. h_HasBreakpoint H b x' \<Longrightarrow> b = ucast a \<or> h_HasBreakpoint H b (ext (t_env t))"
    and w: "a \<notin> D' \<Longrightarrow> h_HasBreakpoint H (ucast a) x' \<Longrightarrow> word_at (xbytes x') (ucast a) = ebreak_word"
  shows "dbg C D' (set_ext x' t)"
proof -
  let ?x = "ext (t_env t)"
  have arm: "armed H xbytes C D ?x" and fresh: "cache_fresh H xbytes (lib_default_size lib) C t"
    using ok by (simp_all add: debug_core_def)
  note pw = patched_word [OF al p C]
  have "armed H xbytes C D' x'"
    unfolding armed_def
  proof (intro allI impI)
    fix b assume b: "h_HasBreakpoint H b x'"
    show "\<exists>c \<in> C. b = ucast c \<and> (c \<notin> D' \<longrightarrow> word_at (xbytes x') b = ebreak_word)"
    proof (cases "b = ucast a")
      case True
      then show ?thesis using C w b by auto
    next
      case False
      then have "h_HasBreakpoint H b ?x" using h b by blast
      then obtain c where c: "c \<in> C" "b = ucast c" "c \<notin> D \<longrightarrow> word_at (xbytes ?x) b = ebreak_word"
        using arm by (auto simp: armed_def)
      have "c \<noteq> a" using False c(2) by blast
      then show ?thesis using c pw [OF c(1)] D by auto
    qed
  qed
  moreover have "cache_fresh H xbytes (lib_default_size lib) C (set_ext x' t)"
    unfolding cache_fresh_def
  proof (intro ballI allI impI)
    fix b inst assume b: "b \<in> C" and hit: "h_cached H (ucast b) (ext (t_env (set_ext x' t))) = Some inst"
    then have "b \<noteq> a" "h_cached H (ucast b) ?x = Some inst"
      using p by (auto simp: patches_def ucast_inj split: if_splits)
    moreover have "decoded L q w op (state (set_ext x' t)) = decoded L q w op (state t)" for L q w op
      by (rule decoded_frame) (simp add: set_ext_def map_env_def same_frame_def)
    ultimately show "let w = word_at (xbytes (ext (t_env (set_ext x' t)))) (ucast b)
        in inst = decoded (lib_default_size lib) (ucast b) w (DecodeRiscVInst32 w) (state (set_ext x' t))"
      using fresh b pw [OF b] by (simp add: cache_fresh_def Let_def)
  qed
  ultimately show ?thesis using m by (simp add: debug_core_def)
qed

text \<open>What is left of the call after the breakpoint has been lifted, if it was still set.\<close>

lemma over_finish:
  assumes ok: "dbg C D t" and ok': "dbg C {} t'" and e: "state t2 = s'" "same_frame (state t) s'"
    "control_same t t2" "control_same t2 t'" "state t' = s'\<lparr>env := e\<rparr>" "orig (ext e) = orig (ext (env s'))"
    "rv_of obytes (next_pc a 4 (state t) s') s' = m'"
    "db_id (pc_db (state t)) = db_id (pc_db s') \<longrightarrow> pc_db s' = pc_db (state t)"
    and pc: "db_get32 (pc_data_buffer t) = a + 4"
  shows "rv_of obytes (db_get32 (pc_data_buffer t')) (state t') = m'"
proof -
  have tp: "top_pc t' = pc_reg s'" "top_pc t = pc_reg (state t)"
    using ok e(2,3,4) by (simp_all add: debug_core_def machine_ok_def control_same_def same_frame_def)
  have "pc_data_buffer t' = pc_db s'" "pc_data_buffer t = pc_db (state t)"
    using tp e(5) by (simp_all add: pc_data_buffer_def)
  then have "db_get32 (pc_data_buffer t') = next_pc a 4 (state t) s'"
    using e(8) pc by (cases "db_id (pc_db (state t)) = db_id (pc_db s')") (simp_all add: next_pc_def)
  moreover have "rv_of obytes q (state t') = rv_of obytes q s'" for q
    by (rule rv_of_cong) (simp_all add: e(5,6) same_frame_def)
  ultimately show ?thesis using e(7) by simp
qed

lemma lift_breakpoint:
  assumes al: "code_aligned C" and ok: "dbg C {} t" and C: "a \<in> C"
    and dis: "h_DisableBreakpoint H (ucast a) (ext (t_env t)) = (st, x)"
  shows "word_at (xbytes x) (ucast a) = word_at (orig (ext (t_env t))) (ucast a)"
    "orig x = orig (ext (t_env t))" "dbg C {a} (set_ext x t)" "status_ok st = h_HasBreakpoint H (ucast a) x"
proof -
  let ?x = "ext (t_env t)"
  have m: "machine_ok H t" and arm: "armed H xbytes C {} ?x" using ok by (simp_all add: debug_core_def)
  have m1: "machine_ok H (set_ext x t)"
    using machine_ok_set_ext [OF m] bp_ops_made(1) [OF machine_ok_cache [OF m], of "ucast a"] dis by simp
  have "word_at (xbytes x) (ucast a) = word_at (orig ?x) (ucast a) \<and> orig x = orig ?x \<and>
      dbg C {a} (set_ext x t) \<and> status_ok st = h_HasBreakpoint H (ucast a) x"
  proof (cases "h_HasBreakpoint H (ucast a) ?x")
    case True
    then show ?thesis
      using disable_bp [OF True] disable_frame [OF True dis] dis patched_dbg [OF al ok m1, of a "{a}"] C by auto
  next
    case False
    have "armed H xbytes C {a} ?x" using arm by (auto simp: armed_def)
    then show ?thesis
      using disable_refused [OF False dis] original_word [OF al arm C False] ok m1 False
      by (simp add: debug_core_def cache_fresh_def set_ext_def map_env_def)
  qed
  then show "word_at (xbytes x) (ucast a) = word_at (orig ?x) (ucast a)" "orig x = orig ?x"
    "dbg C {a} (set_ext x t)" "status_ok st = h_HasBreakpoint H (ucast a) x"
    by blast+
qed

lemma restore_breakpoint:
  assumes al: "code_aligned C" and ok: "dbg C {a} t" and C: "a \<in> C"
    and has: "h_HasBreakpoint H (ucast a) (ext (t_env t))"
    and en: "h_EnableBreakpoint H (ucast a) (ext (t_env t)) = (st, x)"
  shows "st = OkStatus" "orig x = orig (ext (t_env t))" "dbg C {} (set_ext x t)"
proof -
  have m: "machine_ok H t" using ok by (simp add: debug_core_def)
  have "machine_ok H (set_ext x t)"
    using machine_ok_set_ext [OF m] bp_ops_made(2) [OF machine_ok_cache [OF m], of "ucast a"] en by simp
  then show "st = OkStatus" "orig x = orig (ext (t_env t))" "dbg C {} (set_ext x t)"
    using enable_bp [OF has] en patched_dbg [OF al ok, of x a "{}"] enable_frame [OF has en] C by simp_all
qed

lemma nothing_lifted:
  assumes "dbg C {a} t" and "\<not> h_HasBreakpoint H (ucast a) (ext (t_env t))"
  shows "dbg C {} t"
  using assms by (auto simp: debug_core_def armed_def)

lemma over_transparent:
  assumes al: "code_aligned C" and ok: "dbg C {} t" and pp: "previous_pc t = Some a"
    and pc: "db_get32 (pc_data_buffer t) = a + 4" and step: "user_step C (rv_of obytes a (state t)) m'"
  obtains t' where "step_over_breakpoint lib H t = Some (Inr (), t')" "dbg C {} t'" "control_same t t'"
    "halt_reason (t_env t') = Halt_kNone" "rv_of obytes (db_get32 (pc_data_buffer t')) (state t') = m'"
proof -
  obtain st x1 where dis: "h_DisableBreakpoint H (ucast a) (ext (t_env t)) = (st, x1)" by fastforce
  let ?t1 = "set_ext x1 t"
  from step obtain i where i: "a \<in> C" "word_at (orig (ext (t_env t))) (ucast a) = encode i"
    "jalr_even i (rv_of obytes a (state t))" "writes_to i (rv_of obytes a (state t)) \<inter> code_bytes C = {}"
    "reads_from i (rv_of obytes a (state t)) \<inter> code_bytes C = {}"
    "m' = rv_exec i (rv_of obytes a (state t))"
    by (auto elim!: user_stepE simp: rv_word_at)
  note l = lift_breakpoint [OF al ok i(1) dis]
  have w: "word_at (xbytes (ext (t_env ?t1))) (ucast a) = encode i" using l(1) i(2) by simp
  have rv1: "rv_of obytes a (state ?t1) = rv_of obytes a (state t)"
    by (rule rv_of_cong) (simp_all add: l(2) set_ext_def map_env_def same_frame_def)
  obtain inst t2 s' t3 where e: "GetDecodedInstruction lib H (ucast a) ?t1 = (inst, t2)"
    "Execute lib (mem_of H) inst (state t2) = Some s'" "t3 = count_instruction inst (t2\<lparr>state := s'\<rparr>)"
    "rv_of obytes (next_pc a 4 (state ?t1) s') s' = rv_exec i (rv_of obytes a (state ?t1))"
    "dbg C {a} t3" "same_frame (state ?t1) s'"
    "control_same ?t1 t3" "db_id (pc_db (state ?t1)) = db_id (pc_db s') \<longrightarrow> pc_db s' = pc_db (state ?t1)"
    "\<And>b. h_HasBreakpoint H b (ext (t_env t3)) = h_HasBreakpoint H b (ext (t_env ?t1))"
    by (rule execute_original [OF l(3) i(1) w i(3-5) [folded rv1]]) blast
  have m': "rv_of obytes (next_pc a 4 (state ?t1) s') s' = m'" unfolding e(4) rv1 i(6) ..
  have st3: "state t3 = s'" by (simp add: e(3))
  have pc1: "db_get32 (pc_data_buffer ?t1) = a + 4"
    using pc by (simp add: pc_data_buffer_def set_ext_def map_env_def)
  obtain st' x4 where en: "h_EnableBreakpoint H (ucast a) (ext (t_env t3)) = (st', x4)" by fastforce
  have sok: "status_ok st = h_HasBreakpoint H (ucast a) (ext (t_env t3))" using l(4) e(9) by simp
  define u where "u = (if status_ok st then set_ext x4 t3 else t3)"
  have u: "dbg C {} u \<and> orig (ext (t_env u)) = orig (ext (env s')) \<and> (status_ok st \<longrightarrow> st' = OkStatus)"
    using restore_breakpoint [OF al e(5) i(1) _ en] nothing_lifted [OF e(5)] sok st3 by (auto simp: u_def)
  let ?u = "set_halt_reason Halt_kNone u"
  have so: "step_over_breakpoint lib H t = Some (Inr (), ?u)"
    using step_over_breakpoint_eq [OF pp dis e(1,2,3) en] u by (auto simp: u_def)
  have su: "state ?u = s'\<lparr>env := (t_env u)\<lparr>halt_reason := Halt_kNone\<rparr>\<rparr>" "control_same t3 ?u"
    using st3 by (auto simp: u_def set_ext_def set_halt_reason_def map_env_def control_same_def)
  have "machine_ok H ?u" using u by (simp add: debug_core_def)
  then have d: "dbg C {} ?u" by (rule debug_core_cong [OF conjunct1 [OF u]]) (simp_all add: same_frame_def)
  have cs: "control_same t ?u"
    using control_same_trans [OF control_same_trans [OF _ e(7)] su(2), of t] by simp
  have "rv_of obytes (db_get32 (pc_data_buffer ?u)) (state ?u) = m'"
    using over_finish [OF l(3) d st3 e(6,7) su(2,1) _ m' e(8) pc1] u by simp
  then show ?thesis using that [OF so d cs] by simp
qed

end

end
