(* ===== verification/Debugging.thy ===== *)
theory Debugging
  imports Transparency Run_Thread Debug_Interface
begin

text \<open>
  Breakpoints do not show. In a session of \<open>Step\<close>, \<open>Run\<close> and calls that set and clear breakpoints,
  the registers, the pc the debugger reports and the memory without the \<^verbatim>\<open>ebreak\<close> words follow the
  manual's run of the program; stopping at a breakpoint is a turn the manual does not see.
\<close>

section \<open>Step\<close>

text \<open>What the debugger sees of a halted simulator: the pc register reads as the address of the
  breakpoint after a stop, the memory is the program's.\<close>

definition shown_pc :: "'x top \<Rightarrow> u32" where
  "shown_pc t =
     (if halt_reason (t_env t) = Halt_kSoftwareBreakpoint then the (previous_pc t)
      else db_get32 (pc_data_buffer t))"

definition debug_abs :: "('x \<Rightarrow> u64 \<Rightarrow> u8) \<Rightarrow> 'x top \<Rightarrow> rv32" where
  "debug_abs orig t = rv_of (\<lambda>e. orig (ext e)) (shown_pc t) (state t)"

definition debugging :: "'x host \<Rightarrow> ('x \<Rightarrow> u64 \<Rightarrow> u8) \<Rightarrow> nat \<Rightarrow> u32 set \<Rightarrow> 'x top \<Rightarrow> bool" where
  "debugging H xbytes L C t \<longleftrightarrow>
     debug_core H xbytes L C {} t \<and> run_status t = Run_kHalted \<and>
     (halt_reason (t_env t) = Halt_kSoftwareBreakpoint \<longrightarrow>
        (\<exists>a \<in> C. previous_pc t = Some a \<and> db_get32 (pc_data_buffer t) = a + 4))"

lemma xval_set_pc:
  assumes "xregs_ok (state t)" and "top_pc t = pc_reg (state t)" and "r < 32"
  shows "xval (state (set_pc_value v t)) r = xval (state t) r"
  using xregs_okD(4) [OF assms(1,3)] by (simp add: set_pc_value_def xval_def assms(2) pc_data_buffer_def)

lemma rv_of_set_pc:
  assumes "machine_ok H t"
  shows "rv_of bytes p (state (set_pc_value v t)) = rv_of bytes p (state t)"
  using xval_set_pc [of t] assms unat_regnum_less
  by (simp add: rv_of_def machine_ok_def regs_good_def fun_eq_iff del: set_pc_value_simps)
     (simp add: set_pc_value_def)

lemma debugging_reads_pc:
  assumes "debugging H xbytes L C t" and "halt_reason (t_env t) = Halt_kSoftwareBreakpoint"
  shows "ReadRegister ''pc'' t = Some (Inr (ucast (rv_pc (debug_abs orig t))))"
proof -
  have "registers (state t) ''pc'' \<noteq> None"
    using assms(1) xregs_okD(2) [of "state t"]
    by (simp add: debugging_def debug_core_def machine_ok_def regs_good_def kPcName_def)
  then show ?thesis
    using assms by (auto simp: debugging_def ReadRegister_def debug_abs_def shown_pc_def)
qed

context transparent_debugger
begin

lemma step_rest_transparent:
  assumes al: "code_aligned C" and ok: "dbg C {} t" and n: "n = nat (num - count)" "count \<le> num"
    and nr: "halt_reason (t_env t) \<noteq> Halt_kSoftwareBreakpoint"
    and run: "(user_step C ^^ n) (rv_of obytes (db_get32 (pc_data_buffer t)) (state t)) m"
  shows "\<exists>c t'. step_rest lib H num count t = Some (Inr (count + int c), t') \<and>
    c \<le> n \<and> (0 < n \<longrightarrow> 0 < c) \<and> (c < n \<longrightarrow> halted (t_env t')) \<and> debugging H xbytes (lib_default_size lib) C t' \<and>
    (halt_reason (t_env t') = Halt_kSoftwareBreakpoint \<longrightarrow> 0 < c) \<and>
    (user_step C ^^ taken c t') (rv_of obytes (db_get32 (pc_data_buffer t)) (state t)) (debug_abs orig t')"
proof -
  let ?db = "pc_data_buffer t"
  obtain c last d' p' t1 where l:
    "step_loop lib H n count None (db_id ?db, db_get32 ?db, t) = Some (count + int c, last, d', p', t1)"
    "c \<le> n" "0 < n \<longrightarrow> 0 < c" "c < n \<longrightarrow> halted (t_env t1)" "dbg C {} t1" "control_same t t1"
    "halt_reason (t_env t1) = Halt_kSoftwareBreakpoint \<longrightarrow>
         0 < c \<and> halted (t_env t1) \<and> (\<exists>a \<in> C. last = Some a \<and> p' = a + 4)"
    "(user_step C ^^ taken c t1) (rv_of obytes (db_get32 ?db) (state t))
        (rv_of obytes (if halt_reason (t_env t1) = Halt_kSoftwareBreakpoint then the last else p') (state t1))"
    using step_loop_transparent [OF al ok refl nr run, of count None] by blast
  let ?t2 = "set_pc_value p' (t1\<lparr>previous_pc := last\<rparr>)"
  define t' where "t' = (if \<not> halted (t_env ?t2) then set_halt_reason Halt_kNone ?t2 else ?t2)\<lparr>run_status := Run_kHalted\<rparr>"
  have m1: "machine_ok H (t1\<lparr>previous_pc := last\<rparr>)" using l(5) by (simp add: debug_core_def)
  have env': "ext (t_env t') = ext (t_env t1)" "halted (t_env t') = halted (t_env t1)"
    "halt_reason (t_env t') = (if halted (t_env t1) then halt_reason (t_env t1) else Halt_kNone)"
    by (simp_all add: t'_def)
  have m': "machine_ok H t'" using m1 by (simp add: t'_def)
  have d': "dbg C {} t'"
    by (rule debug_core_cong [OF l(5) m' _ env'(1)]) (simp add: t'_def same_frame_def)
  have pc': "db_get32 (pc_data_buffer t') = p'" "previous_pc t' = last" "run_status t' = Run_kHalted"
    by (simp_all add: t'_def pc_data_buffer_def) (simp add: set_halt_reason_def map_env_def)
  have hr: "(halt_reason (t_env t') = Halt_kSoftwareBreakpoint) = (halt_reason (t_env t1) = Halt_kSoftwareBreakpoint)"
    using l(7) by (auto simp: env')
  have "rv_of obytes q (state t') = rv_of obytes q (state ?t2)" for q
    by (rule rv_of_cong) (simp_all add: t'_def same_frame_def)
  then have rv: "rv_of obytes q (state t') = rv_of obytes q (state t1)" for q
    using rv_of_set_pc [OF m1, of obytes q p'] by simp
  have "debug_abs orig t' =
      rv_of obytes (if halt_reason (t_env t1) = Halt_kSoftwareBreakpoint then the last else p') (state t1)"
    by (simp add: debug_abs_def shown_pc_def hr pc' rv)
  moreover have "taken c t' = taken c t1" by (simp add: taken_def hr)
  moreover have "debugging H xbytes (lib_default_size lib) C t'"
    using d' l(7) pc' hr by (auto simp: debugging_def)
  moreover have "step_rest lib H num count t = Some (Inr (count + int c), t')"
    using l(1) n by (simp add: step_rest_def t'_def Let_def)
  ultimately show ?thesis
    using l(2-4,7,8) hr env'(2) by (intro exI [of _ c] exI [of _ t']) auto
qed

theorem Step_transparent:
  assumes al: "code_aligned C" and ok: "debugging H xbytes (lib_default_size lib) C t" and n: "0 < n"
    and run: "(user_step C ^^ n) (debug_abs orig t) m"
  shows "\<exists>c t'. Step lib H (int n) t = Some (Inr (int c), t') \<and> 0 < c \<and> c \<le> n \<and> (c < n \<longrightarrow> halted (t_env t')) \<and>
    debugging H xbytes (lib_default_size lib) C t' \<and>
    (user_step C ^^ taken c t') (debug_abs orig t) (debug_abs orig t')"
proof -
  let ?t0 = "set_halted False (t\<lparr>run_status := Run_kSingleStep\<rparr>)"
  have d: "dbg C {} t" and rs: "run_status t = Run_kHalted" using ok by (simp_all add: debugging_def)
  then have "machine_ok H ?t0" by (simp add: debug_core_def)
  then have d0: "dbg C {} ?t0" by (rule debug_core_cong [OF d]) (simp_all add: same_frame_def)
  have pd0: "pc_data_buffer ?t0 = pc_data_buffer t" by (simp add: pc_data_buffer_def)
  have rv0: "rv_of obytes q (state ?t0) = rv_of obytes q (state t)" for q
    by (rule rv_of_cong) (simp_all add: same_frame_def)
  show ?thesis
  proof (cases "halt_reason (t_env t) = Halt_kSoftwareBreakpoint")
    case False
    have S: "Step lib H (int n) t = step_rest lib H (int n) 0 ?t0"
      using n rs False by (simp add: Step_def Let_def)
    have "debug_abs orig t = rv_of obytes (db_get32 (pc_data_buffer ?t0)) (state ?t0)"
      unfolding debug_abs_def shown_pc_def pd0 rv0 by (simp add: False)
    then show ?thesis
      using step_rest_transparent [OF al d0, of n "int n" 0 m] run n False unfolding S by auto
  next
    case True
    then obtain a where a: "a \<in> C" "previous_pc t = Some a" "db_get32 (pc_data_buffer t) = a + 4"
      using ok by (auto simp: debugging_def)
    have abs: "debug_abs orig t = rv_of obytes a (state ?t0)"
      unfolding debug_abs_def shown_pc_def rv0 by (simp add: True a(2))
    obtain k where k: "n = Suc k" using n by (cases n) auto
    obtain m1 where m1: "user_step C (rv_of obytes a (state ?t0)) m1" "(user_step C ^^ k) m1 m"
      using run unfolding abs k by (metis relpowp_Suc_D2)
    have pp: "previous_pc ?t0 = Some a" using a(2) by (simp add: set_halted_def map_env_def)
    obtain t1 where t1: "step_over_breakpoint lib H ?t0 = Some (Inr (), t1)" "dbg C {} t1" "control_same ?t0 t1"
      "halt_reason (t_env t1) = Halt_kNone" "rv_of obytes (db_get32 (pc_data_buffer t1)) (state t1) = m1"
      using over_transparent [OF al d0 pp _ m1(1)] a(3) pd0 by metis
    have S: "Step lib H (int n) t = step_rest lib H (int n) 1 t1"
      using n rs True t1(1) by (simp add: Step_def Let_def)
    obtain c t' where r: "step_rest lib H (int n) 1 t1 = Some (Inr (1 + int c), t')" "c \<le> k"
      "c < k \<longrightarrow> halted (t_env t')" "debugging H xbytes (lib_default_size lib) C t'"
      "halt_reason (t_env t') = Halt_kSoftwareBreakpoint \<longrightarrow> 0 < c"
      "(user_step C ^^ taken c t') m1 (debug_abs orig t')"
      using step_rest_transparent [OF al t1(2), of k "int n" 1 m] m1(2) t1(4,5) k by auto
    have "taken (Suc c) t' = Suc (taken c t')" using r(5) by (auto simp: taken_def)
    then have "(user_step C ^^ taken (Suc c) t') (debug_abs orig t) (debug_abs orig t')"
      using relpowp_Suc_I2 [of "user_step C", OF m1(1) r(6)] by (simp only: abs)
    then show ?thesis
      using S r k by (intro exI [of _ "Suc c"] exI [of _ t']) simp
  qed
qed


lemma debugging_same:
  assumes ok: "debugging H xbytes (lib_default_size lib) C t" and "state t' = state t" "top_pc t' = top_pc t"
    "rv32_decoder t' = rv32_decoder t" "run_status t' = run_status t" "previous_pc t' = previous_pc t"
  shows "debugging H xbytes (lib_default_size lib) C t'" "debug_abs orig t' = debug_abs orig t"
proof -
  have d: "dbg C {} t" using ok by (simp add: debugging_def)
  have "machine_ok H t'" using d assms(2-4) by (simp add: debug_core_def machine_ok_def)
  then have "dbg C {} t'" by (rule debug_core_cong [OF d]) (simp_all add: assms(2))
  moreover have "pc_data_buffer t' = pc_data_buffer t" using assms(2,3) by (simp add: pc_data_buffer_def)
  ultimately show "debugging H xbytes (lib_default_size lib) C t'" "debug_abs orig t' = debug_abs orig t"
    using ok assms(2,5,6) by (simp_all add: debugging_def debug_abs_def shown_pc_def)
qed

text \<open>\<open>Run\<close> and its thread.\<close>

theorem Run_transparent:
  assumes al: "code_aligned C" and ok: "debugging H xbytes (lib_default_size lib) C t"
    and r: "Run lib H t = Some (st, t1)" "run_thread lib H fuel t1 = Some t2"
    and run: "(user_step C ^^ fuel) (debug_abs orig t) m"
  shows "\<exists>c. 0 < c \<and> c \<le> fuel \<and> debugging H xbytes (lib_default_size lib) C t2 \<and>
    (user_step C ^^ taken c t2) (debug_abs orig t) (debug_abs orig t2)"
proof -
  have d: "dbg C {} t" and rs: "run_status t = Run_kHalted" using ok by (simp_all add: debugging_def)
  have thread: "\<exists>c. 0 < c \<and> c < fuel \<and> debugging H xbytes (lib_default_size lib) C t2 \<and>
      (user_step C ^^ taken c t2) m1 (debug_abs orig t2)"
    if u: "dbg C {} u" "halt_reason (t_env u) \<noteq> Halt_kSoftwareBreakpoint"
      "t1 = set_halted False (u\<lparr>run_status := Run_kRunning, run_halted := Some False\<rparr>)"
      "m1 = rv_of obytes (db_get32 (pc_data_buffer u)) (state u)" "(user_step C ^^ k) m1 m" "fuel \<le> Suc k" for u m1 k
  proof -
    let ?u0 = "set_halted False (u\<lparr>run_status := Run_kSingleStep\<rparr>)"
    obtain j t' where j: "0 < j" "j < fuel" "step_rest lib H (int j) 0 ?u0 = Some (Inr (int j), t')"
      "t2 = t'\<lparr>run_halted := Some True\<rparr>"
      using run_thread_step_rest [OF u(3) r(2)] by blast
    have "machine_ok H ?u0" using u(1) by (simp add: debug_core_def)
    then have d0: "dbg C {} ?u0" by (rule debug_core_cong [OF u(1)]) (simp_all add: same_frame_def)
    have m1: "rv_of obytes (db_get32 (pc_data_buffer ?u0)) (state ?u0) = m1"
      unfolding u(4) by (rule rv_of_cong [THEN trans]) (simp_all add: same_frame_def pc_data_buffer_def)
    obtain m2 where m2: "(user_step C ^^ j) m1 m2"
      using relpowp_prefix [OF u(5), of j] j(2) u(6) by auto
    from step_rest_transparent [OF al d0, of j "int j" 0 m2] u(2) j(1,3) m1 m2 obtain c where
      "c = j" "debugging H xbytes (lib_default_size lib) C t'"
      "(user_step C ^^ taken c t') m1 (debug_abs orig t')"
      by auto
    moreover have "taken j t2 = taken j t'" by (simp add: taken_def j(4))
    ultimately show ?thesis
      using j(1,2) debugging_same [of C t' t2] j(4) by (intro exI [of _ j]) simp
  qed
  show ?thesis
  proof (cases "halt_reason (t_env t) = Halt_kSoftwareBreakpoint")
    case False
    then have "t1 = set_halted False (t\<lparr>run_status := Run_kRunning, run_halted := Some False\<rparr>)"
      using r(1) rs by (auto simp: Run_def set_halted_def map_env_def)
    moreover have "debug_abs orig t = rv_of obytes (db_get32 (pc_data_buffer t)) (state t)"
      using False by (simp add: debug_abs_def shown_pc_def)
    ultimately show ?thesis using thread [OF d False, of _ fuel] run by fastforce
  next
    case True
    then obtain a where a: "a \<in> C" "previous_pc t = Some a" "db_get32 (pc_data_buffer t) = a + 4"
      using ok by (auto simp: debugging_def)
    have abs: "debug_abs orig t = rv_of obytes a (state t)"
      using True a(2) by (simp add: debug_abs_def shown_pc_def)
    obtain k where k: "fuel = Suc k"
      using r(2) by (cases fuel) (auto simp: run_thread_def Let_def)
    obtain m1 where m1: "user_step C (rv_of obytes a (state t)) m1" "(user_step C ^^ k) m1 m"
      using run unfolding abs k by (metis relpowp_Suc_D2)
    obtain u where u: "step_over_breakpoint lib H t = Some (Inr (), u)" "dbg C {} u"
      "halt_reason (t_env u) = Halt_kNone" "rv_of obytes (db_get32 (pc_data_buffer u)) (state u) = m1"
      using over_transparent [OF al d a(2,3) m1(1)] by metis
    have "t1 = set_halted False (u\<lparr>run_status := Run_kRunning, run_halted := Some False\<rparr>)"
      using r(1) rs True u(1) by (auto simp: Run_def set_halted_def map_env_def)
    from thread [OF u(2) _ this u(4) [symmetric] m1(2)] u(3) k obtain c where
      c: "0 < c" "c < fuel" "debugging H xbytes (lib_default_size lib) C t2"
      "(user_step C ^^ taken c t2) m1 (debug_abs orig t2)"
      by auto
    have "taken (Suc c) t2 = Suc (taken c t2)" using c(1) by (auto simp: taken_def)
    then have "(user_step C ^^ taken (Suc c) t2) (debug_abs orig t) (debug_abs orig t2)"
      using relpowp_Suc_I2 [of "user_step C", OF m1(1) c(4)] by (simp only: abs)
    then show ?thesis using c by (intro exI [of _ "Suc c"]) simp
  qed
qed

section \<open>Setting and clearing breakpoints\<close>

lemma set_ext_debugging:
  assumes "debugging H xbytes (lib_default_size lib) C t" and "dbg C {} (set_ext x t)"
    and "orig x = orig (ext (t_env t))"
  shows "debugging H xbytes (lib_default_size lib) C (set_ext x t) \<and> debug_abs orig (set_ext x t) = debug_abs orig t"
proof -
  have "rv_of obytes p (state (set_ext x t)) = rv_of obytes p (state t)" for p
    by (rule rv_of_cong) (simp_all add: assms(3) set_ext_def map_env_def same_frame_def)
  moreover have "pc_data_buffer (set_ext x t) = pc_data_buffer t" "run_status (set_ext x t) = run_status t"
    "previous_pc (set_ext x t) = previous_pc t"
    by (simp_all add: pc_data_buffer_def set_ext_def map_env_def)
  ultimately show ?thesis
    using assms(1,2) by (simp add: debugging_def debug_abs_def shown_pc_def)
qed

lemma set_ext_same [simp]: "set_ext (ext (t_env t)) t = t"
  by (simp add: set_ext_def map_env_def)

lemma set_transparent:
  assumes al: "code_aligned C" and ok: "debugging H xbytes (lib_default_size lib) C t" and C: "a \<in> C"
    and s: "SetSwBreakpoint H (ucast a) t = (st, t')"
  shows "debugging H xbytes (lib_default_size lib) C t' \<and> debug_abs orig t' = debug_abs orig t"
proof -
  let ?x = "ext (t_env t)"
  have d: "dbg C {} t" and rs: "run_status t = Run_kHalted" and m: "machine_ok H t"
    using ok by (simp_all add: debugging_def debug_core_def)
  obtain x where x: "h_SetBreakpoint H (ucast a) ?x = (st, x)" "t' = set_ext x t"
    using s rs by (auto simp: SetSwBreakpoint_def split: prod.splits)
  show ?thesis
  proof (cases "st = OkStatus")
    case True
    note x1 = x(1) [unfolded True]
    have "machine_ok H (set_ext x t)"
      using machine_ok_set_ext [OF m] bp_ops_made(3) [OF machine_ok_cache [OF m], of "ucast a"] x(1) by simp
    then have "dbg C {} (set_ext x t)"
      using patched_dbg [OF al d, of x a "{}"] set_frame [OF x1] set_bp [OF x1] C by simp
    then show ?thesis using set_ext_debugging [OF ok] set_bp [OF x1] x(2) by simp
  next
    case False
    then show ?thesis using set_refused [OF x(1)] x(2) ok by simp
  qed
qed

lemma clear_transparent:
  assumes al: "code_aligned C" and ok: "debugging H xbytes (lib_default_size lib) C t" and C: "a \<in> C"
    and s: "ClearSwBreakpoint H (ucast a) t = (st, t')"
  shows "debugging H xbytes (lib_default_size lib) C t' \<and> debug_abs orig t' = debug_abs orig t"
proof -
  let ?x = "ext (t_env t)"
  have d: "dbg C {} t" and rs: "run_status t = Run_kHalted" and m: "machine_ok H t"
    using ok by (simp_all add: debugging_def debug_core_def)
  obtain x where x: "h_ClearBreakpoint H (ucast a) ?x = (st, x)" "t' = set_ext x t"
    using s rs by (auto simp: ClearSwBreakpoint_def split: prod.splits)
  show ?thesis
  proof (cases "h_HasBreakpoint H (ucast a) ?x")
    case True
    note f = clear_frame [OF True x(1)]
    have "machine_ok H (set_ext x t)"
      using machine_ok_set_ext [OF m] bp_ops_made(4) [OF machine_ok_cache [OF m], of "ucast a"] x(1) by simp
    then have "dbg C {} (set_ext x t)"
      using patched_dbg [OF al d, of x a "{}"] f C by simp
    then show ?thesis using set_ext_debugging [OF ok] f x(2) by simp
  next
    case False
    then show ?thesis using clear_refused [OF False x(1)] x(2) ok by simp
  qed
qed

lemma clear_all_transparent:
  assumes al: "code_aligned C" and ok: "debugging H xbytes (lib_default_size lib) C t"
    and s: "ClearAllSwBreakpoints H t = (st, t')"
  shows "debugging H xbytes (lib_default_size lib) C t' \<and> debug_abs orig t' = debug_abs orig t"
proof -
  let ?x = "ext (t_env t)" and ?x' = "h_ClearAllBreakpoints H (ext (t_env t))"
  have d: "dbg C {} t" and rs: "run_status t = Run_kHalted" and m: "machine_ok H t"
    using ok by (simp_all add: debugging_def debug_core_def)
  have t': "t' = set_ext ?x' t" using s rs by (simp add: ClearAllSwBreakpoints_def)
  have o: "orig ?x' = orig ?x" "\<not> h_HasBreakpoint H b ?x'"
    "h_cached H b ?x' = Some j \<Longrightarrow> h_cached H b ?x = Some j \<and> \<not> h_HasBreakpoint H b ?x" for b j
    using clear_all [OF refl] by blast+
  have arm: "armed H xbytes C {} ?x" using d by (simp add: debug_core_def)
  have xb: "xbytes ?x' = orig ?x"
    using orig_outside [of ?x'] o(1,2) by (auto simp: under_breakpoint_def fun_eq_iff)
  have "machine_ok H (set_ext ?x' t)"
    using machine_ok_set_ext [OF m] bp_ops_made(5) [OF machine_ok_cache [OF m]] by simp
  moreover have "armed H xbytes C {} ?x'" using o(2) by (simp add: armed_def)
  moreover have "cache_fresh H xbytes (lib_default_size lib) C (set_ext ?x' t)"
    unfolding cache_fresh_def
  proof (intro ballI allI impI)
    fix b inst assume b: "b \<in> C" and hit: "h_cached H (ucast b) (ext (t_env (set_ext ?x' t))) = Some inst"
    then have h: "h_cached H (ucast b) ?x = Some inst" "\<not> h_HasBreakpoint H (ucast b) ?x"
      using o(3) by simp_all
    have "decoded L q w op (state (set_ext ?x' t)) = decoded L q w op (state t)" for L q w op
      by (rule decoded_frame) (simp add: set_ext_def map_env_def same_frame_def)
    then show "let w = word_at (xbytes (ext (t_env (set_ext ?x' t)))) (ucast b)
        in inst = decoded (lib_default_size lib) (ucast b) w (DecodeRiscVInst32 w) (state (set_ext ?x' t))"
      using d b h(1) original_word [OF al arm b h(2), symmetric] by (simp add: debug_core_def cache_fresh_def Let_def xb)
  qed
  ultimately have "dbg C {} (set_ext ?x' t)" by (simp add: debug_core_def)
  then show ?thesis using set_ext_debugging [OF ok] o(1) t' by simp
qed

end

section \<open>Debugging sessions\<close>

text \<open>Any sequence of these calls, as long as the program has steps to take.\<close>

inductive debugged ::
  "'x top_env mpact \<Rightarrow> 'x host \<Rightarrow> ('x \<Rightarrow> u64 \<Rightarrow> u8) \<Rightarrow> u32 set \<Rightarrow> 'x top \<Rightarrow> 'x top \<Rightarrow> bool"
  for lib H orig C t where
  start: "debugged lib H orig C t t"
| set_call: "debugged lib H orig C t t1 \<Longrightarrow> a \<in> C \<Longrightarrow> SetSwBreakpoint H (ucast a) t1 = (st, t2) \<Longrightarrow>
    debugged lib H orig C t t2"
| clear_call: "debugged lib H orig C t t1 \<Longrightarrow> a \<in> C \<Longrightarrow> ClearSwBreakpoint H (ucast a) t1 = (st, t2) \<Longrightarrow>
    debugged lib H orig C t t2"
| clear_all_call: "debugged lib H orig C t t1 \<Longrightarrow> ClearAllSwBreakpoints H t1 = (st, t2) \<Longrightarrow>
    debugged lib H orig C t t2"
| step_call: "debugged lib H orig C t t1 \<Longrightarrow> 0 < n \<Longrightarrow> (user_step C ^^ n) (debug_abs orig t1) m \<Longrightarrow>
    Step lib H (int n) t1 = Some (r, t2) \<Longrightarrow> debugged lib H orig C t t2"
| run_call: "debugged lib H orig C t t1 \<Longrightarrow> (user_step C ^^ fuel) (debug_abs orig t1) m \<Longrightarrow>
    Run lib H t1 = Some (st, t2) \<Longrightarrow> run_thread lib H fuel t2 = Some t3 \<Longrightarrow> debugged lib H orig C t t3"

context transparent_debugger
begin

theorem debugging_transparent:
  assumes "code_aligned C" and "debugging H xbytes (lib_default_size lib) C t" and "debugged lib H orig C t t'"
  shows "debugging H xbytes (lib_default_size lib) C t' \<and> (user_step C)\<^sup>*\<^sup>* (debug_abs orig t) (debug_abs orig t')"
  using assms(3)
proof induction
  case start
  then show ?case using assms(2) by simp
next
  case (set_call t1 a st t2)
  then show ?case using set_transparent [OF assms(1), of t1 a st t2] by simp
next
  case (clear_call t1 a st t2)
  then show ?case using clear_transparent [OF assms(1), of t1 a st t2] by simp
next
  case (clear_all_call t1 st t2)
  then show ?case using clear_all_transparent [OF assms(1), of t1 st t2] by simp
next
  case (step_call t1 n m r t2)
  then obtain c where "debugging H xbytes (lib_default_size lib) C t2"
    "(user_step C ^^ taken c t2) (debug_abs orig t1) (debug_abs orig t2)"
    using Step_transparent [OF assms(1), of t1 n m] by auto
  then show ?case using step_call.IH relpowp_imp_rtranclp rtranclp_trans by metis
next
  case (run_call t1 fuel m st t2 t3)
  then obtain c where "debugging H xbytes (lib_default_size lib) C t3"
    "(user_step C ^^ taken c t3) (debug_abs orig t1) (debug_abs orig t3)"
    using Run_transparent [OF assms(1), of t1 st t2 fuel t3 m] by auto
  then show ?case using run_call.IH relpowp_imp_rtranclp rtranclp_trans by metis
qed

end

end
