(* ===== verification/Reference_Debug.thy ===== *)
theory Reference_Debug
  imports Debugging Reference_Session
begin

text \<open>
  The reference platform's breakpoint manager leaves alone what it must, and a debugging session on
  it: the small program with breakpoints set on the way.
\<close>

section \<open>The laws\<close>

lemma map_of_filter_key: "map_of (filter (\<lambda>p. fst p \<noteq> a) ps) = (map_of ps)(a := None)"
  by (induction ps) (auto simp: fun_eq_iff)

lemma ref_under: "under_breakpoint ref_host x y \<longleftrightarrow> map_of (rw_breaks x) (y AND NOT 3) \<noteq> None"
proof -
  have al: "(y AND NOT 3) AND 3 = 0" by (simp add: and.assoc)
  have "under_breakpoint ref_host x y \<longleftrightarrow> (\<exists>b. ref_has b x \<and> y AND NOT 3 = b)"
    using in_word_iff by (auto simp: under_breakpoint_def ref_host_def ref_has_def)
  then show ?thesis using al by (auto simp: ref_has_def)
qed

lemma patches_patch:
  "rw_mem z = rw_mem (patch a (le_bytes 4 w) x) \<Longrightarrow> rw_cache z = rw_cache (patch a (le_bytes 4 w) x) \<Longrightarrow>
   rw_mem x' = rw_mem x \<Longrightarrow> rw_cache x' = rw_cache x \<Longrightarrow> patches ref_host rw_mem a x' z"
  by (simp add: patches_def ref_host_def write_bytes_def)

lemma ref_clear_found:
  assumes "ref_has a x"
  defines "w \<equiv> the (map_of (rw_breaks x) a)"
  shows "ref_clear a x = (OkStatus, (patch a (le_bytes 4 w) (x\<lparr>rw_active := removeAll a (rw_active x)\<rparr>))
    \<lparr>rw_breaks := filter (\<lambda>p. fst p \<noteq> a) (rw_breaks x)\<rparr>)"
  using assms(1) by (simp add: ref_clear_def ref_disable_def w_def)

lemma ref_clear_refused: "\<not> ref_has a x \<Longrightarrow> snd (ref_clear a x) = x"
  by (simp add: ref_clear_def ref_disable_def)

lemma ref_clear_laws:
  "ref_has b (snd (ref_clear a x)) \<longleftrightarrow> b \<noteq> a \<and> ref_has b x"
  "ref_orig (snd (ref_clear a x)) = ref_orig x"
  "rw_cache (snd (ref_clear a x)) b = Some j \<Longrightarrow> rw_cache x b = Some j \<and> (b = a \<longrightarrow> \<not> ref_has b x)"
proof -
  show "ref_has b (snd (ref_clear a x)) \<longleftrightarrow> b \<noteq> a \<and> ref_has b x"
    by (cases "ref_has a x") (auto simp: ref_clear_found ref_clear_refused ref_has_def map_of_filter_key)
  show "rw_cache (snd (ref_clear a x)) b = Some j \<Longrightarrow> rw_cache x b = Some j \<and> (b = a \<longrightarrow> \<not> ref_has b x)"
    by (cases "ref_has a x") (auto simp: ref_clear_found ref_clear_refused split: if_splits)
  show "ref_orig (snd (ref_clear a x)) = ref_orig x"
  proof (cases "ref_has a x")
    case True
    then have al: "a AND 3 = 0" by (simp add: ref_has_def)
    have "ref_orig (snd (ref_clear a x)) y = ref_orig x y" for y
      using True al by (cases "y AND NOT 3 = a")
        (auto simp: ref_clear_found ref_orig_def map_of_filter_key write_word ref_has_def split: option.split)
    then show ?thesis by (simp add: fun_eq_iff)
  qed (simp add: ref_clear_refused)
qed

lemma ref_clear_fold:
  fixes ps :: "(u64 \<times> u32) list"
  defines "y x \<equiv> fold (\<lambda>p z. snd (ref_clear (fst p) z)) ps x"
  shows "ref_orig (y x) = ref_orig x \<and> (ref_has b (y x) \<longleftrightarrow> b \<notin> fst ` set ps \<and> ref_has b x) \<and>
    (rw_cache (y x) b = Some j \<longrightarrow> rw_cache x b = Some j \<and> (b \<in> fst ` set ps \<longrightarrow> \<not> ref_has b x))"
  unfolding y_def
proof (induction ps arbitrary: x)
  case (Cons p ps)
  from Cons [of "snd (ref_clear (fst p) x)"] ref_clear_laws(3) [of "fst p" x b j] show ?case
    by (auto simp: ref_clear_laws(1,2))
qed simp

lemma ref_has_host: "h_HasBreakpoint ref_host = ref_has"
  by (simp add: ref_host_def)

lemma ref_store_host: "h_store ref_host = ref_store"
  by (simp add: ref_host_def)

interpretation ref_frame: breakpoint_frame ref_host rw_mem ref_orig
proof unfold_locales
  fix a x st and x' :: ref_world
  show "patches ref_host rw_mem a x x' \<and> (\<forall>b. h_HasBreakpoint ref_host b x' = (b = a \<or> h_HasBreakpoint ref_host b x))"
    if "h_SetBreakpoint ref_host a x = (OkStatus, x')"
  proof -
    from that have a: "a AND 3 = 0" and x': "x' = patch a (le_bytes 4 ebreak_word)
        (x\<lparr>rw_breaks := (a, word_at (rw_mem x) a) # rw_breaks x, rw_active := a # rw_active x\<rparr>)"
      by (auto simp: ref_host_def ref_set_def split: if_splits)
    have "patches ref_host rw_mem a x x'" by (rule patches_patch) (simp_all add: x')
    then show ?thesis using a by (auto simp: x' ref_host_def ref_has_def)
  qed
  show "x' = x" if "h_SetBreakpoint ref_host a x = (st, x')" "st \<noteq> OkStatus"
    using that by (auto simp: ref_host_def ref_set_def split: if_splits)
  show "patches ref_host rw_mem a x x' \<and> (\<forall>b. h_HasBreakpoint ref_host b x' = h_HasBreakpoint ref_host b x)"
    if "h_HasBreakpoint ref_host a x" "h_DisableBreakpoint ref_host a x = (st, x')"
  proof -
    let ?x = "x\<lparr>rw_active := removeAll a (rw_active x)\<rparr>"
    have x': "x' = patch a (le_bytes 4 (the (map_of (rw_breaks x) a))) ?x"
      using that by (simp add: ref_host_def ref_disable_def)
    have "patches ref_host rw_mem a x x'" by (rule patches_patch) (simp_all add: x')
    then show ?thesis by (simp add: x' ref_host_def ref_has_def)
  qed
  show "\<not> status_ok st \<and> x' = x" if "\<not> h_HasBreakpoint ref_host a x" "h_DisableBreakpoint ref_host a x = (st, x')"
    using that by (auto simp: ref_host_def ref_disable_def)
  show "patches ref_host rw_mem a x x' \<and> (\<forall>b. h_HasBreakpoint ref_host b x' = h_HasBreakpoint ref_host b x)"
    if "h_HasBreakpoint ref_host a x" "h_EnableBreakpoint ref_host a x = (st, x')"
  proof -
    have x': "x' = patch a (le_bytes 4 ebreak_word) (x\<lparr>rw_active := a # rw_active x\<rparr>)"
      using that by (simp add: ref_host_def ref_enable_def)
    have "patches ref_host rw_mem a x x'" by (rule patches_patch) (simp_all add: x')
    then show ?thesis by (simp add: x' ref_host_def ref_has_def)
  qed
  show "patches ref_host rw_mem a x x' \<and> (\<forall>b. h_HasBreakpoint ref_host b x' = (b \<noteq> a \<and> h_HasBreakpoint ref_host b x)) \<and>
      ref_orig x' = ref_orig x"
    if "h_HasBreakpoint ref_host a x" "h_ClearBreakpoint ref_host a x = (st, x')"
  proof -
    have h: "ref_has a x" and x': "x' = snd (ref_clear a x)" using that by (simp_all add: ref_host_def)
    have "patches ref_host rw_mem a x x'"
      by (rule patches_patch [where w = "the (map_of (rw_breaks x) a)"]) (simp_all add: x' ref_clear_found [OF h])
    then show ?thesis unfolding x' by (simp only: ref_has_host ref_clear_laws(1,2) simp_thms)
  qed
  show "x' = x" if "\<not> h_HasBreakpoint ref_host a x" "h_ClearBreakpoint ref_host a x = (st, x')"
    using that ref_clear_refused [of a x] by (simp add: ref_host_def)
next
  fix x x' :: ref_world and b j
  assume "x' = h_ClearAllBreakpoints ref_host x"
  then have x': "x' = fold (\<lambda>p y. snd (ref_clear (fst p) y)) (rw_breaks x) x" by (simp add: ref_host_def)
  have "ref_has b x \<Longrightarrow> b \<in> fst ` set (rw_breaks x)" by (simp add: ref_has_def map_of_eq_None_iff)
  then show "ref_orig x' = ref_orig x \<and> \<not> h_HasBreakpoint ref_host b x' \<and>
      (h_cached ref_host b x' = Some j \<longrightarrow> h_cached ref_host b x = Some j \<and> \<not> h_HasBreakpoint ref_host b x)"
    using ref_clear_fold [of "rw_breaks x" x b j] by (auto simp: x' ref_host_def)
next
  fix x :: ref_world and y h a bs
  show "\<not> under_breakpoint ref_host x y \<Longrightarrow> ref_orig x y = rw_mem x y"
    by (simp add: ref_under ref_orig_def)
  show "under_breakpoint ref_host x y \<Longrightarrow> ref_orig (snd (h_store ref_host h a bs x)) y = ref_orig x y"
    by (auto simp: ref_under ref_orig_def ref_store_host ref_store_def)
qed

interpretation ref_transparent: transparent_debugger std_lib ref_host rw_mem ref_orig
  by unfold_locales

section \<open>A session\<close>

lemma std_size [simp]: "lib_default_size std_lib = 4"
  by (simp add: std_lib_def)

lemma demo_aligned: "code_aligned {0, 4, 8}"
  by (simp add: code_aligned_def)

lemma demo_debugging: "debugging ref_host rw_mem L C demo_top"
  using demo_core_ok
  by (simp add: debugging_def debug_core_def core_ok_def armed_def cache_fresh_def demo_constructed
      ref_host_def ref_has_def demo_world_def)

lemma demo_world_orig: "ref_orig demo_world = rw_mem demo_world"
  by (simp add: ref_orig_def demo_world_def fun_eq_iff)

lemma demo_user_run: "\<exists>m. (user_step {0, 4, 8} ^^ 2) (debug_abs ref_orig demo_top) m"
proof -
  let ?m0 = "debug_abs ref_orig demo_top"
  have m0: "rv_mem ?m0 = rw_mem demo_world" "rv_pc ?m0 = 0" "rv_x ?m0 0 = 0"
    by (simp_all add: debug_abs_def shown_pc_def demo_constructed demo_world_orig xval_def)
  let ?m1 = "rv_exec (OP_IMM I_ADDI 1 0 5) ?m0"
  have 1: "user_step {0, 4, 8} ?m0 ?m1"
    by (rule user) (use m0 demo_words(1) in simp_all)
  have m1: "rv_mem ?m1 = rw_mem demo_world" "rv_pc ?m1 = 4"
    using m0 by (simp_all add: rv_next_def rv_set_def)
  have 2: "user_step {0, 4, 8} ?m1 (rv_exec (OP A_ADD 2 1 1) ?m1)"
    by (rule user) (use m1 demo_words(2) [OF m1(1)] in simp_all)
  show ?thesis using 1 2 by (auto simp: eval_nat_numeral)
qed


text \<open>A breakpoint on the second instruction, then two steps.\<close>

definition bp4_top :: "ref_world top" where
  "bp4_top = snd (SetSwBreakpoint ref_host 4 demo_top)"

lemma bp4_set: "SetSwBreakpoint ref_host (ucast (4 :: u32)) demo_top = (OkStatus, bp4_top)"
proof -
  have "fst (SetSwBreakpoint ref_host 4 demo_top) = OkStatus"
    by (simp add: SetSwBreakpoint_def demo_constructed ref_host_def ref_set_def ref_has_def demo_world_def)
  then show ?thesis by (simp add: bp4_top_def prod_eq_iff)
qed

lemma bp_debugging:
  "debugging ref_host rw_mem 4 {0, 4, 8} bp_top \<and> debug_abs ref_orig bp_top = debug_abs ref_orig demo_top"
  "debugging ref_host rw_mem 4 {0, 4, 8} bp4_top \<and> debug_abs ref_orig bp4_top = debug_abs ref_orig demo_top"
  using ref_transparent.set_transparent [OF demo_aligned, of demo_top 0 OkStatus bp_top]
    ref_transparent.set_transparent [OF demo_aligned, of demo_top 4 OkStatus bp4_top] demo_debugging bp_set bp4_set
  by simp_all

text \<open>A breakpoint on the first instruction, a step that stops there, and one that goes on.\<close>

lemma bp0_stop:
  obtains t2 where "Step std_lib ref_host 1 bp_top = Some (Inr 1, t2)"
    "GetLastHaltReason t2 = Halt_kSoftwareBreakpoint" "debug_abs ref_orig t2 = debug_abs ref_orig demo_top"
proof -
  note d = bp_debugging(1) [THEN conjunct1] and a = bp_debugging(1) [THEN conjunct2]
  obtain m where "(user_step {0, 4, 8} ^^ 1) (debug_abs ref_orig bp_top) m"
    using demo_user_run relpowp_prefix [of 2 "user_step {0, 4, 8}" _ _ 1] a by fastforce
  from ref_transparent.Step_transparent [unfolded std_size, OF demo_aligned d _ this] obtain c t' where
    s: "Step std_lib ref_host 1 bp_top = Some (Inr (int c), t')" "0 < c" "c \<le> 1"
    "(user_step {0, 4, 8} ^^ taken c t') (debug_abs ref_orig bp_top) (debug_abs ref_orig t')"
    by auto
  moreover have "c = 1" using s(2,3) by simp
  moreover have r: "GetLastHaltReason t' = Halt_kSoftwareBreakpoint"
    using ref_session.breakpoint_session [OF demo_core_ok demo_constructed(7) _ demo_constructed(5) bp_set, of 1] s(1)
    by (auto simp: demo_constructed)
  ultimately show ?thesis using that [of t'] a by (simp add: taken_def GetLastHaltReason_def)
qed

lemma bp0_session:
  "\<exists>t2 t3. Step std_lib ref_host 1 bp_top = Some (Inr 1, t2) \<and>
     GetLastHaltReason t2 = Halt_kSoftwareBreakpoint \<and> Step std_lib ref_host 1 t2 = Some (Inr 1, t3) \<and>
     debugged std_lib ref_host ref_orig {0, 4, 8} demo_top t3"
proof -
  obtain t2 where t2: "Step std_lib ref_host 1 bp_top = Some (Inr 1, t2)"
    "GetLastHaltReason t2 = Halt_kSoftwareBreakpoint" "debug_abs ref_orig t2 = debug_abs ref_orig demo_top"
    by (rule bp0_stop)
  obtain t3 where t3: "Step std_lib ref_host 1 t2 = Some (Inr 1, t3)" using bp_second_step [OF t2(1)] by blast
  have set: "debugged std_lib ref_host ref_orig {0, 4, 8} demo_top bp_top"
    by (rule set_call [OF start _ bp_set]) simp
  note a = bp_debugging(1) [THEN conjunct2]
  obtain m where m: "(user_step {0, 4, 8} ^^ 1) (debug_abs ref_orig demo_top) m"
    using demo_user_run relpowp_prefix [of 2 "user_step {0, 4, 8}" _ _ 1] by fastforce
  have "debugged std_lib ref_host ref_orig {0, 4, 8} demo_top t2"
    by (rule step_call [OF set, of 1 m]) (use m a t2(1) in simp_all)
  then have "debugged std_lib ref_host ref_orig {0, 4, 8} demo_top t3"
    by (rule step_call [of _ _ _ _ _ _ 1 m]) (use m t2(3) t3 in simp_all)
  with t2 t3 show ?thesis by blast
qed

end
