(* ===== verification/Transparency_Properties.thy ===== *)
theory Transparency_Properties
  imports Reference_Debug
begin

text \<open>
  Debugging does not change the program: what \<open>Step\<close>, \<open>Run\<close> and software breakpoints show of a
  program is its run without them.
\<close>

text \<open>C6: a debugging session is a run of the program. From a halted simulator, set and clear
  breakpoints at instructions, step and run in any order: the pc the debugger shows, the registers
  and the memory without the \<^verbatim>\<open>ebreak\<close> words are those of a state the manual's run of the program
  passes through, and the next call finds the simulator in order. The program must neither read nor
  write its own code.\<close>

theorem breakpoints_are_transparent:
  assumes "transparent_debugger lib H xbytes orig" and "code_aligned C"
    and "debugging H xbytes (lib_default_size lib) C t" and "debugged lib H orig C t t'"
  shows "(user_step C)\<^sup>*\<^sup>* (debug_abs orig t) (debug_abs orig t') \<and>
    debugging H xbytes (lib_default_size lib) C t'"
  using transparent_debugger.debugging_transparent [OF assms] by blast

theorem breakpoints_are_transparent_witness:
  "\<exists>t2 t3. SetSwBreakpoint ref_host 0 demo_top = (OkStatus, bp_top) \<and>
     Step std_lib ref_host 1 bp_top = Some (Inr 1, t2) \<and> GetLastHaltReason t2 = Halt_kSoftwareBreakpoint \<and>
     Step std_lib ref_host 1 t2 = Some (Inr 1, t3) \<and>
     (user_step {0, 4, 8})\<^sup>*\<^sup>* (debug_abs ref_orig demo_top) (debug_abs ref_orig t3)"
proof -
  obtain t2 t3 where t: "Step std_lib ref_host 1 bp_top = Some (Inr 1, t2)"
    "GetLastHaltReason t2 = Halt_kSoftwareBreakpoint" "Step std_lib ref_host 1 t2 = Some (Inr 1, t3)"
    "debugged std_lib ref_host ref_orig {0, 4, 8} demo_top t3"
    using bp0_session by blast
  from breakpoints_are_transparent [OF ref_transparent.transparent_debugger_axioms demo_aligned demo_debugging t(4)]
  show ?thesis using t bp_set by auto
qed

text \<open>C7: \<open>Step n\<close> with breakpoints set. It returns a count \<open>c\<close> of at most \<open>n\<close>, smaller only if a halt
  was requested; the program has taken \<open>c\<close> steps, one less if the last turn stopped at a breakpoint,
  and then the pc register reads as the address of the breakpoint, whose instruction has not been
  executed. A breakpoint at which the simulator stands is stepped over first.\<close>

theorem step_with_breakpoints:
  assumes "transparent_debugger lib H xbytes orig" and "code_aligned C"
    and "debugging H xbytes (lib_default_size lib) C t" and "0 < n"
    and "(user_step C ^^ n) (debug_abs orig t) m"
  shows "\<exists>c t'. Step lib H (int n) t = Some (Inr (int c), t') \<and> 0 < c \<and> c \<le> n \<and>
    (c < n \<longrightarrow> halted (t_env t')) \<and> debugging H xbytes (lib_default_size lib) C t' \<and>
    (if GetLastHaltReason t' = Halt_kSoftwareBreakpoint
     then (user_step C ^^ (c - 1)) (debug_abs orig t) (debug_abs orig t') \<and>
          ReadRegister ''pc'' t' = Some (Inr (ucast (rv_pc (debug_abs orig t'))))
     else (user_step C ^^ c) (debug_abs orig t) (debug_abs orig t'))"
proof -
  from transparent_debugger.Step_transparent [OF assms] obtain c t' where s:
    "Step lib H (int n) t = Some (Inr (int c), t')" "0 < c" "c \<le> n" "c < n \<longrightarrow> halted (t_env t')"
    "debugging H xbytes (lib_default_size lib) C t'"
    "(user_step C ^^ taken c t') (debug_abs orig t) (debug_abs orig t')"
    by blast
  have "ReadRegister ''pc'' t' = Some (Inr (ucast (rv_pc (debug_abs orig t'))))"
    if "halt_reason (t_env t') = Halt_kSoftwareBreakpoint"
    using debugging_reads_pc [OF s(5) that] .
  then show ?thesis
    using s by (intro exI [of _ c] exI [of _ t']) (auto simp: taken_def GetLastHaltReason_def)
qed

theorem step_with_breakpoints_witness:
  "\<exists>c t'. SetSwBreakpoint ref_host 4 demo_top = (OkStatus, bp4_top) \<and>
     Step std_lib ref_host 2 bp4_top = Some (Inr (int c), t') \<and> 0 < c \<and> c \<le> 2 \<and>
     (if GetLastHaltReason t' = Halt_kSoftwareBreakpoint
      then (user_step {0, 4, 8} ^^ (c - 1)) (debug_abs ref_orig demo_top) (debug_abs ref_orig t')
      else (user_step {0, 4, 8} ^^ c) (debug_abs ref_orig demo_top) (debug_abs ref_orig t'))"
proof -
  obtain m where m: "(user_step {0, 4, 8} ^^ 2) (debug_abs ref_orig bp4_top) m"
    using demo_user_run bp_debugging(2) by auto
  have d: "debugging ref_host rw_mem (lib_default_size (std_lib :: ref_world top_env mpact)) {0, 4, 8} bp4_top"
    using bp_debugging(2) by simp
  from step_with_breakpoints [OF ref_transparent.transparent_debugger_axioms demo_aligned d _ m] obtain c t' where
    "Step std_lib ref_host 2 bp4_top = Some (Inr (int c), t')" "0 < c" "c \<le> 2"
    "if GetLastHaltReason t' = Halt_kSoftwareBreakpoint
     then (user_step {0, 4, 8} ^^ (c - 1)) (debug_abs ref_orig bp4_top) (debug_abs ref_orig t') \<and>
          ReadRegister ''pc'' t' = Some (Inr (ucast (rv_pc (debug_abs ref_orig t'))))
     else (user_step {0, 4, 8} ^^ c) (debug_abs ref_orig bp4_top) (debug_abs ref_orig t')"
    by auto
  then show ?thesis using bp4_set bp_debugging(2) by (auto split: if_splits)
qed

end
