(* ===== verification/Machine_Properties.thy ===== *)
theory Machine_Properties
  imports Reference_Session
begin

text \<open>
  What the simulator does with every word it may find at the pc, those the manual leaves undefined
  or the decoder does not know included, and with words written under the decode cache.
\<close>

section \<open>A program the manual has no meaning for\<close>

text \<open>\<^verbatim>\<open>jalr x0, 3(x0)\<close> at address 0 and zeros after it: an odd target, then a word without an
  opcode.\<close>

definition odd_world :: ref_world where
  "odd_world = demo_world\<lparr>rw_mem := write_bytes 0 (le_bytes 4 (encode (JALR 0 0 3))) (\<lambda>_. 0)\<rparr>"

definition odd_top :: "ref_world top" where
  "odd_top = RV32ITop_ctor std_lib ref_host odd_world"

lemmas odd_constructed = constructed [OF std.mpact_registers_axioms odd_top_def]

lemma odd_uncached: "h_cached ref_host a odd_world = None"
  by (simp add: ref_host_def odd_world_def demo_world_def)

lemma odd_reachable: "reachable std_lib ref_host odd_top"
  unfolding odd_top_def by (rule constructed_top) (rule odd_uncached)

lemma odd_abs: "rv_pc (top_abs rw_mem odd_top) = 0" "rv_x (top_abs rw_mem odd_top) 0 = 0"
  "rv_mem (top_abs rw_mem odd_top) = rw_mem odd_world"
  by (simp_all add: top_abs_def odd_constructed xval_def)

lemma odd_words:
  assumes "rv_mem m = rw_mem odd_world"
  shows "rv_word m 0 = encode (JALR 0 0 3)" "rv_word m 3 = 0"
proof -
  have m: "rv_mem m = write_bytes 0 (concat (map (le_bytes 4) [encode (JALR 0 0 3)])) (\<lambda>_. 0)"
    using assms by (simp add: odd_world_def del: encode.simps)
  show "rv_word m 0 = encode (JALR 0 0 3)"
    using read_word_written [OF _ _ m, of 0] by (simp del: encode.simps)
  have "encode (JALR 0 0 3) = 0x300067" by (simp add: enc_I_def place_def)
  then show "rv_word m 3 = 0"
    unfolding rv_word_def rv_bytes_def assms odd_world_def
    by (simp add: upt_rec write_bytes_def nth_le_bytes del: encode.simps)
qed

section \<open>Every word\<close>

text \<open>C4: one step executes whatever word is at the pc. In every reachable halted state whose decode
  cache does not hold the pc, \<open>Step 1\<close> returns 1 and has done to the pc, the registers and the
  memory what \<open>sim_exec\<close> says of the word; for an encoded instruction that is the manual's effect
  exactly when the target of a \<open>jalr\<close> is even, and any other word changes the pc only.\<close>

theorem step_executes_any_word:
  assumes "whole_machine lib H xbytes" and "reachable lib H t" and "run_status t = Run_kHalted"
    and "GetLastHaltReason t \<noteq> Halt_kSoftwareBreakpoint" and m: "m = top_abs xbytes t"
    and "h_cached H (ucast (rv_pc m)) (ext (t_env t)) = None" and w: "w = rv_word m (rv_pc m)"
  shows "\<exists>t'. Step lib H 1 t = Some (Inr 1, t') \<and> reachable lib H t' \<and>
    top_abs xbytes t' = sim_exec (lib_default_size lib) w m \<and>
    (\<forall>i. w = encode i \<longrightarrow> (top_abs xbytes t' = rv_exec i m \<longleftrightarrow> jalr_even i m)) \<and>
    (inst_of w = None \<longrightarrow> rv_x (top_abs xbytes t') = rv_x m \<and> rv_mem (top_abs xbytes t') = rv_mem m)"
proof -
  let ?a = "db_get32 (pc_data_buffer t)"
  have core: "core lib H" using assms(1) by (rule whole_machine.axioms)
  have "core_ok H t" by (rule core.reachable_ok [OF core assms(2)])
  then have "sim_ok H xbytes (lib_default_size lib) {?a} t"
    using assms(6) by (simp add: sim_ok_def core_ok_def words_cached_def m top_abs_def)
  from whole_machine.Step_executes_word [OF assms(1) this _ assms(3)] assms(4) obtain t' where
    t': "Step lib H 1 t = Some (Inr 1, t')" "top_abs xbytes t' = sim_exec (lib_default_size lib) w m"
    by (auto simp: GetLastHaltReason_def w m)
  have "reachable lib H t'" by (rule called [OF assms(2) call_Step [OF t'(1)]])
  then show ?thesis using t' by (auto simp: sim_inst_manual) (simp_all add: sim_exec_def)
qed

theorem step_executes_any_word_witness:
  "\<exists>t'. Step std_lib ref_host 1 odd_top = Some (Inr 1, t') \<and> rv_pc (top_abs rw_mem t') = 3"
proof -
  have "GetLastHaltReason odd_top \<noteq> Halt_kSoftwareBreakpoint"
    by (simp add: GetLastHaltReason_def odd_constructed)
  from step_executes_any_word [OF ref_whole.whole_machine_axioms odd_reachable odd_constructed(7) this refl _ refl]
  show ?thesis
    by (auto simp: odd_constructed odd_uncached odd_abs odd_words(1) simp del: encode.simps)
qed

section \<open>Whole programs\<close>

text \<open>C2: the simulator runs any program. Whatever words the program at the addresses \<open>C\<close> consists
  of, if it does not write them then \<open>Step n\<close> takes the first \<open>k\<close> of its steps on \<open>sim_step\<close>, all
  \<open>n\<close> unless a halt was requested, and returns and counts \<open>k\<close>. A step of \<open>sim_step\<close> at an instruction
  that the decoder knows is the manual's step exactly when a \<open>jalr\<close> has an even target; at any other
  word, those of \<open>slt\<close>, \<open>srl\<close>, \<open>sra\<close>, \<open>slti\<close>, \<open>sltiu\<close> and \<open>ecall\<close> included, it changes the pc only.
  Its runs are determined by the state they start from.\<close>

theorem step_runs_any_program:
  assumes "whole_machine lib H xbytes" and "sim_ok H xbytes (lib_default_size lib) C t"
    and "run_status t = Run_kHalted" and "GetLastHaltReason t \<noteq> Halt_kSoftwareBreakpoint" and "0 < n"
    and "(sim_step (lib_default_size lib) C ^^ n) (top_abs xbytes t) m"
  shows "(\<exists>k t'. Step lib H (int n) t = Some (Inr (int k), t') \<and> 0 < k \<and> k \<le> n \<and> (k < n \<longrightarrow> halted (t_env t')) \<and>
      (sim_step (lib_default_size lib) C ^^ k) (top_abs xbytes t) (top_abs xbytes t') \<and>
      (k = n \<longrightarrow> top_abs xbytes t' = m) \<and>
      counter_num_instructions t' = counter_num_instructions t + of_nat k \<and>
      sim_ok H xbytes (lib_default_size lib) C t' \<and> run_status t' = Run_kHalted) \<and>
    (\<forall>m1 m2. rv_step C m1 m2 \<longrightarrow> sim_step (lib_default_size lib) C m1 m2) \<and>
    (\<forall>m1 m2. sim_step (lib_default_size lib) C m1 m2 \<longrightarrow>
      (case inst_of (rv_word m1 (rv_pc m1)) of
         Some i \<Rightarrow> rv_step C m1 m2 \<longleftrightarrow> jalr_even i m1
       | None \<Rightarrow> \<not> rv_step C m1 m2 \<and> rv_x m2 = rv_x m1 \<and> rv_mem m2 = rv_mem m1))"
proof -
  have nr: "halt_reason (t_env t) \<noteq> Halt_kSoftwareBreakpoint" using assms(4) by (simp add: GetLastHaltReason_def)
  from whole_machine.Step_follows_machine [OF assms(1-3) nr assms(5,6)]
  show ?thesis using sim_run_det [OF assms(6)] rv_step_sim sim_step_manual by blast
qed

lemma odd_run: "\<exists>m. (sim_step 4 {0, 3} ^^ 2) (top_abs rw_mem odd_top) m \<and> rv_pc m = 7"
proof -
  let ?m = "top_abs rw_mem odd_top"
  define m1 where "m1 = ?m\<lparr>rv_pc := 3\<rparr>"
  have e: "sim_exec 4 (encode (JALR 0 0 3)) ?m = m1"
    by (simp add: m1_def rv_set_def odd_abs del: encode.simps)
  have "sim_step 4 {0, 3} ?m m1"
    unfolding e [symmetric]
    by (rule sim) (simp_all add: odd_abs odd_words(1) sim_writes_def inst_of_encode del: encode.simps)
  moreover have m1: "rv_pc m1 = 3" "rv_mem m1 = rw_mem odd_world" by (simp_all add: m1_def odd_abs)
  have none: "inst_of 0 = None" by (simp add: inst_of_none decode_zero base_opcode_def)
  have "sim_step 4 {0, 3} m1 (sim_exec 4 0 m1)"
    by (rule sim) (simp_all add: m1 odd_words(2) sim_writes_def none)
  moreover have "rv_pc (sim_exec 4 0 m1) = 7" by (simp add: sim_exec_def none m1 decode_zero)
  ultimately show ?thesis by (auto simp: eval_nat_numeral)
qed

theorem step_runs_any_program_witness:
  "\<exists>k t'. Step std_lib ref_host 2 odd_top = Some (Inr (int k), t') \<and> 0 < k \<and> k \<le> 2 \<and>
     (k < 2 \<longrightarrow> halted (t_env t')) \<and> (k = 2 \<longrightarrow> rv_pc (top_abs rw_mem t') = 7)"
proof -
  have L: "lib_default_size (std_lib :: ref_world top_env mpact) = 4" by (simp add: std_lib_def)
  have ok: "sim_ok ref_host rw_mem (lib_default_size (std_lib :: ref_world top_env mpact)) {0, 3} odd_top"
    by (rule constructed_sim_ok [OF std.mpact_registers_axioms _ odd_top_def]) (simp add: odd_uncached)
  obtain m where m: "(sim_step 4 {0, 3} ^^ 2) (top_abs rw_mem odd_top) m" "rv_pc m = 7" using odd_run by blast
  have nr: "GetLastHaltReason odd_top \<noteq> Halt_kSoftwareBreakpoint"
    by (simp add: GetLastHaltReason_def odd_constructed)
  from step_runs_any_program [OF ref_whole.whole_machine_axioms ok odd_constructed(7) nr _ m(1) [folded L]] m(2)
  show ?thesis by (simp del: relpowp.simps) blast
qed

section \<open>Words written under the decode cache\<close>

text \<open>C11: code the debugger writes is not executed when the decode cache holds the address. If the
  cache holds the instruction of the word \<open>w\<close> at the pc, because it was executed or shown before,
  \<open>WriteMemory\<close> of another word succeeds and memory holds the new word, but \<open>GetInstruction\<close>
  still answers with the old instruction and the next \<open>Step\<close> executes \<open>w\<close>.\<close>

theorem written_code_is_not_executed:
  assumes "whole_machine lib H xbytes" and "sim_ok H xbytes (lib_default_size lib) {a} t"
    and "run_status t = Run_kHalted" and "GetLastHaltReason t \<noteq> Halt_kSoftwareBreakpoint"
    and "rv_pc (top_abs xbytes t) = a" and w: "rv_word (top_abs xbytes t) a = w"
    and "h_cached H (ucast a) (ext (t_env t)) = Some inst"
    and "WriteMemory H (ucast a) (le_bytes 4 v) t = (r, t1)"
  shows "r = Inr 4 \<and> rv_word (top_abs xbytes t1) a = v \<and> GetInstruction lib H (ucast a) t1 = (inst, t1) \<and>
    (\<exists>t2. Step lib H 1 t1 = Some (Inr 1, t2) \<and>
       top_abs xbytes t2 = sim_exec (lib_default_size lib) w (top_abs xbytes t1))"
proof -
  have ok: "machine_ok H t" using assms(2) by (simp add: sim_ok_def)
  have "rv_word (rv_of (\<lambda>e. xbytes (ext e)) 0 (state t)) a = w"
    unfolding w [symmetric] by (rule rv_word_frame) (simp add: top_abs_def)
  then have "from_word (lib_default_size lib) a w inst (state t)"
    using assms(2,7) by (auto simp: sim_ok_def words_cached_def)
  moreover have "db_get32 (pc_data_buffer t) = a" using assms(5) by (simp add: top_abs_def)
  moreover have "halt_reason (t_env t) \<noteq> Halt_kSoftwareBreakpoint" using assms(4) by (simp add: GetLastHaltReason_def)
  ultimately show ?thesis by (rule whole_machine.written_over_cached [OF assms(1) ok assms(7) _ _ assms(3) _ assms(8)])
qed

text \<open>The small program is shown at address 0, overwritten there with a zero word, and stepped.\<close>

theorem written_code_is_not_executed_witness:
  "\<exists>inst t t1 t2. GetInstruction std_lib ref_host 0 demo_top = (inst, t) \<and>
     WriteMemory ref_host 0 (le_bytes 4 (0 :: u32)) t = (Inr 4, t1) \<and>
     rv_word (top_abs rw_mem t1) 0 = 0 \<and> Step std_lib ref_host 1 t1 = Some (Inr 1, t2) \<and>
     rv_x (top_abs rw_mem t2) 1 = 5"
proof -
  let ?L = "lib_default_size (std_lib :: ref_world top_env mpact)" and ?i = "OP_IMM I_ADDI 1 0 5"
  have "\<forall>a. h_cached ref_host a demo_world = None" by (simp add: ref_host_def demo_world_def)
  note ok = constructed_sim_ok [OF std.mpact_registers_axioms this demo_top_def, of rw_mem ?L "{0}"]
  obtain inst t where g: "GetDecodedInstruction std_lib ref_host (ucast (0 :: u32)) demo_top = (inst, t)"
    and t: "sim_ok ref_host rw_mem ?L {0} t" "extends (state demo_top) (state t)"
      "rw_mem (ext (t_env t)) = rw_mem (ext (t_env demo_top))"
    by (rule ref_whole.fetch_any [OF ok _ refl]) auto
  have c: "h_cached ref_host (ucast (0 :: u32)) (ext (t_env t)) = Some inst"
    using g by (auto simp: GetDecodedInstruction_def ref_host_def demo_constructed demo_world_def set_ext_def
        map_env_def split: prod.splits)
  note cs = GetDecodedInstruction_frame(1) [OF g]
  have m: "machine_ok ref_host demo_top" using demo_core_ok by (simp add: core_ok_def)
  have "pc_data_buffer t = pc_data_buffer demo_top"
    using t(2) cs demo_xregs_ok m xregs_okD(2) [OF demo_xregs_ok]
    by (auto simp: pc_data_buffer_def control_same_def extends_def machine_ok_def ran_def)
  then have abs: "top_abs rw_mem t = top_abs rw_mem demo_top"
    unfolding top_abs_def by (simp add: extends_rv_of [OF t(2) demo_xregs_ok] t(3))
  have hr: "GetLastHaltReason t \<noteq> Halt_kSoftwareBreakpoint"
    using ref_halting.GetDecodedInstruction_requests [OF m g] by (auto simp: GetLastHaltReason_def demo_constructed)
  have pc: "rv_pc (top_abs rw_mem t) = 0" unfolding abs by (simp add: top_abs_def demo_constructed)
  have w: "rv_word (top_abs rw_mem t) 0 = encode ?i"
    unfolding abs by (rule demo_words) (simp add: top_abs_def demo_constructed)
  have rs: "run_status t = Run_kHalted" using cs by (simp add: control_same_def demo_constructed)
  obtain r t1 where wr: "WriteMemory ref_host (ucast (0 :: u32)) (le_bytes 4 (0 :: u32)) t = (r, t1)" by fastforce
  from written_code_is_not_executed [OF ref_whole.whole_machine_axioms t(1) rs hr pc w c wr] obtain t2 where
    "r = Inr 4" "rv_word (top_abs rw_mem t1) 0 = 0" "Step std_lib ref_host 1 t1 = Some (Inr 1, t2)"
    "top_abs rw_mem t2 = sim_inst ?i (top_abs rw_mem t1)"
    by (auto simp del: encode.simps)
  moreover have "rv_x (top_abs rw_mem t1) 0 = 0" by (simp add: top_abs_def xval_def)
  ultimately show ?thesis
    using g wr by (intro exI [of _ inst] exI [of _ t] exI [of _ t1] exI [of _ t2])
      (simp add: GetInstruction_def rv_next_def rv_set_def)
qed

end
