(* ===== verification/Ownership.thy ===== *)
theory Ownership
  imports Top "HOL-Library.Monad_Syntax"
begin

text \<open>
  Who deletes what: the objects that \<^verbatim>\<open>RV32ITop\<close> (\<^verbatim>\<open>other/rv32i_top.cc\<close>), \<^verbatim>\<open>RiscVState\<close>
  (\<^verbatim>\<open>other/riscv_simple_state.cc\<close>) and \<^verbatim>\<open>RiscV32Decoder\<close>
  (\<^verbatim>\<open>riscv_full_decoder/solution/riscv32_decoder.cc\<close>) make with \<^verbatim>\<open>new\<close> and hold by raw pointers, from
  construction to destruction. The heap knows which objects are there; deleting one that is not is
  undefined behaviour.
\<close>

section \<open>The heap\<close>

text \<open>Objects of this repository's classes carry the pointers they own, library objects are opaque.\<close>

datatype cell =
    FlatDemandMemory | SourceOperandObject | DestinationOperandObject
  | IsaFactory | InstructionSetObject | EncodingObject | InstDataBuffer
  | DecodeCacheObject | ActionPointManager | BreakpointManager | MemoryWatcherObject | SemiHostObject
  | NotificationObject
  | StateObject "nat option" "nat option" "nat option"
  | DecoderObject nat nat nat nat

record obj_heap =
  cells :: "nat \<rightharpoonup> cell"
  next_address :: nat

definition new_object :: "cell \<Rightarrow> obj_heap \<Rightarrow> nat \<times> obj_heap" where
  "new_object k h =
     (next_address h, h\<lparr>cells := (cells h)(next_address h \<mapsto> k), next_address := Suc (next_address h)\<rparr>)"

definition delete_at :: "nat \<Rightarrow> obj_heap \<Rightarrow> obj_heap option" where
  "delete_at p h = (if cells h p = None then None else Some (h\<lparr>cells := (cells h)(p := None)\<rparr>))"

text \<open>Deleting a null pointer does nothing.\<close>

definition delete_object :: "nat option \<Rightarrow> obj_heap \<Rightarrow> obj_heap option" where
  "delete_object p h = (case p of None \<Rightarrow> Some h | Some p \<Rightarrow> delete_at p h)"

section \<open>RiscVState and RiscV32Decoder\<close>

definition RiscVState_new :: "RiscVXlen \<Rightarrow> nat option \<Rightarrow> obj_heap \<Rightarrow> nat \<times> obj_heap" where
  "RiscVState_new xlen memory h =
     (let (owned_memory, h) =
            (case memory of
               None \<Rightarrow> (let (m, h) = new_object FlatDemandMemory h in (Some m, h))
             | Some _ \<Rightarrow> (None, h));
          (pc_src_operand, pc_dst_operand, h) =
            (case xlen of
               RV32 \<Rightarrow>
                 (let (s, h) = new_object SourceOperandObject h;
                      (d, h) = new_object DestinationOperandObject h
                  in (Some s, Some d, h))
             | RVUnknown \<Rightarrow> (None, None, h))
      in new_object (StateObject pc_src_operand pc_dst_operand owned_memory) h)"

definition RiscVState_delete :: "nat \<Rightarrow> obj_heap \<Rightarrow> obj_heap option" where
  "RiscVState_delete p h =
     (case cells h p of
        Some (StateObject pc_src_operand pc_dst_operand owned_memory) \<Rightarrow> do {
          h \<leftarrow> delete_object pc_src_operand h;
          h \<leftarrow> delete_object pc_dst_operand h;
          h \<leftarrow> delete_object owned_memory h;
          delete_at p h
        }
      | _ \<Rightarrow> None)"

definition RiscV32Decoder_new :: "obj_heap \<Rightarrow> nat \<times> obj_heap" where
  "RiscV32Decoder_new h =
     (let (isa_factory, h) = new_object IsaFactory h;
          (isa, h) = new_object InstructionSetObject h;
          (encoding, h) = new_object EncodingObject h;
          (inst_db, h) = new_object InstDataBuffer h
      in new_object (DecoderObject isa_factory isa encoding inst_db) h)"

text \<open>The decoder holds the only reference to its buffer, so \<^verbatim>\<open>DecRef\<close> releases it.\<close>

definition RiscV32Decoder_delete :: "nat \<Rightarrow> obj_heap \<Rightarrow> obj_heap option" where
  "RiscV32Decoder_delete p h =
     (case cells h p of
        Some (DecoderObject isa_factory isa encoding inst_db) \<Rightarrow> do {
          h \<leftarrow> delete_at inst_db h;
          h \<leftarrow> delete_at isa h;
          h \<leftarrow> delete_at isa_factory h;
          h \<leftarrow> delete_at encoding h;
          delete_at p h
        }
      | _ \<Rightarrow> None)"

section \<open>RV32ITop\<close>

text \<open>The pointers of \<^verbatim>\<open>RV32ITop\<close>; those the constructor always sets are never null.\<close>

record owner =
  o_heap :: obj_heap
  o_status :: RunStatus
  o_memory :: nat
  o_state :: nat
  o_decoder :: nat
  o_decode_cache :: nat
  o_ap_manager :: nat
  o_bp_manager :: nat
  o_watcher :: "nat option"
  o_semihost :: "nat option"
  o_run_halted :: "nat option"

definition RV32ITop_new :: "obj_heap \<Rightarrow> owner" where
  "RV32ITop_new h =
     (let (memory, h) = new_object FlatDemandMemory h;
          (st, h) = RiscVState_new RV32 (Some memory) h;
          (decoder, h) = RiscV32Decoder_new h;
          (decode_cache, h) = new_object DecodeCacheObject h;
          (ap_manager, h) = new_object ActionPointManager h;
          (bp_manager, h) = new_object BreakpointManager h
      in \<lparr>o_heap = h, o_status = Run_kHalted, o_memory = memory, o_state = st, o_decoder = decoder,
          o_decode_cache = decode_cache, o_ap_manager = ap_manager, o_bp_manager = bp_manager,
          o_watcher = None, o_semihost = None, o_run_halted = None\<rparr>)"

text \<open>Deletion with a run that has not ended waits for it; here the run has ended.\<close>

definition RV32ITop_delete :: "owner \<Rightarrow> obj_heap option" where
  "RV32ITop_delete t = do {
     h \<leftarrow> (if o_status t = Run_kRunning then delete_object (o_run_halted t) (o_heap t) else Some (o_heap t));
     h \<leftarrow> delete_object (o_semihost t) h;
     h \<leftarrow> delete_at (o_bp_manager t) h;
     h \<leftarrow> delete_at (o_ap_manager t) h;
     h \<leftarrow> delete_at (o_decode_cache t) h;
     h \<leftarrow> RiscV32Decoder_delete (o_decoder t) h;
     h \<leftarrow> RiscVState_delete (o_state t) h;
     h \<leftarrow> delete_object (o_watcher t) h;
     delete_at (o_memory t) h
   }"

text \<open>The calls that make or delete objects in between. \<open>Run_call\<close> is a \<open>Run\<close> that starts, \<open>Thread_end\<close>
  the end of its thread; a \<open>Wait\<close> during a run returns after the thread's end. \<open>Step_call\<close> leaves the
  status of a single step when it fails to set its breakpoint again (\<open>fails\<close>).\<close>

datatype owner_event = Set_up_semihosting | Run_call | Thread_end | Wait_call | Step_call (step_fails: bool)

fun owner_step :: "owner_event \<Rightarrow> owner \<Rightarrow> owner option" where
  "owner_step Set_up_semihosting t =
     (if o_status t \<noteq> Run_kHalted then Some t
      else
        (let (watcher, h) = new_object MemoryWatcherObject (o_heap t);
             (semihost, h) = new_object SemiHostObject h
         in Some (t\<lparr>o_heap := h, o_watcher := Some watcher, o_semihost := Some semihost\<rparr>)))"
| "owner_step Run_call t =
     (if o_status t = Run_kRunning then Some t
      else
        (let (n, h) = new_object NotificationObject (o_heap t)
         in Some (t\<lparr>o_heap := h, o_status := Run_kRunning, o_run_halted := Some n\<rparr>)))"
| "owner_step Thread_end t = Some (if o_status t = Run_kRunning then t\<lparr>o_status := Run_kHalted\<rparr> else t)"
| "owner_step Wait_call t =
     map_option
       (\<lambda>h. t\<lparr>o_heap := h, o_run_halted := None,
              o_status := (if o_status t = Run_kRunning then Run_kHalted else o_status t)\<rparr>)
       (delete_object (o_run_halted t) (o_heap t))"
| "owner_step (Step_call fails) t =
     Some (if o_status t = Run_kHalted \<and> fails then t\<lparr>o_status := Run_kSingleStep\<rparr> else t)"

fun owner_run :: "owner_event list \<Rightarrow> owner \<Rightarrow> owner option" where
  "owner_run [] t = Some t"
| "owner_run (e # es) t = Option.bind (owner_step e t) (owner_run es)"

text \<open>How many objects an event leaves without a pointer to them.\<close>

fun loses :: "owner_event \<Rightarrow> owner \<Rightarrow> nat" where
  "loses Set_up_semihosting t = (if o_status t = Run_kHalted \<and> o_watcher t \<noteq> None then 2 else 0)"
| "loses Run_call t = (if o_status t \<noteq> Run_kRunning \<and> o_run_halted t \<noteq> None then 1 else 0)"
| "loses _ t = 0"

fun lost :: "owner_event list \<Rightarrow> owner \<Rightarrow> nat" where
  "lost [] t = 0"
| "lost (e # es) t = loses e t + (case owner_step e t of None \<Rightarrow> 0 | Some t' \<Rightarrow> lost es t')"

section \<open>Deleting a list of objects\<close>

fun delete_list :: "nat list \<Rightarrow> obj_heap \<Rightarrow> obj_heap option" where
  "delete_list [] h = Some h"
| "delete_list (p # ps) h = (case delete_at p h of None \<Rightarrow> None | Some h \<Rightarrow> delete_list ps h)"

lemma delete_list_append:
  "delete_list (ps @ qs) = (\<lambda>h. Option.bind (delete_list ps h) (delete_list qs))"
proof
  show "delete_list (ps @ qs) h = Option.bind (delete_list ps h) (delete_list qs)" for h
    by (induction ps arbitrary: h) (auto split: option.split)
qed

lemma delete_list_ok:
  assumes "distinct ps" "set ps \<subseteq> dom (cells h)"
  shows "delete_list ps h = Some (h\<lparr>cells := (cells h) |` (- set ps)\<rparr>)"
  using assms
proof (induction ps arbitrary: h)
  case Nil
  show ?case by simp
next
  case (Cons p ps)
  let ?g = "h\<lparr>cells := (cells h)(p := None)\<rparr>"
  have "delete_at p h = Some ?g" using Cons.prems by (auto simp: delete_at_def)
  moreover have "delete_list ps ?g = Some (?g\<lparr>cells := (cells ?g) |` (- set ps)\<rparr>)"
    using Cons.prems by (intro Cons.IH) auto
  moreover have "(cells ?g) |` (- set ps) = (cells h) |` (- set (p # ps))"
    by (auto simp: fun_eq_iff restrict_map_def)
  ultimately show ?case by simp
qed

abbreviation opt_list :: "'a option \<Rightarrow> 'a list" where
  "opt_list p \<equiv> (case p of None \<Rightarrow> [] | Some x \<Rightarrow> [x])"

lemma delete_at_list: "delete_at p = delete_list [p]"
  by (auto split: option.split)

lemma delete_object_list: "delete_object p = delete_list (opt_list p)"
  by (auto simp: delete_object_def split: option.split)

lemma delete_list_other:
  "delete_list ps h = Some h' \<Longrightarrow> p \<notin> set ps \<Longrightarrow> cells h' p = cells h p"
  by (induction ps arbitrary: h) (auto simp: delete_at_def split: if_splits option.splits)

section \<open>The objects a simulator owns\<close>

text \<open>The pointers in an object, in the order its destructor deletes them.\<close>

fun part_pointers :: "cell option \<Rightarrow> nat list" where
  "part_pointers (Some (StateObject s d m)) = opt_list s @ opt_list d @ opt_list m"
| "part_pointers (Some (DecoderObject f i e b)) = [b, i, f, e]"
| "part_pointers _ = []"

fun is_state_object :: "cell option \<Rightarrow> bool" where
  "is_state_object (Some (StateObject _ _ _)) = True"
| "is_state_object _ = False"

fun is_decoder_object :: "cell option \<Rightarrow> bool" where
  "is_decoder_object (Some (DecoderObject _ _ _ _)) = True"
| "is_decoder_object _ = False"

definition fixed_objects :: "owner \<Rightarrow> nat list" where
  "fixed_objects t =
     [o_bp_manager t, o_ap_manager t, o_decode_cache t] @
     part_pointers (cells (o_heap t) (o_decoder t)) @ [o_decoder t] @
     part_pointers (cells (o_heap t) (o_state t)) @ [o_state t]"

definition owned_objects :: "owner \<Rightarrow> nat list" where
  "owned_objects t = opt_list (o_semihost t) @ fixed_objects t @ opt_list (o_watcher t) @ [o_memory t]"

lemma RiscVState_delete_list:
  "is_state_object (cells h p) \<Longrightarrow> RiscVState_delete p h = delete_list (part_pointers (cells h p) @ [p]) h"
  by (cases "cells h p" rule: is_state_object.cases)
    (simp_all only: RiscVState_delete_def part_pointers.simps delete_object_list delete_at_list
      delete_list_append bind_assoc option.case cell.case is_state_object.simps)

lemma RiscV32Decoder_delete_list:
  "is_decoder_object (cells h p) \<Longrightarrow>
   RiscV32Decoder_delete p h = delete_list (part_pointers (cells h p) @ [p]) h"
  by (cases "cells h p" rule: is_decoder_object.cases)
    (auto simp: RiscV32Decoder_delete_def Option.bind_def delete_list_append split: option.split)

definition owner_inv :: "nat \<Rightarrow> owner \<Rightarrow> bool" where
  "owner_inv n t \<longleftrightarrow>
     is_state_object (cells (o_heap t) (o_state t)) \<and> is_decoder_object (cells (o_heap t) (o_decoder t)) \<and>
     distinct (opt_list (o_run_halted t) @ owned_objects t) \<and>
     set (opt_list (o_run_halted t) @ owned_objects t) \<subseteq> dom (cells (o_heap t)) \<and>
     dom (cells (o_heap t)) \<subseteq> {..<next_address (o_heap t)} \<and>
     card (dom (cells (o_heap t))) = length (opt_list (o_run_halted t) @ owned_objects t) + n \<and>
     (o_watcher t = None \<longleftrightarrow> o_semihost t = None)"

lemma new_inv: "owner_inv 0 (RV32ITop_new \<lparr>cells = Map.empty, next_address = 0\<rparr>)"
  by (simp add: owner_inv_def RV32ITop_new_def RiscVState_new_def RiscV32Decoder_new_def new_object_def
      owned_objects_def fixed_objects_def Let_def lessThan_def)

lemma bind_eq: "(\<And>h. x = Some h \<Longrightarrow> f h = g h) \<Longrightarrow> Option.bind x f = Option.bind x g"
  by (cases x) auto

lemma RV32ITop_delete_list:
  assumes "owner_inv n t"
  shows "RV32ITop_delete t =
    delete_list ((if o_status t = Run_kRunning then opt_list (o_run_halted t) else []) @ owned_objects t)
      (o_heap t)"
proof -
  define rh where "rh = (if o_status t = Run_kRunning then opt_list (o_run_halted t) else [])"
  define a where "a = rh @ opt_list (o_semihost t) @ [o_bp_manager t, o_ap_manager t, o_decode_cache t]"
  let ?dec = "part_pointers (cells (o_heap t) (o_decoder t)) @ [o_decoder t]"
  let ?st = "part_pointers (cells (o_heap t) (o_state t)) @ [o_state t]"
  let ?k = "delete_list (opt_list (o_watcher t) @ [o_memory t])"
  have kinds: "is_state_object (cells (o_heap t) (o_state t))"
      "is_decoder_object (cells (o_heap t) (o_decoder t))"
    and "distinct (opt_list (o_run_halted t) @ owned_objects t)"
    using assms unfolding owner_inv_def by blast+
  then have "distinct (a @ ?dec @ ?st @ opt_list (o_watcher t) @ [o_memory t])"
    unfolding owned_objects_def fixed_objects_def a_def rh_def append_assoc
    by (cases "o_status t = Run_kRunning")
      (simp_all only: if_True if_False distinct_append append_Nil simp_thms)
  then have dec: "o_decoder t \<notin> set a" and st: "o_state t \<notin> set (a @ ?dec)"
    by auto
  have D: "RiscV32Decoder_delete (o_decoder t) h = delete_list ?dec h" if "delete_list a (o_heap t) = Some h" for h
    using RiscV32Decoder_delete_list [of h "o_decoder t"] delete_list_other [OF that dec] kinds by simp
  have S: "RiscVState_delete (o_state t) h = delete_list ?st h"
    if "delete_list (a @ ?dec) (o_heap t) = Some h" for h
    using RiscVState_delete_list [of h "o_state t"] delete_list_other [OF that st] kinds by simp
  have list3: "[x, y, z] = [x] @ [y] @ [z]" for x y z :: nat by simp
  have rh: "(if o_status t = Run_kRunning then delete_object (o_run_halted t) (o_heap t) else Some (o_heap t)) =
      delete_list rh (o_heap t)"
    by (simp add: rh_def delete_object_list)
  have "RV32ITop_delete t = do {
      h \<leftarrow> delete_list a (o_heap t); h \<leftarrow> RiscV32Decoder_delete (o_decoder t) h;
      h \<leftarrow> RiscVState_delete (o_state t) h; delete_list (opt_list (o_watcher t) @ [o_memory t]) h }"
    unfolding RV32ITop_delete_def rh a_def list3 [of "o_bp_manager t"]
    by (simp only: delete_object_list delete_at_list delete_list_append bind_assoc)
  also have "\<dots> = delete_list (a @ ?dec @ ?st @ opt_list (o_watcher t) @ [o_memory t]) (o_heap t)"
    unfolding delete_list_append [of a] delete_list_append [of ?dec] delete_list_append [of ?st]
  proof (rule bind_eq)
    fix h assume h: "delete_list a (o_heap t) = Some h"
    show "Option.bind (RiscV32Decoder_delete (o_decoder t) h) (\<lambda>h. Option.bind (RiscVState_delete (o_state t) h) ?k) =
        Option.bind (delete_list ?dec h) (\<lambda>h. Option.bind (delete_list ?st h) ?k)"
      unfolding D [OF h]
      by (rule bind_eq, subst S) (simp_all only: delete_list_append h bind.simps)
  qed
  finally show ?thesis by (simp add: a_def rh_def owned_objects_def fixed_objects_def)
qed

lemma delete_owned:
  assumes "distinct (rh @ ow)" "set (rh @ ow) \<subseteq> dom (cells h)" "finite (dom (cells h))"
    and "card (dom (cells h)) = length (rh @ ow) + n"
  shows "\<exists>h'. delete_list ((if b then rh else []) @ ow) h = Some h' \<and>
    card (dom (cells h')) = n + (if b then 0 else length rh) \<and> finite (dom (cells h'))"
proof -
  let ?ps = "(if b then rh else []) @ ow"
  have ps: "distinct ?ps" "set ?ps \<subseteq> dom (cells h)" using assms(1,2) by auto
  have dom: "dom (cells h |` (- set ?ps)) = dom (cells h) - set ?ps"
    by (auto simp: dom_def restrict_map_def split: if_splits)
  have "card (dom (cells h |` (- set ?ps))) = length (rh @ ow) + n - card (set ?ps)"
    unfolding dom assms(4) [symmetric] using ps(2) by (intro card_Diff_subset) auto
  also have "card (set ?ps) = length ?ps" by (rule distinct_card [OF ps(1)])
  finally show ?thesis using delete_list_ok [OF ps] assms(3) by simp
qed

lemma RV32ITop_delete_heap:
  assumes "owner_inv n t"
  shows "\<exists>h'. RV32ITop_delete t = Some h' \<and>
    card (dom (cells h')) = n + (if o_status t = Run_kRunning then 0 else length (opt_list (o_run_halted t))) \<and>
    finite (dom (cells h'))"
  unfolding RV32ITop_delete_list [OF assms]
proof (rule delete_owned)
  show "finite (dom (cells (o_heap t)))"
    using assms finite_subset [of _ "{..<next_address (o_heap t)}"] unfolding owner_inv_def by blast
qed (use assms in \<open>unfold owner_inv_def, blast+\<close>)

lemma fixed_objects_in: "o_decoder t \<in> set (fixed_objects t)" "o_state t \<in> set (fixed_objects t)"
  by (simp_all add: fixed_objects_def)

lemma fixed_objects_eq:
  assumes "cells h (o_decoder t) = cells (o_heap t) (o_decoder t)" "cells h (o_state t) = cells (o_heap t) (o_state t)"
  shows "fixed_objects (t\<lparr>o_heap := h, o_watcher := w, o_semihost := s\<rparr>) = fixed_objects t"
    and "fixed_objects (t\<lparr>o_heap := h, o_status := rs, o_run_halted := n\<rparr>) = fixed_objects t"
  using assms by (simp_all add: fixed_objects_def)

lemma set_up_inv:
  assumes inv: "owner_inv n t" and halted: "o_status t = Run_kHalted"
  shows "\<exists>t'. owner_step Set_up_semihosting t = Some t' \<and> owner_inv (n + loses Set_up_semihosting t) t'"
proof -
  let ?h = "o_heap t" let ?a = "next_address ?h"
  let ?c = "(cells ?h)(?a \<mapsto> MemoryWatcherObject, Suc ?a \<mapsto> SemiHostObject)"
  let ?g = "?h\<lparr>cells := ?c, next_address := Suc (Suc ?a)\<rparr>"
  have below: "dom (cells ?h) \<subseteq> {..<?a}" and own: "set (opt_list (o_run_halted t) @ owned_objects t) \<subseteq> dom (cells ?h)"
    and dis: "distinct (opt_list (o_run_halted t) @ owned_objects t)"
    and card: "card (dom (cells ?h)) = length (opt_list (o_run_halted t) @ owned_objects t) + n"
    and both: "o_watcher t = None \<longleftrightarrow> o_semihost t = None"
    using inv unfolding owner_inv_def by blast+
  have fin: "finite (dom (cells ?h))" by (rule finite_subset [OF below]) simp
  have new: "?a \<notin> dom (cells ?h)" "Suc ?a \<notin> dom (cells ?h)" using below by auto
  have fixed: "set (fixed_objects t) \<subseteq> dom (cells ?h)" using own by (simp add: owned_objects_def)
  then have same: "?c (o_decoder t) = cells ?h (o_decoder t)" "?c (o_state t) = cells ?h (o_state t)"
    using new fixed_objects_in [of t] by (auto simp: fun_upd_apply)
  have dom: "dom ?c = insert (Suc ?a) (insert ?a (dom (cells ?h)))" by auto
  have "card (dom ?c) = Suc (Suc (card (dom (cells ?h))))" unfolding dom using fin new by simp
  moreover have "dom ?c \<subseteq> {..<Suc (Suc ?a)}" unfolding dom using below by auto
  moreover have "owner_step Set_up_semihosting t =
      Some (t\<lparr>o_heap := ?g, o_watcher := Some ?a, o_semihost := Some (Suc ?a)\<rparr>)"
    using halted by (simp add: new_object_def)
  moreover have "fixed_objects (t\<lparr>o_heap := ?g, o_watcher := Some ?a, o_semihost := Some (Suc ?a)\<rparr>) = fixed_objects t"
    using same by (intro fixed_objects_eq) simp_all
  ultimately show ?thesis
    using inv own dis card both new halted same unfolding owner_inv_def owned_objects_def
    by (auto simp: dom split: option.splits)
qed

lemma run_inv:
  assumes inv: "owner_inv n t" and idle: "o_status t \<noteq> Run_kRunning"
  shows "\<exists>t'. owner_step Run_call t = Some t' \<and> owner_inv (n + loses Run_call t) t'"
proof -
  let ?h = "o_heap t" let ?a = "next_address ?h"
  let ?c = "(cells ?h)(?a \<mapsto> NotificationObject)"
  let ?g = "?h\<lparr>cells := ?c, next_address := Suc ?a\<rparr>"
  have below: "dom (cells ?h) \<subseteq> {..<?a}" and own: "set (opt_list (o_run_halted t) @ owned_objects t) \<subseteq> dom (cells ?h)"
    and dis: "distinct (opt_list (o_run_halted t) @ owned_objects t)"
    and card: "card (dom (cells ?h)) = length (opt_list (o_run_halted t) @ owned_objects t) + n"
    using inv unfolding owner_inv_def by blast+
  have fin: "finite (dom (cells ?h))" by (rule finite_subset [OF below]) simp
  have new: "?a \<notin> dom (cells ?h)" using below by auto
  have fixed: "set (fixed_objects t) \<subseteq> dom (cells ?h)" using own by (simp add: owned_objects_def)
  then have same: "?c (o_decoder t) = cells ?h (o_decoder t)" "?c (o_state t) = cells ?h (o_state t)"
    using new fixed_objects_in [of t] by (auto simp: fun_upd_apply)
  have "card (dom ?c) = Suc (card (dom (cells ?h)))" using fin new by simp
  moreover have "owner_step Run_call t =
      Some (t\<lparr>o_heap := ?g, o_status := Run_kRunning, o_run_halted := Some ?a\<rparr>)"
    using idle by (simp add: new_object_def)
  moreover have "fixed_objects (t\<lparr>o_heap := ?g, o_status := Run_kRunning, o_run_halted := Some ?a\<rparr>) = fixed_objects t"
    using same by (intro fixed_objects_eq) simp_all
  moreover have "dom ?c \<subseteq> {..<Suc ?a}" using below by auto
  ultimately show ?thesis
    using inv own dis card new idle same unfolding owner_inv_def owned_objects_def
    by (auto split: option.splits)
qed

lemma wait_inv:
  assumes inv: "owner_inv n t"
  shows "\<exists>t'. owner_step Wait_call t = Some t' \<and> owner_inv n t'"
proof (cases "o_run_halted t")
  case None
  then show ?thesis using inv by (simp add: owner_inv_def owned_objects_def fixed_objects_def delete_object_def)
next
  case (Some p)
  let ?h = "o_heap t"
  let ?g = "?h\<lparr>cells := (cells ?h)(p := None)\<rparr>"
  let ?rs = "if o_status t = Run_kRunning then Run_kHalted else o_status t"
  let ?t = "t\<lparr>o_heap := ?g, o_status := ?rs, o_run_halted := None\<rparr>"
  have own: "set (p # owned_objects t) \<subseteq> dom (cells ?h)" and dis: "distinct (p # owned_objects t)"
    and card: "card (dom (cells ?h)) = length (p # owned_objects t) + n"
    using inv Some unfolding owner_inv_def by (simp_all del: distinct.simps)
  have "set (fixed_objects t) \<subseteq> set (owned_objects t)" by (auto simp: owned_objects_def)
  then have same: "cells ?g (o_decoder t) = cells ?h (o_decoder t)" "cells ?g (o_state t) = cells ?h (o_state t)"
    using dis fixed_objects_in [of t] by (auto simp: fun_upd_apply)
  have "fixed_objects (t\<lparr>o_heap := ?g, o_status := ?rs, o_run_halted := None\<rparr>) = fixed_objects t"
    using same by (intro fixed_objects_eq) simp_all
  moreover have "owner_step Wait_call t =
      Some (t\<lparr>o_heap := ?g, o_status := ?rs, o_run_halted := None\<rparr>)"
    using own Some by (auto simp: delete_object_def delete_at_def)
  moreover from calculation(1) have eq: "owned_objects ?t = owned_objects t" by (simp add: owned_objects_def)
  have "owner_inv n ?t"
    unfolding owner_inv_def eq
  proof (intro conjI)
    have "dom (cells ?g) = dom (cells ?h) - {p}" by auto
    then show "card (dom (cells (o_heap ?t))) = length (opt_list (o_run_halted ?t) @ owned_objects t) + n"
      using card own by simp
  qed (use inv own dis same Some in \<open>auto simp: owner_inv_def\<close>)
  ultimately show ?thesis by blast
qed

lemma owner_step_inv:
  assumes "owner_inv n t"
  shows "\<exists>t'. owner_step e t = Some t' \<and> owner_inv (n + loses e t) t'"
proof (cases e)
  case Set_up_semihosting
  then show ?thesis using assms set_up_inv [OF assms] by (cases "o_status t = Run_kHalted") simp_all
next
  case Run_call
  then show ?thesis using assms run_inv [OF assms] by (cases "o_status t = Run_kRunning") simp_all
next
  case Thread_end
  then show ?thesis using assms by (simp add: owner_inv_def owned_objects_def fixed_objects_def)
next
  case Wait_call
  then show ?thesis using wait_inv [OF assms] by simp
next
  case (Step_call fails)
  then show ?thesis using assms by (simp add: owner_inv_def owned_objects_def fixed_objects_def)
qed

lemma owner_run_inv:
  "owner_inv n t \<Longrightarrow> \<exists>t'. owner_run es t = Some t' \<and> owner_inv (n + lost es t) t'"
proof (induction es arbitrary: n t)
  case (Cons e es)
  obtain t' where t': "owner_step e t = Some t'" "owner_inv (n + loses e t) t'"
    using owner_step_inv [OF Cons.prems] by blast
  show ?case using Cons.IH [OF t'(2)] t'(1) by (auto simp: add.assoc)
qed simp

section \<open>Nothing is deleted twice, and what is left\<close>

abbreviation new_simulator :: owner where
  "new_simulator \<equiv> RV32ITop_new \<lparr>cells = Map.empty, next_address = 0\<rparr>"

text \<open>Semihosting set up at most once, and every \<open>Run\<close> waited for before the next one.\<close>

fun waited_for :: "bool \<Rightarrow> bool \<Rightarrow> owner_event list \<Rightarrow> bool" where
  "waited_for hosted waiting [] \<longleftrightarrow> \<not> waiting"
| "waited_for hosted waiting (Set_up_semihosting # es) \<longleftrightarrow> \<not> hosted \<and> waited_for True waiting es"
| "waited_for hosted waiting (Run_call # es) \<longleftrightarrow> \<not> waiting \<and> waited_for hosted True es"
| "waited_for hosted waiting (Thread_end # es) \<longleftrightarrow> waited_for hosted waiting es"
| "waited_for hosted waiting (Wait_call # es) \<longleftrightarrow> waited_for hosted False es"
| "waited_for hosted waiting (Step_call fails # es) \<longleftrightarrow> waited_for hosted waiting es"

lemma waited_for_loses_nothing:
  "waited_for s r es \<Longrightarrow> (o_watcher t = None \<or> s) \<Longrightarrow> (o_run_halted t = None \<or> r) \<Longrightarrow>
   owner_run es t = Some t' \<Longrightarrow> lost es t = 0 \<and> o_run_halted t' = None"
proof (induction s r es arbitrary: t rule: waited_for.induct)
  case (2 hosted waiting es)
  obtain t1 where t1: "owner_step Set_up_semihosting t = Some t1" "o_run_halted t1 = o_run_halted t"
      "owner_run es t1 = Some t'"
    using 2(5) by (cases "o_status t = Run_kHalted") (auto simp: new_object_def)
  with 2(1) [of t1] 2(2-4) show ?case by (auto simp del: owner_step.simps)
next
  case (3 hosted waiting es)
  obtain t1 where t1: "owner_step Run_call t = Some t1" "o_watcher t1 = o_watcher t" "owner_run es t1 = Some t'"
    using 3(5) by (cases "o_status t = Run_kRunning") (auto simp: new_object_def)
  with 3(1) [of t1] 3(2-4) show ?case by (auto simp del: owner_step.simps)
next
  case (4 hosted waiting es)
  with 4(1) [of "t\<lparr>o_status := Run_kHalted\<rparr>"] 4(1) [of t] show ?case by (simp split: if_splits)
next
  case (5 hosted waiting es)
  obtain t1 where t1: "owner_step Wait_call t = Some t1" "o_watcher t1 = o_watcher t" "o_run_halted t1 = None"
      "owner_run es t1 = Some t'"
    using 5(5) by (cases "delete_object (o_run_halted t) (o_heap t)") auto
  with 5(1) [of t1] 5(2,3) show ?case by (auto simp del: owner_step.simps)
next
  case (6 hosted waiting fails es)
  with 6(1) [of "t\<lparr>o_status := Run_kSingleStep\<rparr>"] 6(1) [of t] show ?case by (simp split: if_splits)
qed simp

lemma owner_safe:
  "\<exists>t h'. owner_run es new_simulator = Some t \<and> RV32ITop_delete t = Some h' \<and>
     card (dom (cells h')) = lost es new_simulator + (if o_status t \<noteq> Run_kRunning \<and> o_run_halted t \<noteq> None then 1 else 0) \<and>
     (waited_for False False es \<longrightarrow> cells h' = Map.empty)"
proof -
  from owner_run_inv [OF new_inv] obtain t where
    t: "owner_run es new_simulator = Some t" "owner_inv (lost es new_simulator) t" by auto
  from RV32ITop_delete_heap [OF t(2)] obtain h' where h': "RV32ITop_delete t = Some h'"
    "card (dom (cells h')) = lost es new_simulator +
       (if o_status t = Run_kRunning then 0 else length (opt_list (o_run_halted t)))"
    "finite (dom (cells h'))" by blast
  have "cells h' = Map.empty" if "waited_for False False es"
  proof -
    have "lost es new_simulator = 0 \<and> o_run_halted t = None"
      by (rule waited_for_loses_nothing [OF that _ _ t(1)]) (simp_all add: RV32ITop_new_def Let_def case_prod_beta)
    then show ?thesis using h'(2,3) by (simp split: if_splits)
  qed
  then show ?thesis using t(1) h'(1,2) by (cases "o_run_halted t") auto
qed

end
