(* ===== verification/Ownership_Calls.thy ===== *)
theory Ownership_Calls
  imports Ownership Session_Runs
begin

text \<open>
  \<open>Ownership\<close> follows the pointers, \<open>Top\<close> and \<open>Debug_Interface\<close> the computation: whatever calls a
  simulator has seen, some events make the pointers what those calls make them.
\<close>

definition owns :: "owner \<Rightarrow> 'x top \<Rightarrow> bool" where
  "owns p t \<longleftrightarrow>
     o_status p = run_status t \<and> (o_run_halted p = None \<longleftrightarrow> run_halted t = None) \<and>
     (o_semihost p = None \<longleftrightarrow> \<not> semihosting t)"

section \<open>What calls do to the members with pointers\<close>

definition same_pointers :: "'x top \<Rightarrow> 'x top \<Rightarrow> bool" where
  "same_pointers t t' \<longleftrightarrow>
     run_status t' = run_status t \<and> run_halted t' = run_halted t \<and> semihosting t' = semihosting t"

lemma same_pointers_owns: "same_pointers t t' \<Longrightarrow> owns p t \<Longrightarrow> owns p t'"
  by (simp add: same_pointers_def owns_def)

lemma control_same_pointers: "control_same t t' \<Longrightarrow> same_pointers t t'"
  by (simp add: control_same_def same_pointers_def)

lemma same_pointers_refl [simp]: "same_pointers t t"
  by (simp add: same_pointers_def)

lemma same_pointers_trans: "same_pointers t u \<Longrightarrow> same_pointers u v \<Longrightarrow> same_pointers t v"
  by (simp add: same_pointers_def)

lemma same_pointers_env [simp]:
  "same_pointers t (map_env f u) = same_pointers t u" "same_pointers t (set_ext x u) = same_pointers t u"
  "same_pointers t (set_halt_reason r u) = same_pointers t u" "same_pointers t (set_halted b u) = same_pointers t u"
  "same_pointers t (set_register_bytes r' bs u) = same_pointers t u"
  by (simp_all add: same_pointers_def map_env_def set_ext_def set_halt_reason_def set_halted_def
      set_register_bytes_def)

lemma debug_calls_pointers:
  "WriteRegister name v t = (st, t') \<Longrightarrow> same_pointers t t'"
  "ReadMemory H a n t = (mr, t') \<Longrightarrow> same_pointers t t'"
  "WriteMemory H a bs t = (mw, t') \<Longrightarrow> same_pointers t t'"
  "SetSwBreakpoint H a t = (st, t') \<Longrightarrow> same_pointers t t'"
  "ClearSwBreakpoint H a t = (st, t') \<Longrightarrow> same_pointers t t'"
  "ClearAllSwBreakpoints H t = (st, t') \<Longrightarrow> same_pointers t t'"
  "Halt t = (st, t') \<Longrightarrow> same_pointers t t'"
  by (auto simp: WriteRegister_def ReadMemory_def WriteMemory_def SetSwBreakpoint_def ClearSwBreakpoint_def
      ClearAllSwBreakpoints_def Halt_def Let_def case_prod_beta split: if_splits option.splits)

lemma decode_pointers: "GetDecodedInstruction lib H a t = (inst, t') \<Longrightarrow> same_pointers t t'"
  by (rule control_same_pointers [OF GetDecodedInstruction_frame(1)])

lemma disassembly_pointers: "GetDisassembly lib H a t = (d, t') \<Longrightarrow> same_pointers t t'"
proof (cases "run_status t = Run_kHalted \<and> h_IsBreakpoint H a (ext (t_env t))")
  case False
  then show "GetDisassembly lib H a t = (d, t') \<Longrightarrow> same_pointers t t'"
    by (auto simp: GetDisassembly_def dest: decode_pointers split: if_splits prod.splits)
next
  case True
  assume g: "GetDisassembly lib H a t = (d, t')"
  obtain st x where d: "h_DisableBreakpoint H a (ext (t_env t)) = (st, x)" by fastforce
  obtain inst u where u: "GetDecodedInstruction lib H a (set_ext x t) = (inst, u)" by fastforce
  have "same_pointers t u" using same_pointers_trans [OF _ decode_pointers [OF u], of t] by simp
  then show ?thesis
    using g True by (auto simp: GetDisassembly_def d u Let_def case_prod_beta intro: same_pointers_trans split: if_splits)
qed

lemma step_rest_pointers:
  assumes "step_rest lib H num count t = Some (r, t')"
  shows "same_pointers (t\<lparr>run_status := Run_kHalted\<rparr>) t'"
proof -
  obtain count' pc' d' p' t1 where l:
    "step_loop lib H (nat (num - count)) count None (db_id (pc_data_buffer t), db_get32 (pc_data_buffer t), t) =
       Some (count', pc', d', p', t1)"
    "t' = (if \<not> halted (t_env (set_pc_value p' (t1\<lparr>previous_pc := pc'\<rparr>)))
           then set_halt_reason Halt_kNone (set_pc_value p' (t1\<lparr>previous_pc := pc'\<rparr>))
           else set_pc_value p' (t1\<lparr>previous_pc := pc'\<rparr>))\<lparr>run_status := Run_kHalted\<rparr>"
    using assms by (auto simp: step_rest_def Let_def bind_eq_Some_conv)
  from step_loop_counts [OF l(1)] have "control_same t t1" by blast
  then show ?thesis
    by (simp add: l(2) same_pointers_def control_same_def set_halt_reason_def map_env_def set_pc_value_def)
qed

lemma Step_pointers:
  assumes "Step lib H num t = Some (r, t')"
  shows "same_pointers t t' \<or>
    run_status t = Run_kHalted \<and> same_pointers (t\<lparr>run_status := Run_kSingleStep\<rparr>) t'"
proof (cases "num \<le> 0 \<or> run_status t \<noteq> Run_kHalted")
  case True
  then show ?thesis using assms by (auto simp: Step_def split: if_splits)
next
  case False
  let ?t0 = "set_halted False (t\<lparr>run_status := Run_kSingleStep\<rparr>)"
  have t0: "same_pointers (t\<lparr>run_status := Run_kSingleStep\<rparr>) ?t0" by simp
  have ended: "same_pointers t t'" if "step_rest lib H num n u = Some (r, t')"
      "same_pointers (t\<lparr>run_status := Run_kSingleStep\<rparr>) u" for n u
    using step_rest_pointers [OF that(1)] that(2) False by (simp add: same_pointers_def)
  show ?thesis
  proof (cases "halt_reason (t_env ?t0) = Halt_kSoftwareBreakpoint")
    case F: False
    then show ?thesis using assms False ended [OF _ t0] by (simp add: Step_def Let_def)
  next
    case True
    then obtain a t1 where a: "step_over_breakpoint lib H ?t0 = Some (a, t1)"
      "(case a of Inl st \<Rightarrow> Some (Inl st, t1) | Inr _ \<Rightarrow> step_rest lib H num 1 t1) = Some (r, t')"
      using assms False by (auto simp: Step_def Let_def bind_eq_Some_conv)
    have "same_pointers (t\<lparr>run_status := Run_kSingleStep\<rparr>) t1"
      using same_pointers_trans [OF t0 control_same_pointers [OF step_over_breakpoint_counts(1) [OF a(1)]]] .
    then show ?thesis using a(2) ended [of 1 t1] False by (cases a) auto
  qed
qed

lemma Run_pointers:
  assumes "Run lib H t = Some (st, t')"
  shows "same_pointers t t' \<or> run_status t \<noteq> Run_kRunning \<and>
    same_pointers (t\<lparr>run_status := Run_kRunning, run_halted := Some False\<rparr>) t'"
proof (cases "run_status t = Run_kRunning \<or> halt_reason (t_env t) \<noteq> Halt_kSoftwareBreakpoint")
  case True
  then show ?thesis
    using assms by (cases "run_status t = Run_kRunning") (auto simp: Run_def same_pointers_def set_halted_def map_env_def)
next
  case False
  then obtain a t1 where a: "step_over_breakpoint lib H t = Some (a, t1)"
    "(case a of Inl st \<Rightarrow> Some (st, t1)
      | Inr _ \<Rightarrow> Some (OkStatus, (set_halted False (t1\<lparr>run_status := Run_kRunning\<rparr>))\<lparr>run_halted := Some False\<rparr>)) =
     Some (st, t')"
    using assms by (auto simp: Run_def bind_eq_Some_conv)
  note s = control_same_pointers [OF step_over_breakpoint_counts(1) [OF a(1)]]
  then show ?thesis
    using a(2) False by (cases a) (auto simp: same_pointers_def set_halted_def map_env_def)
qed

lemma thread_pointers:
  assumes "run_thread lib H fuel t = Some t'"
  shows "run_status t' = Run_kHalted" "run_halted t' = None \<longleftrightarrow> run_halted t = None" "semihosting t' = semihosting t"
proof -
  obtain pc' d' p' t1 where l: "run_loop lib H fuel None (db_id (pc_data_buffer t), db_get32 (pc_data_buffer t), t) =
      Some (pc', d', p', t1)" "run_halted t1 = Some False"
    "t' = (set_pc_value p' (t1\<lparr>previous_pc := pc'\<rparr>))\<lparr>run_status := Run_kHalted, run_halted := Some True\<rparr>"
    using assms by (auto simp: run_thread_Some)
  from run_loop_control [OF l(1)]
  show "run_status t' = Run_kHalted" "run_halted t' = None \<longleftrightarrow> run_halted t = None" "semihosting t' = semihosting t"
    using l(2) by (auto simp: l(3) control_same_def set_pc_value_def dest: sym)
qed

section \<open>The events of a simulator's life\<close>

context core
begin

lemma call_owned:
  assumes c: "call lib H t t'" and ok: "core_ok H t" and o: "owns p t" and inv: "owner_inv n p"
  shows "\<exists>e p'. (owner_step e p = Some p' \<or> p' = p) \<and> owns p' t'"
  using c
proof cases
  case (call_Step num r)
  show ?thesis
  proof (cases "same_pointers t t'")
    case True
    then show ?thesis using o same_pointers_owns by blast
  next
    case False
    then have "owner_step (Step_call True) p = Some (p\<lparr>o_status := Run_kSingleStep\<rparr>) \<and>
        owns (p\<lparr>o_status := Run_kSingleStep\<rparr>) t'"
      using Step_pointers [OF call_Step] o by (auto simp: owns_def same_pointers_def)
    then show ?thesis by blast
  qed
next
  case (call_Run st)
  show ?thesis
  proof (cases "same_pointers t t'")
    case True
    then show ?thesis using o same_pointers_owns by blast
  next
    case False
    then have "\<exists>p'. owner_step Run_call p = Some p' \<and> owns p' t'"
      using Run_pointers [OF call_Run] o by (auto simp: owns_def same_pointers_def new_object_def)
    then show ?thesis by blast
  qed
next
  case (thread_end fuel)
  then have "owner_step Thread_end p = Some (p\<lparr>o_status := Run_kHalted\<rparr>) \<and> owns (p\<lparr>o_status := Run_kHalted\<rparr>) t'"
    using o thread_pointers [OF thread_end(2)] by (simp add: owns_def)
  then show ?thesis by blast
next
  case (call_Wait st)
  obtain p' where p': "owner_step Wait_call p = Some p'" using owner_step_inv [OF inv] by blast
  then have "owns p' t'" using call_Wait ok o by (auto simp: owns_def Wait_def core_ok_def split: if_splits)
  then show ?thesis using p' by blast
next
  case (call_SetUpSemiHosting magic st)
  have "\<exists>p'. owner_step Set_up_semihosting p = Some p' \<and> owns p' t'"
    using call_SetUpSemiHosting o
    by (auto simp: SetUpSemiHosting_def owns_def new_object_def set_ext_def map_env_def split: if_splits)
  then show ?thesis by blast
qed (use o in \<open>auto dest!: debug_calls_pointers disassembly_pointers decode_pointers simp: GetInstruction_def
  dest: same_pointers_owns\<close>)

lemma owner_run_snoc:
  "owner_run es p = Some q \<Longrightarrow> owner_run (es @ [e]) p = owner_step e q"
proof (induction es arbitrary: p)
  case Nil
  then show ?case by (cases "owner_step e q") simp_all
next
  case (Cons a es)
  then show ?case by (cases "owner_step a p") simp_all
qed

lemma reachable_owner:
  "reachable lib H t \<Longrightarrow> \<exists>es p. owner_run es new_simulator = Some p \<and> owns p t"
proof (induction rule: reachable.induct)
  case (constructed_top x)
  have "owner_run [] new_simulator = Some new_simulator \<and> owns new_simulator (RV32ITop_ctor lib H x)"
    by (simp add: owns_def RV32ITop_new_def RV32ITop_ctor_def Let_def case_prod_beta)
  then show ?case by blast
next
  case (called t t')
  then obtain es p where p: "owner_run es new_simulator = Some p" "owns p t" by blast
  obtain n where "owner_inv n p" using owner_run_inv [OF new_inv, of es] p(1) by auto
  from call_owned [OF called.hyps(2) reachable_ok [OF called.hyps(1)] p(2) this] obtain e p' where
    "owner_step e p = Some p' \<or> p' = p" "owns p' t'" by blast
  then show ?case using p(1) owner_run_snoc [OF p(1), of e] by metis
qed

end

end
