(* ===== verification/Load_Context.thy ===== *)
theory Load_Context
  imports Prelude "HOL-Library.AList" "HOL-Library.Monad_Syntax"
begin

text \<open>
  The lifetime of the buffer a load fills: \<^verbatim>\<open>LoadContext\<close> (\<^verbatim>\<open>other/riscv_simple_state.h\<close>) and the
  allocations and \<^verbatim>\<open>DecRef\<close>s of \<^verbatim>\<open>LoadValue\<close>, \<^verbatim>\<open>LoadValueChild\<close> and \<^verbatim>\<open>StoreValue\<close>
  (\<^verbatim>\<open>rv32i_instructions.cc\<close>). The values these functions compute are modelled in \<open>Semantics\<close>; here it
  is who holds which object, when the memory may hold references of its own and execute the child
  instruction later.
\<close>

section \<open>Counted objects of the library\<close>

datatype counted = Buffer nat | Context nat

text \<open>
  The operations of data buffers and of the class \<^verbatim>\<open>ReferenceCount\<close>; \<open>None\<close> is using an object that
  is no longer there. \<open>k_DecRef\<close> also returns whether the count reached zero, in which case the
  virtual \<^verbatim>\<open>OnRefCountIsZero\<close> of the object runs; \<open>k_delete\<close> returns the storage of a context.
\<close>

record 'h counting =
  k_Allocate :: "nat \<Rightarrow> 'h \<Rightarrow> nat \<times> 'h"
  k_new :: "'h \<Rightarrow> nat \<times> 'h"
  k_IncRef :: "counted \<Rightarrow> 'h \<Rightarrow> 'h option"
  k_DecRef :: "counted \<Rightarrow> 'h \<Rightarrow> (bool \<times> 'h) option"
  k_delete :: "nat \<Rightarrow> 'h \<Rightarrow> 'h option"
  k_Get :: "nat \<Rightarrow> 'h \<Rightarrow> u8 list option"
  k_Set :: "nat \<Rightarrow> u8 list \<Rightarrow> 'h \<Rightarrow> 'h option"

section \<open>LoadContext\<close>

text \<open>The member \<open>value_db\<close> of every context; \<open>None\<close> is the null pointer.\<close>

record 'h load_heap =
  lib_heap :: 'h
  value_db :: "nat \<Rightarrow> nat option"

definition LoadContext_ctor :: "'h counting \<Rightarrow> nat \<Rightarrow> 'h load_heap \<Rightarrow> nat \<times> 'h load_heap" where
  "LoadContext_ctor K vdb s =
     (let (c, h) = k_new K (lib_heap s)
      in (c, s\<lparr>lib_heap := h, value_db := (value_db s)(c := Some vdb)\<rparr>))"

definition buffer_DecRef :: "'h counting \<Rightarrow> nat \<Rightarrow> 'h load_heap \<Rightarrow> 'h load_heap option" where
  "buffer_DecRef K db s = do {
     (zero, h) \<leftarrow> k_DecRef K (Buffer db) (lib_heap s);
     Some (s\<lparr>lib_heap := h\<rparr>)
   }"

definition LoadContext_dtor :: "'h counting \<Rightarrow> nat \<Rightarrow> 'h load_heap \<Rightarrow> 'h load_heap option" where
  "LoadContext_dtor K c s =
     (case value_db s c of Some db \<Rightarrow> buffer_DecRef K db s | None \<Rightarrow> Some s)"

text \<open>The base class deletes the object, which runs the destructor.\<close>

definition OnRefCountIsZero :: "'h counting \<Rightarrow> nat \<Rightarrow> 'h load_heap \<Rightarrow> 'h load_heap option" where
  "OnRefCountIsZero K c s = do {
     s \<leftarrow> (case value_db s c of Some db \<Rightarrow> buffer_DecRef K db s | None \<Rightarrow> Some s);
     let s = s\<lparr>value_db := (value_db s)(c := None)\<rparr>;
     s \<leftarrow> LoadContext_dtor K c s;
     h \<leftarrow> k_delete K c (lib_heap s);
     Some (s\<lparr>lib_heap := h\<rparr>)
   }"

definition context_DecRef :: "'h counting \<Rightarrow> nat \<Rightarrow> 'h load_heap \<Rightarrow> 'h load_heap option" where
  "context_DecRef K c s = do {
     (zero, h) \<leftarrow> k_DecRef K (Context c) (lib_heap s);
     let s = s\<lparr>lib_heap := h\<rparr>;
     if zero then OnRefCountIsZero K c s else Some s
   }"

section \<open>Loads and stores\<close>

text \<open>\<^verbatim>\<open>LoadValue\<close> up to its call of \<^verbatim>\<open>LoadMemory\<close>, and after it; what \<^verbatim>\<open>LoadValueChild\<close> reads.\<close>

definition LoadValue_begin :: "'h counting \<Rightarrow> nat \<Rightarrow> 'h load_heap \<Rightarrow> nat \<times> nat \<times> 'h load_heap" where
  "LoadValue_begin K n s =
     (let (db, h) = k_Allocate K n (lib_heap s);
          (context, s) = LoadContext_ctor K db (s\<lparr>lib_heap := h\<rparr>)
      in (db, context, s))"

definition LoadValue_end :: "'h counting \<Rightarrow> nat \<Rightarrow> 'h load_heap \<Rightarrow> 'h load_heap option" where
  "LoadValue_end K context s = context_DecRef K context s"

definition LoadValueChild_get :: "'h counting \<Rightarrow> nat \<Rightarrow> 'h load_heap \<Rightarrow> u8 list option" where
  "LoadValueChild_get K context s = do { db \<leftarrow> value_db s context; k_Get K db (lib_heap s) }"

text \<open>\<^verbatim>\<open>StoreValue\<close> up to its call of \<^verbatim>\<open>StoreMemory\<close>, and after it.\<close>

definition StoreValue_begin ::
  "'h counting \<Rightarrow> u8 list \<Rightarrow> 'h load_heap \<Rightarrow> (nat \<times> 'h load_heap) option" where
  "StoreValue_begin K bs s =
     (let (db, h) = k_Allocate K (length bs) (lib_heap s)
      in map_option (\<lambda>h. (db, s\<lparr>lib_heap := h\<rparr>)) (k_Set K db bs h))"

definition StoreValue_end :: "'h counting \<Rightarrow> nat \<Rightarrow> 'h load_heap \<Rightarrow> 'h load_heap option" where
  "StoreValue_end K db s = buffer_DecRef K db s"

section \<open>The memory during and after a load\<close>

text \<open>
  What can happen to the two objects of one load: the memory takes and drops references, fills the
  buffer, executes the child with the context; the call of \<^verbatim>\<open>LoadMemory\<close> returns. The memory acts on
  an object only during the call or while it holds a reference to it.
\<close>

datatype load_action =
  Take_buffer | Take_context | Drop_buffer | Drop_context | Fill "u8 list" | Child | Return

record 'h loading =
  objects :: "'h load_heap"
  in_call :: bool
  held_db :: nat
  held_ctx :: nat
  filled :: "u8 list option"
  child_saw :: "u8 list list"

fun allowed :: "load_action \<Rightarrow> 'h loading \<Rightarrow> bool" where
  "allowed Take_buffer l \<longleftrightarrow> in_call l \<or> 0 < held_db l"
| "allowed Take_context l \<longleftrightarrow> in_call l \<or> 0 < held_ctx l"
| "allowed Drop_buffer l \<longleftrightarrow> 0 < held_db l"
| "allowed Drop_context l \<longleftrightarrow> 0 < held_ctx l"
| "allowed (Fill bs) l \<longleftrightarrow> in_call l \<or> 0 < held_db l"
| "allowed Child l \<longleftrightarrow> in_call l \<or> 0 < held_ctx l"
| "allowed Return l \<longleftrightarrow> in_call l"

definition on_heap :: "('h \<Rightarrow> 'h option) \<Rightarrow> 'h loading \<Rightarrow> 'h loading option" where
  "on_heap f l = map_option (\<lambda>h. l\<lparr>objects := (objects l)\<lparr>lib_heap := h\<rparr>\<rparr>) (f (lib_heap (objects l)))"

definition on_objects :: "('h load_heap \<Rightarrow> 'h load_heap option) \<Rightarrow> 'h loading \<Rightarrow> 'h loading option" where
  "on_objects f l = map_option (\<lambda>s. l\<lparr>objects := s\<rparr>) (f (objects l))"

fun load_act :: "'h counting \<Rightarrow> nat \<Rightarrow> nat \<Rightarrow> load_action \<Rightarrow> 'h loading \<Rightarrow> 'h loading option" where
  "load_act K db c Take_buffer l =
     map_option (\<lambda>l. l\<lparr>held_db := held_db l + 1\<rparr>) (on_heap (k_IncRef K (Buffer db)) l)"
| "load_act K db c Take_context l =
     map_option (\<lambda>l. l\<lparr>held_ctx := held_ctx l + 1\<rparr>) (on_heap (k_IncRef K (Context c)) l)"
| "load_act K db c Drop_buffer l =
     map_option (\<lambda>l. l\<lparr>held_db := held_db l - 1\<rparr>) (on_objects (buffer_DecRef K db) l)"
| "load_act K db c Drop_context l =
     map_option (\<lambda>l. l\<lparr>held_ctx := held_ctx l - 1\<rparr>) (on_objects (context_DecRef K c) l)"
| "load_act K db c (Fill bs) l =
     map_option (\<lambda>l. l\<lparr>filled := Some bs\<rparr>) (on_heap (k_Set K db bs) l)"
| "load_act K db c Child l =
     map_option (\<lambda>bs. l\<lparr>child_saw := child_saw l @ [bs]\<rparr>) (LoadValueChild_get K c (objects l))"
| "load_act K db c Return l =
     map_option (\<lambda>l. l\<lparr>in_call := False\<rparr>) (on_objects (LoadValue_end K c) l)"

text \<open>A sequence of actions; one that is not allowed does not happen.\<close>

fun load_run ::
  "'h counting \<Rightarrow> nat \<Rightarrow> nat \<Rightarrow> load_action list \<Rightarrow> 'h loading \<Rightarrow> 'h loading option" where
  "load_run K db c [] l = Some l"
| "load_run K db c (a # as) l =
     (if allowed a l then Option.bind (load_act K db c a l) (load_run K db c as) else load_run K db c as l)"

definition load_start :: "'h load_heap \<Rightarrow> 'h loading" where
  "load_start s = \<lparr>objects = s, in_call = True, held_db = 0, held_ctx = 0, filled = None, child_saw = []\<rparr>"

section \<open>What the library documents\<close>

text \<open>\<open>refs\<close> is the count of an object, \<open>contexts\<close> the contexts whose storage is in use.\<close>

locale reference_counting =
  fixes K :: "'h counting" and refs :: "'h \<Rightarrow> counted \<Rightarrow> nat" and contexts :: "'h \<Rightarrow> nat set"
  assumes allocate: "k_Allocate K n h = (d, h') \<Longrightarrow>
      refs h (Buffer d) = 0 \<and> refs h' = (refs h)(Buffer d := 1) \<and> contexts h' = contexts h"
    and new_context: "k_new K h = (c, h') \<Longrightarrow>
      refs h (Context c) = 0 \<and> c \<notin> contexts h \<and> refs h' = (refs h)(Context c := 1) \<and>
      contexts h' = insert c (contexts h)"
    and inc: "0 < refs h ob \<Longrightarrow> \<exists>h'. k_IncRef K ob h = Some h' \<and>
      refs h' = (refs h)(ob := refs h ob + 1) \<and> contexts h' = contexts h \<and> k_Get K d h' = k_Get K d h"
    and dec: "0 < refs h ob \<Longrightarrow> \<exists>h'. k_DecRef K ob h = Some (refs h ob = 1, h') \<and>
      refs h' = (refs h)(ob := refs h ob - 1) \<and> contexts h' = contexts h \<and>
      (0 < refs h' (Buffer d) \<longrightarrow> k_Get K d h' = k_Get K d h)"
    and delete_context: "c \<in> contexts h \<Longrightarrow> refs h (Context c) = 0 \<Longrightarrow> \<exists>h'. k_delete K c h = Some h' \<and>
      refs h' = refs h \<and> contexts h' = contexts h - {c} \<and> k_Get K d h' = k_Get K d h"
    and get_live: "0 < refs h (Buffer d) \<Longrightarrow> k_Get K d h \<noteq> None"
    and set_live: "0 < refs h (Buffer d) \<Longrightarrow> \<exists>h'. k_Set K d bs h = Some h' \<and>
      refs h' = refs h \<and> contexts h' = contexts h \<and> k_Get K d h' = Some bs"
begin

section \<open>The invariant of a load\<close>

text \<open>\<open>s0\<close> is the heap before the load.\<close>

definition alive :: "'h loading \<Rightarrow> bool" where
  "alive l \<longleftrightarrow> in_call l \<or> 0 < held_ctx l"

definition load_inv :: "'h load_heap \<Rightarrow> nat \<Rightarrow> nat \<Rightarrow> 'h loading \<Rightarrow> bool" where
  "load_inv s0 db c l \<longleftrightarrow>
     (let h = lib_heap (objects l); h0 = lib_heap s0
      in refs h0 (Buffer db) = 0 \<and> refs h0 (Context c) = 0 \<and> c \<notin> contexts h0 \<and>
         refs h = (refs h0)(Context c := of_bool (in_call l) + held_ctx l,
                            Buffer db := of_bool (alive l) + held_db l) \<and>
         contexts h = (if alive l then insert c (contexts h0) else contexts h0) \<and>
         value_db (objects l) = (value_db s0)(c := if alive l then Some db else None) \<and>
         (\<forall>bs. filled l = Some bs \<longrightarrow> 0 < refs h (Buffer db) \<longrightarrow> k_Get K db h = Some bs))"

lemma alive_update [simp]:
  "alive (l\<lparr>objects := s\<rparr>) = alive l" "alive (l\<lparr>held_db := n\<rparr>) = alive l" "alive (l\<lparr>filled := f\<rparr>) = alive l"
  "alive (l\<lparr>child_saw := v\<rparr>) = alive l" "alive (l\<lparr>in_call := b, held_ctx := n\<rparr>) \<longleftrightarrow> b \<or> 0 < n"
  "alive (l\<lparr>held_ctx := Suc n\<rparr>)"
  by (simp_all add: alive_def)

lemma load_invD:
  assumes "load_inv s0 db c l"
  shows "refs (lib_heap s0) (Buffer db) = 0" "refs (lib_heap s0) (Context c) = 0" "c \<notin> contexts (lib_heap s0)"
    "refs (lib_heap (objects l)) = (refs (lib_heap s0))(Context c := of_bool (in_call l) + held_ctx l,
        Buffer db := of_bool (alive l) + held_db l)"
    "contexts (lib_heap (objects l)) = (if alive l then insert c (contexts (lib_heap s0)) else contexts (lib_heap s0))"
    "value_db (objects l) = (value_db s0)(c := if alive l then Some db else None)"
    "filled l = Some bs \<Longrightarrow> 0 < refs (lib_heap (objects l)) (Buffer db) \<Longrightarrow>
      k_Get K db (lib_heap (objects l)) = Some bs"
  using assms unfolding load_inv_def Let_def by blast+

lemma load_invI:
  assumes "refs (lib_heap s0) (Buffer db) = 0" "refs (lib_heap s0) (Context c) = 0" "c \<notin> contexts (lib_heap s0)"
    "refs (lib_heap (objects l)) = (refs (lib_heap s0))(Context c := of_bool (in_call l) + held_ctx l,
        Buffer db := of_bool (alive l) + held_db l)"
    "contexts (lib_heap (objects l)) = (if alive l then insert c (contexts (lib_heap s0)) else contexts (lib_heap s0))"
    "value_db (objects l) = (value_db s0)(c := if alive l then Some db else None)"
    "\<And>bs. filled l = Some bs \<Longrightarrow> 0 < refs (lib_heap (objects l)) (Buffer db) \<Longrightarrow>
      k_Get K db (lib_heap (objects l)) = Some bs"
  shows "load_inv s0 db c l"
  using assms unfolding load_inv_def Let_def by blast

lemma load_inv_start:
  assumes "LoadValue_begin K n s = (db, c, s')"
  shows "load_inv s db c (load_start s')"
proof -
  obtain h where h: "k_Allocate K n (lib_heap s) = (db, h)"
    using assms by (auto simp: LoadValue_begin_def LoadContext_ctor_def Let_def split: prod.splits)
  obtain h' where h': "k_new K h = (c, h')"
    using assms h by (auto simp: LoadValue_begin_def LoadContext_ctor_def Let_def split: prod.splits)
  have s': "s' = s\<lparr>lib_heap := h', value_db := (value_db s)(c := Some db)\<rparr>"
    using assms h h' by (simp add: LoadValue_begin_def LoadContext_ctor_def)
  show ?thesis
    using allocate [OF h] new_context [OF h']
    by (auto simp: load_inv_def load_start_def alive_def s' fun_eq_iff Let_def)
qed


lemma buffer_drop:
  assumes "0 < refs (lib_heap s) (Buffer db)"
  shows "\<exists>h. buffer_DecRef K db s = Some (s\<lparr>lib_heap := h\<rparr>) \<and>
    refs h = (refs (lib_heap s))(Buffer db := refs (lib_heap s) (Buffer db) - 1) \<and>
    contexts h = contexts (lib_heap s) \<and> (0 < refs h (Buffer d) \<longrightarrow> k_Get K d h = k_Get K d (lib_heap s))"
  using dec [OF assms, of d] by (auto simp: buffer_DecRef_def)

text \<open>The last reference to a context releases its buffer, once, and its storage.\<close>

lemma context_drop:
  assumes c: "0 < refs (lib_heap s) (Context c)" "c \<in> contexts (lib_heap s)" and v: "value_db s c = Some db"
    and db: "0 < refs (lib_heap s) (Buffer db)"
  shows "\<exists>s'. context_DecRef K c s = Some s' \<and>
    (if refs (lib_heap s) (Context c) = 1
     then refs (lib_heap s') = (refs (lib_heap s))(Context c := 0, Buffer db := refs (lib_heap s) (Buffer db) - 1) \<and>
       contexts (lib_heap s') = contexts (lib_heap s) - {c} \<and> value_db s' = (value_db s)(c := None)
     else refs (lib_heap s') = (refs (lib_heap s))(Context c := refs (lib_heap s) (Context c) - 1) \<and>
       contexts (lib_heap s') = contexts (lib_heap s) \<and> value_db s' = value_db s) \<and>
    (0 < refs (lib_heap s') (Buffer db) \<longrightarrow> k_Get K db (lib_heap s') = k_Get K db (lib_heap s))"
proof -
  from dec [OF c(1), of db] obtain h1 where h1:
    "k_DecRef K (Context c) (lib_heap s) = Some (refs (lib_heap s) (Context c) = 1, h1)"
    "refs h1 = (refs (lib_heap s))(Context c := refs (lib_heap s) (Context c) - 1)"
    "contexts h1 = contexts (lib_heap s)" "k_Get K db h1 = k_Get K db (lib_heap s)"
    using db by auto
  show ?thesis
  proof (cases "refs (lib_heap s) (Context c) = 1")
    case False
    then show ?thesis using h1 by (simp add: context_DecRef_def)
  next
    case True
    let ?s1 = "s\<lparr>lib_heap := h1\<rparr>"
    have "0 < refs (lib_heap ?s1) (Buffer db)" using db by (simp add: h1(2))
    from buffer_drop [OF this, of db] obtain h2 where h2: "buffer_DecRef K db ?s1 = Some (s\<lparr>lib_heap := h2\<rparr>)"
      "refs h2 = (refs h1)(Buffer db := refs h1 (Buffer db) - 1)" "contexts h2 = contexts h1"
      "0 < refs h2 (Buffer db) \<longrightarrow> k_Get K db h2 = k_Get K db h1"
      by auto
    have "c \<in> contexts h2" "refs h2 (Context c) = 0" using c(2) True by (simp_all add: h2(2,3) h1(2,3))
    from delete_context [OF this, of db] obtain h3 where h3: "k_delete K c h2 = Some h3" "refs h3 = refs h2"
      "contexts h3 = contexts h2 - {c}" "k_Get K db h3 = k_Get K db h2"
      by blast
    have "context_DecRef K c s = Some (s\<lparr>lib_heap := h3, value_db := (value_db s)(c := None)\<rparr>)"
      using True v by (simp add: context_DecRef_def h1(1) OnRefCountIsZero_def h2(1) LoadContext_dtor_def h3(1))
    then show ?thesis
      using True h1(2-4) h2(2-4) h3(2-4) by (simp add: fun_eq_iff)
  qed
qed

lemma load_inv_drop:
  assumes inv: "load_inv s0 db c l" and "alive l"
    and n: "of_bool (in_call l) + held_ctx l = Suc (of_bool b + n)"
  shows "\<exists>s'. context_DecRef K c (objects l) = Some s' \<and>
      load_inv s0 db c (l\<lparr>objects := s', in_call := b, held_ctx := n\<rparr>)"
proof -
  let ?h = "lib_heap (objects l)" and ?old = "lib_heap s0" and ?last = "\<not> b \<and> n = 0"
  note i0 = load_invD [OF inv]
  have i: "refs ?h = (refs ?old)(Context c := Suc (of_bool b + n), Buffer db := Suc (held_db l))"
    "contexts ?h = insert c (contexts ?old)" "value_db (objects l) = (value_db s0)(c := Some db)"
    unfolding i0(4-6) n using \<open>alive l\<close> by simp_all
  have one: "refs ?h (Context c) = 1 \<longleftrightarrow> ?last" by (simp add: i(1))
  have "0 < refs ?h (Context c)" "c \<in> contexts ?h" "value_db (objects l) c = Some db" "0 < refs ?h (Buffer db)"
    by (simp_all add: i)
  from context_drop [OF this] obtain s' where s': "context_DecRef K c (objects l) = Some s'"
    "if ?last then refs (lib_heap s') = (refs ?h)(Context c := 0, Buffer db := refs ?h (Buffer db) - 1) \<and>
         contexts (lib_heap s') = contexts ?h - {c} \<and> value_db s' = (value_db (objects l))(c := None)
       else refs (lib_heap s') = (refs ?h)(Context c := refs ?h (Context c) - 1) \<and>
         contexts (lib_heap s') = contexts ?h \<and> value_db s' = value_db (objects l)"
    "0 < refs (lib_heap s') (Buffer db) \<longrightarrow> k_Get K db (lib_heap s') = k_Get K db ?h"
    unfolding one by (elim exE conjE) (rule that)
  have "load_inv s0 db c (l\<lparr>objects := s', in_call := b, held_ctx := n\<rparr>)"
  proof (cases ?last)
    case True
    then show ?thesis using s'(2,3) i0(7) by (intro load_invI i0(1-3)) (auto simp: i i0(1-3))
  next
    case False
    then show ?thesis using s'(2,3) i0(7) by (intro load_invI i0(1-3)) (auto simp: i i0(1-3) fun_upd_twist)
  qed
  with s'(1) show ?thesis by blast
qed

lemma load_inv_act:
  assumes inv: "load_inv s0 db c l" and al: "allowed a l"
  shows "\<exists>l'. load_act K db c a l = Some l' \<and> load_inv s0 db c l'"
proof -
  let ?h = "lib_heap (objects l)"
  note i = load_invD [OF inv]
  note drop = load_inv_drop [OF inv]
  have heap: "load_inv s0 db c (l\<lparr>objects := (objects l)\<lparr>lib_heap := h\<rparr>, held_db := n, filled := f\<rparr>)"
    if "refs h = (refs ?h)(Buffer db := of_bool (alive l) + n)" "contexts h = contexts ?h"
      "\<And>bs. f = Some bs \<Longrightarrow> 0 < refs h (Buffer db) \<Longrightarrow> k_Get K db h = Some bs" for h n f
    by (rule load_invI) (use i(1-6) that in simp_all)
  show ?thesis
  proof (cases a)
    case Take_buffer
    then have b: "0 < refs ?h (Buffer db)" using al by (auto simp: i(4) alive_def)
    from inc [OF this, of db] obtain h where h: "k_IncRef K (Buffer db) ?h = Some h"
      "refs h = (refs ?h)(Buffer db := refs ?h (Buffer db) + 1)" "contexts h = contexts ?h" "k_Get K db h = k_Get K db ?h"
      by blast
    have "load_inv s0 db c (l\<lparr>objects := (objects l)\<lparr>lib_heap := h\<rparr>, held_db := held_db l + 1, filled := filled l\<rparr>)"
      by (rule heap) (use h b i(7) in \<open>simp_all add: i(4)\<close>)
    then show ?thesis using h(1) Take_buffer by (simp add: on_heap_def)
  next
    case Take_context
    then have c: "0 < refs ?h (Context c)" "alive l" using al by (auto simp: i(4) alive_def)
    from inc [OF c(1), of db] obtain h where h: "k_IncRef K (Context c) ?h = Some h"
      "refs h = (refs ?h)(Context c := refs ?h (Context c) + 1)" "contexts h = contexts ?h" "k_Get K db h = k_Get K db ?h"
      by blast
    have "load_inv s0 db c (l\<lparr>objects := (objects l)\<lparr>lib_heap := h\<rparr>, held_ctx := held_ctx l + 1\<rparr>)"
      by (rule load_invI) (use h c(2) i in \<open>simp_all add: fun_upd_twist\<close>)
    then show ?thesis using h(1) Take_context by (simp add: on_heap_def)
  next
    case Drop_buffer
    then have b: "0 < refs (lib_heap (objects l)) (Buffer db)" using al by (simp add: i(4))
    from buffer_drop [OF this, of db] obtain h where h: "buffer_DecRef K db (objects l) = Some ((objects l)\<lparr>lib_heap := h\<rparr>)"
      "refs h = (refs ?h)(Buffer db := refs ?h (Buffer db) - 1)" "contexts h = contexts ?h"
      "0 < refs h (Buffer db) \<longrightarrow> k_Get K db h = k_Get K db ?h"
      by (elim exE conjE) (rule that)
    have "load_inv s0 db c (l\<lparr>objects := (objects l)\<lparr>lib_heap := h\<rparr>, held_db := held_db l - 1, filled := filled l\<rparr>)"
      by (rule heap) (use h b i(7) al Drop_buffer in \<open>simp_all add: i(4)\<close>)
    then show ?thesis using h(1) Drop_buffer by (simp add: on_objects_def)
  next
    case (Fill bs)
    then have b: "0 < refs ?h (Buffer db)" using al by (auto simp: i(4) alive_def)
    from set_live [OF this, of bs] obtain h where h: "k_Set K db bs ?h = Some h" "refs h = refs ?h"
      "contexts h = contexts ?h" "k_Get K db h = Some bs"
      by blast
    have "load_inv s0 db c (l\<lparr>objects := (objects l)\<lparr>lib_heap := h\<rparr>, held_db := held_db l, filled := Some bs\<rparr>)"
      by (rule heap) (use h in \<open>simp_all add: i(4)\<close>)
    then show ?thesis using h(1) Fill by (simp add: on_heap_def)
  next
    case Child
    then have a: "alive l" using al by (simp add: alive_def)
    then have "0 < refs ?h (Buffer db)" "value_db (objects l) c = Some db" by (simp_all add: i(4,6))
    with get_live [of ?h db] obtain bs where g: "LoadValueChild_get K c (objects l) = Some bs"
      by (auto simp: LoadValueChild_get_def)
    have "load_inv s0 db c (l\<lparr>child_saw := child_saw l @ [bs]\<rparr>)"
      by (rule load_invI) (use i in simp_all)
    then show ?thesis using g Child by simp
  next
    case Drop_context
    then show ?thesis
      using drop [of "in_call l" "held_ctx l - 1"] al by (auto simp: on_objects_def alive_def)
  next
    case Return
    then show ?thesis
      using drop [of False "held_ctx l"] al by (auto simp: on_objects_def alive_def LoadValue_end_def)
  qed
qed


lemma load_inv_run: "load_inv s0 db c l \<Longrightarrow> \<exists>l'. load_run K db c as l = Some l' \<and> load_inv s0 db c l'"
proof (induction as arbitrary: l)
  case (Cons a as)
  show ?case
  proof (cases "allowed a l")
    case True
    from load_inv_act [OF Cons.prems this] Cons.IH show ?thesis using True by fastforce
  next
    case False
    then show ?thesis using Cons by simp
  qed
qed simp

text \<open>No sequence of actions uses an object that is gone; the child finds the bytes the memory
  filled in; and when the call has returned and the memory holds nothing, every object of the load
  has been released.\<close>

lemma load_safe:
  assumes "LoadValue_begin K n s = (db, c, s1)"
  shows "\<exists>l. load_run K db c as (load_start s1) = Some l \<and>
    (allowed Child l \<longrightarrow> (\<exists>bs. LoadValueChild_get K c (objects l) = Some bs \<and> (filled l = None \<or> filled l = Some bs))) \<and>
    (\<not> in_call l \<and> held_db l = 0 \<and> held_ctx l = 0 \<longrightarrow>
       refs (lib_heap (objects l)) = refs (lib_heap s) \<and> contexts (lib_heap (objects l)) = contexts (lib_heap s) \<and>
       value_db (objects l) c = None)"
proof -
  from load_inv_run [OF load_inv_start [OF assms], of as] obtain l where
    l: "load_run K db c as (load_start s1) = Some l" "load_inv s db c l" by blast
  note i = load_invD [OF l(2)]
  have A: "allowed Child l \<longrightarrow>
      (\<exists>bs. LoadValueChild_get K c (objects l) = Some bs \<and> (filled l = None \<or> filled l = Some bs))"
  proof
    assume "allowed Child l"
    then have "alive l" by (simp add: alive_def)
    then have b: "0 < refs (lib_heap (objects l)) (Buffer db)" "value_db (objects l) c = Some db"
      by (simp_all add: i(4,6))
    from get_live [OF b(1)] obtain bs where "k_Get K db (lib_heap (objects l)) = Some bs" by auto
    then show "\<exists>bs. LoadValueChild_get K c (objects l) = Some bs \<and> (filled l = None \<or> filled l = Some bs)"
      using b i(7) by (cases "filled l") (auto simp: LoadValueChild_get_def)
  qed
  have B: "refs (lib_heap (objects l)) = refs (lib_heap s) \<and> contexts (lib_heap (objects l)) = contexts (lib_heap s) \<and>
      value_db (objects l) c = None" if "\<not> in_call l" "held_db l = 0" "held_ctx l = 0"
  proof -
    have "\<not> alive l" using that by (simp add: alive_def)
    then have "refs (lib_heap (objects l)) = (refs (lib_heap s))(Context c := 0, Buffer db := 0)"
      unfolding i(4) using that by simp
    also have "\<dots> = refs (lib_heap s)" using i(1,2) by (intro ext) auto
    finally show ?thesis unfolding i(5,6) using \<open>\<not> alive l\<close> by simp
  qed
  show ?thesis by (intro exI [of _ l] conjI impI l(1) A [rule_format]) (simp_all add: B)
qed

text \<open>A store whose memory gives back what it took releases its buffer.\<close>

lemma store_safe:
  assumes m: "\<And>h. refs (M h) = refs h" "\<And>h. contexts (M h) = contexts h"
  shows "\<exists>db s1 s2. StoreValue_begin K bs s = Some (db, s1) \<and> k_Get K db (lib_heap s1) = Some bs \<and>
    StoreValue_end K db (s1\<lparr>lib_heap := M (lib_heap s1)\<rparr>) = Some s2 \<and>
    refs (lib_heap s2) = refs (lib_heap s) \<and> contexts (lib_heap s2) = contexts (lib_heap s)"
proof -
  obtain db h where h: "k_Allocate K (length bs) (lib_heap s) = (db, h)" by fastforce
  note a = allocate [OF h]
  then have "0 < refs h (Buffer db)" by simp
  from set_live [OF this, of bs] obtain h1 where h1: "k_Set K db bs h = Some h1" "refs h1 = refs h"
    "contexts h1 = contexts h" "k_Get K db h1 = Some bs"
    by blast
  let ?s = "s\<lparr>lib_heap := M h1\<rparr>"
  have "0 < refs (lib_heap ?s) (Buffer db)" by (simp add: m h1(2) a)
  from buffer_drop [OF this, of db] obtain h2 where h2: "buffer_DecRef K db ?s = Some (?s\<lparr>lib_heap := h2\<rparr>)"
    "refs h2 = (refs (M h1))(Buffer db := refs (M h1) (Buffer db) - 1)" "contexts h2 = contexts (M h1)"
    by auto
  have "refs h2 = refs (lib_heap s)"
    using a by (intro ext) (auto simp: h2(2) m h1(2))
  then show ?thesis
    using h h1 h2 a m by (simp add: StoreValue_begin_def StoreValue_end_def)
qed

end

section \<open>An implementation of the counts\<close>

text \<open>Counts and contents in association lists; a new object gets a number above all in use.\<close>

record count_heap =
  ch_refs :: "(counted \<times> nat) list"
  ch_contexts :: "nat list"
  ch_data :: "nat \<Rightarrow> u8 list"

definition ch_count :: "count_heap \<Rightarrow> counted \<Rightarrow> nat" where
  "ch_count h ob = (case map_of (ch_refs h) ob of None \<Rightarrow> 0 | Some n \<Rightarrow> n)"

definition ch_put :: "counted \<Rightarrow> nat \<Rightarrow> count_heap \<Rightarrow> count_heap" where
  "ch_put ob n h = h\<lparr>ch_refs := AList.update ob n (ch_refs h)\<rparr>"

fun counted_id :: "counted \<Rightarrow> nat" where
  "counted_id (Buffer n) = n"
| "counted_id (Context n) = n"

definition ch_fresh :: "count_heap \<Rightarrow> nat" where
  "ch_fresh h = Suc (Max (set (0 # map (counted_id \<circ> fst) (ch_refs h) @ ch_contexts h)))"

definition count_lib :: "count_heap counting" where
  "count_lib =
     \<lparr>k_Allocate = (\<lambda>n h. let d = ch_fresh h in (d, (ch_put (Buffer d) 1 h)\<lparr>ch_data := (ch_data h)(d := replicate n 0)\<rparr>)),
      k_new = (\<lambda>h. let c = ch_fresh h in (c, (ch_put (Context c) 1 h)\<lparr>ch_contexts := c # ch_contexts h\<rparr>)),
      k_IncRef = (\<lambda>ob h. if ch_count h ob = 0 then None else Some (ch_put ob (ch_count h ob + 1) h)),
      k_DecRef = (\<lambda>ob h. if ch_count h ob = 0 then None else Some (ch_count h ob = 1, ch_put ob (ch_count h ob - 1) h)),
      k_delete = (\<lambda>c h. if c \<in> set (ch_contexts h) then Some (h\<lparr>ch_contexts := removeAll c (ch_contexts h)\<rparr>) else None),
      k_Get = (\<lambda>d h. if ch_count h (Buffer d) = 0 then None else Some (ch_data h d)),
      k_Set = (\<lambda>d bs h. if ch_count h (Buffer d) = 0 then None else Some (h\<lparr>ch_data := (ch_data h)(d := bs)\<rparr>))\<rparr>"

lemma ch_put_simps [simp]:
  "ch_count (ch_put ob n h) = (ch_count h)(ob := n)" "ch_contexts (ch_put ob n h) = ch_contexts h"
  "ch_data (ch_put ob n h) = ch_data h" "ch_count (h\<lparr>ch_data := f\<rparr>) = ch_count h"
  "ch_count (h\<lparr>ch_contexts := cs\<rparr>) = ch_count h"
  by (auto simp: ch_count_def ch_put_def update_conv' fun_eq_iff)

lemma ch_fresh_new: "ch_count h ob = 0 \<and> ch_fresh h \<notin> set (ch_contexts h)" if "counted_id ob = ch_fresh h"
proof -
  have le: "x \<le> Max (set (0 # map (counted_id \<circ> fst) (ch_refs h) @ ch_contexts h))"
    if "x \<in> set (0 # map (counted_id \<circ> fst) (ch_refs h) @ ch_contexts h)" for x
    by (rule Max_ge) (use that in simp_all)
  have "ob \<notin> fst ` set (ch_refs h)"
  proof
    assume "ob \<in> fst ` set (ch_refs h)"
    then have "counted_id ob \<in> set (0 # map (counted_id \<circ> fst) (ch_refs h) @ ch_contexts h)" by auto
    from le [OF this] that show False by (simp add: ch_fresh_def)
  qed
  then have "map_of (ch_refs h) ob = None" by (simp add: map_of_eq_None_iff)
  moreover have "ch_fresh h \<notin> set (ch_contexts h)"
  proof
    assume "ch_fresh h \<in> set (ch_contexts h)"
    then have "ch_fresh h \<in> set (0 # map (counted_id \<circ> fst) (ch_refs h) @ ch_contexts h)" by simp
    from le [OF this] show False by (simp add: ch_fresh_def)
  qed
  ultimately show ?thesis by (simp add: ch_count_def)
qed

interpretation count_lib: reference_counting count_lib ch_count "\<lambda>h. set (ch_contexts h)"
proof unfold_locales
  fix n h d h'
  assume "k_Allocate count_lib n h = (d, h')"
  then have d: "d = ch_fresh h" "h' = (ch_put (Buffer d) 1 h)\<lparr>ch_data := (ch_data h)(d := replicate n 0)\<rparr>"
    by (auto simp: count_lib_def Let_def)
  then show "ch_count h (Buffer d) = 0 \<and> ch_count h' = (ch_count h)(Buffer d := 1) \<and>
      set (ch_contexts h') = set (ch_contexts h)"
    using ch_fresh_new [of "Buffer d" h] by simp
next
  fix h c h'
  assume "k_new count_lib h = (c, h')"
  then have c: "c = ch_fresh h" "h' = (ch_put (Context c) 1 h)\<lparr>ch_contexts := c # ch_contexts h\<rparr>"
    by (auto simp: count_lib_def Let_def)
  then show "ch_count h (Context c) = 0 \<and> c \<notin> set (ch_contexts h) \<and> ch_count h' = (ch_count h)(Context c := 1) \<and>
      set (ch_contexts h') = insert c (set (ch_contexts h))"
    using ch_fresh_new [of "Context c" h] by simp
qed (auto simp: count_lib_def)

end
