(* ===== verification/Lifetime_Properties.thy ===== *)
theory Lifetime_Properties
  imports Ownership_Calls Load_Context Reference_Session
begin

text \<open>Properties of the lifetimes of objects: the buffers of a load, the objects of a simulator.\<close>

section \<open>The objects of a load\<close>

text \<open>C20: With a library that counts references as documented, a load is safe whatever the memory
  does with the buffer and the context it was given: references taken and dropped, the buffer filled,
  the child executed during the call of \<^verbatim>\<open>LoadMemory\<close> or later. No sequence of these uses an object
  that is gone or releases one twice (\<open>load_run\<close> succeeds); whenever the child may run it finds the
  buffer, with the bytes last filled in; and once the call has returned and the memory holds no
  reference, the counts are those before the load and the context is gone.\<close>

theorem load_buffers_are_safe:
  assumes "reference_counting K refs contexts"
    and "LoadValue_begin K n s = (db, c, s1)"
  shows "\<exists>l. load_run K db c as (load_start s1) = Some l \<and>
    (allowed Child l \<longrightarrow>
       (\<exists>bs. LoadValueChild_get K c (objects l) = Some bs \<and> (filled l = None \<or> filled l = Some bs))) \<and>
    (\<not> in_call l \<and> held_db l = 0 \<and> held_ctx l = 0 \<longrightarrow>
       refs (lib_heap (objects l)) = refs (lib_heap s) \<and> contexts (lib_heap (objects l)) = contexts (lib_heap s) \<and>
       value_db (objects l) c = None)"
  using assms by (rule reference_counting.load_safe)

text \<open>A memory that answers after the call: it keeps both objects, fills the buffer and executes the child.\<close>

abbreviation empty_objects :: "count_heap load_heap" where
  "empty_objects \<equiv> \<lparr>lib_heap = \<lparr>ch_refs = [], ch_contexts = [], ch_data = (\<lambda>_. [])\<rparr>, value_db = Map.empty\<rparr>"

abbreviation late_answer :: "load_action list" where
  "late_answer \<equiv> [Take_buffer, Take_context, Return, Fill [1, 2], Child, Drop_context, Drop_buffer]"

lemma begin_on_empty:
  "LoadValue_begin count_lib 2 empty_objects =
     (1, 2, \<lparr>lib_heap = \<lparr>ch_refs = [(Buffer 1, 1), (Context 2, 1)], ch_contexts = [2],
                         ch_data = (\<lambda>_. [])(1 := [0, 0])\<rparr>,
             value_db = [2 \<mapsto> 1]\<rparr>)"
  by (simp add: LoadValue_begin_def LoadContext_ctor_def count_lib_def ch_fresh_def ch_put_def Let_def
      numeral_2_eq_2)

theorem load_buffers_are_safe_witness:
  "\<exists>l. load_run count_lib 1 2 late_answer (load_start (snd (snd (LoadValue_begin count_lib 2 empty_objects)))) = Some l \<and>
     child_saw l = [[1, 2]] \<and> \<not> in_call l \<and> ch_count (lib_heap (objects l)) = ch_count (lib_heap empty_objects) \<and>
     ch_contexts (lib_heap (objects l)) = []"
  using load_buffers_are_safe [OF count_lib.reference_counting_axioms begin_on_empty, of late_answer]
  unfolding begin_on_empty
  by (simp add: load_start_def on_heap_def on_objects_def count_lib_def ch_count_def ch_put_def
      LoadValue_end_def context_DecRef_def OnRefCountIsZero_def LoadContext_dtor_def buffer_DecRef_def
      LoadValueChild_get_def Let_def)

section \<open>The objects of a simulator\<close>

text \<open>C21: Whatever sequence of semihosting set-ups, runs, waits, steps and ends of runs a simulator
  sees between its constructor and its destructor, the destructor deletes only objects that are
  there, each once. What it leaves is exactly what the pointers lost on the way: a watcher and a
  semihosting object for every set-up after the first, the notification of every run that was not
  waited for. When semihosting is set up at most once and every run is waited for, nothing is left.
  Every state the calls of the interface reach is one of these.\<close>

theorem simulator_deletes_its_objects:
  assumes "core lib H"
  shows "(\<forall>es. \<exists>p h'. owner_run es new_simulator = Some p \<and> RV32ITop_delete p = Some h' \<and>
      card (dom (cells h')) =
        lost es new_simulator + (if o_status p \<noteq> Run_kRunning \<and> o_run_halted p \<noteq> None then 1 else 0) \<and>
      (waited_for False False es \<longrightarrow> cells h' = Map.empty)) \<and>
    (reachable lib H t \<longrightarrow> (\<exists>es p. owner_run es new_simulator = Some p \<and> o_status p = GetRunStatus t \<and>
      (o_run_halted p = None \<longleftrightarrow> run_halted t = None) \<and> (o_semihost p = None \<longleftrightarrow> \<not> semihosting t)))"
  using owner_safe core.reachable_owner [OF assms] by (auto simp: owns_def GetRunStatus_def)

text \<open>A program run with semihosting as \<^verbatim>\<open>main\<close> does, and one whose client sets it up twice.\<close>

theorem simulator_deletes_its_objects_witness:
  "(\<exists>t h'. owner_run [Set_up_semihosting, Run_call, Thread_end, Wait_call] new_simulator = Some t \<and>
     RV32ITop_delete t = Some h' \<and> cells h' = Map.empty) \<and>
   lost [Set_up_semihosting, Set_up_semihosting, Run_call, Thread_end, Run_call] new_simulator = 3 \<and>
   (\<exists>es p. owner_run es new_simulator = Some p \<and> o_status p = Run_kHalted \<and> o_semihost p = None)"
proof (intro conjI)
  show "\<exists>t h'. owner_run [Set_up_semihosting, Run_call, Thread_end, Wait_call] new_simulator = Some t \<and>
     RV32ITop_delete t = Some h' \<and> cells h' = Map.empty"
    using conjunct1 [OF simulator_deletes_its_objects [OF ref_core.core_axioms, of demo_top],
        THEN spec, of "[Set_up_semihosting, Run_call, Thread_end, Wait_call]"] by auto
  show "lost [Set_up_semihosting, Set_up_semihosting, Run_call, Thread_end, Run_call] new_simulator = 3"
    by (simp add: RV32ITop_new_def RiscVState_new_def RiscV32Decoder_new_def new_object_def Let_def)
  have "semihosting demo_top = False"
    by (simp add: demo_top_def RV32ITop_ctor_def Let_def case_prod_beta)
  then show "\<exists>es p. owner_run es new_simulator = Some p \<and> o_status p = Run_kHalted \<and> o_semihost p = None"
    using simulator_deletes_its_objects [OF ref_core.core_axioms, of demo_top] demo_reachable
    by (auto simp: GetRunStatus_def demo_constructed)
qed

end
