(* ===== verification/Exercises.thy ===== *)
theory Exercises
  imports Semantics
begin

text \<open>
  \<^verbatim>\<open>riscv_semantic_functions/rv32i_instructions.cc\<close> and \<^verbatim>\<open>zicsr_instructions.cc\<close>: the semantic
  functions as the codelab hands them out, before the exercises are done. The functions of exercises
  2 to 6 and the CSR functions have empty bodies; the others are those of the solution.
\<close>

text \<open>The CSR functions as handed out: empty bodies.\<close>

definition zicsr_start :: "instruction \<Rightarrow> 'e riscv_state \<Rightarrow> 'e riscv_state" where
  "zicsr_start inst s = s"

definition Execute_start :: "'e mpact \<Rightarrow> instruction \<Rightarrow> 'e riscv_state \<Rightarrow> 'e riscv_state option" where
  "Execute_start lib inst s =
     (case inst_semfunc inst of
        fn_RV32IllegalInstruction \<Rightarrow> Some (RV32IllegalInstruction lib inst s)
      | fn_RV32IFence \<Rightarrow> RV32IFence lib inst s
      | fn_RV32IEbreak \<Rightarrow> Some (RV32IEbreak inst s)
      | fn_RV32ZiCsrs \<Rightarrow> Some (zicsr_start inst s)
      | fn_RV32ZiCsrwNr \<Rightarrow> Some (zicsr_start inst s)
      | fn_RV32ZiCsrsNw \<Rightarrow> Some (zicsr_start inst s)
      | _ \<Rightarrow> Some s)"

definition exercise_functions :: "SemFunc list" where
  "exercise_functions =
     [fn_RV32IAdd, fn_RV32IAnd, fn_RV32IOr, fn_RV32ISll, fn_RV32ISltu, fn_RV32ISra, fn_RV32ISrl,
      fn_RV32ISub, fn_RV32IXor, fn_RV32ILui, fn_RV32IAuipc, fn_RV32IBeq, fn_RV32IBge, fn_RV32IBgeu,
      fn_RV32IBlt, fn_RV32IBltu, fn_RV32IBne, fn_RV32IJal, fn_RV32IJalr, fn_RV32ISb, fn_RV32ISh,
      fn_RV32ISw, fn_RV32ILb, fn_RV32ILbu, fn_RV32ILh, fn_RV32ILhu, fn_RV32ILw, fn_RV32ILbChild,
      fn_RV32ILbuChild, fn_RV32ILhChild, fn_RV32ILhuChild, fn_RV32ILwChild]"

text \<open>Outside the exercises the starting point does what the solution does; a function of an exercise
  does nothing, so a program of such instructions is a sequence of nops.\<close>

lemma start_agrees:
  "inst_semfunc inst \<notin> set exercise_functions \<Longrightarrow> Execute_start lib inst s = Execute lib mem inst s"
  by (cases "inst_semfunc inst")
    (simp_all add: Execute_start_def Execute_def exercise_functions_def RV32ZiCsrs_def RV32ZiCsrwNr_def
      RV32ZiCsrsNw_def zicsr_start_def)

lemma start_does_nothing:
  "inst_semfunc inst \<in> set exercise_functions \<Longrightarrow> Execute_start lib inst s = Some s"
  by (cases "inst_semfunc inst") (simp_all add: Execute_start_def exercise_functions_def)

end
