(* ===== verification/Spec2Isabelle.thy ===== *)
theory Spec2Isabelle
  imports Decoder_Properties Simulator_Properties Debug_Properties Session_Properties Sim_Properties
    Transparency_Properties Machine_Properties Lifetime_Properties Exercises
begin

text \<open>
  The RISC-V simulator of the MPACT-Sim codelabs: an instruction set simulator for RV32I, built
  on the MPACT-Sim library, from the decoder descriptions to the command line program.

  \<^bold>\<open>The program and its parts.\<close> \<^verbatim>\<open>main\<close> (\<^verbatim>\<open>other/rv32i_sim.cc\<close>) constructs the simulator
  \<^verbatim>\<open>RV32ITop\<close> (\<^verbatim>\<open>other/rv32i_top.cc\<close>), loads an ELF file into its memory, writes the entry point to
  the pc, sets up semihosting and either hands the simulator to a command shell or calls \<^verbatim>\<open>Run\<close> and
  \<^verbatim>\<open>Wait\<close>; a control-C handler calls \<^verbatim>\<open>Halt\<close>. \<^verbatim>\<open>RV32ITop\<close> owns the memory, the RISC-V state
  (\<^verbatim>\<open>other/riscv_simple_state.cc\<close>), the decoder (\<^verbatim>\<open>riscv_full_decoder/solution\<close>) with its cache and
  the breakpoint managers. An instruction is fetched by the decoder, given an opcode by the binary
  decoder (\<^verbatim>\<open>riscv_bin_decoder/solution/riscv32i.bin_fmt\<close>), turned into an instruction object by the
  tables of \<^verbatim>\<open>riscv_isa_decoder/solution/riscv32i.isa\<close> with the operands that
  \<^verbatim>\<open>riscv32i_encoding.cc\<close> makes, and executed by a semantic function
  (\<^verbatim>\<open>riscv_semantic_functions/solution\<close>) that reads and writes operands, memory and handlers.

  \<^bold>\<open>The theories that model code.\<close>
  \<^item> \<open>Bin_Decoder\<close>: formats and instruction group as data, \<open>DecodeRiscVInst32\<close> and the extractors.
  \<^item> \<open>Isa\<close>: opcodes, operands, latencies, semantic functions of \<^verbatim>\<open>riscv32i.isa\<close> (\<open>riscv32_op\<close>);
    \<open>Disassembly\<close>: its disassembly templates.
  \<^item> \<open>Mpact\<close>: data buffers, operands, instructions, the state record, and the library's functions
    as the records \<open>mpact\<close> and \<open>memory_if\<close>.
  \<^item> \<open>Arch_State\<close>: \<^verbatim>\<open>RiscVState\<close>: construction, registers, aliases, memory accesses (the overloads for
    vectors too), fences, handlers.
  \<^item> \<open>Encoding\<close>, \<open>Decoder\<close>: \<^verbatim>\<open>RiscV32IEncoding\<close> and \<^verbatim>\<open>RiscV32Decoder\<close>, with the generated decoder
    \<open>isa_Decode\<close> that walks the description.
  \<^item> \<open>Semantics\<close>: every semantic function; \<open>Execute\<close> dispatches to them. \<open>Exercises\<close>: the starting
    points the codelab hands out instead.
  \<^item> \<open>Top\<close>: \<^verbatim>\<open>RV32ITop\<close>: record \<open>top\<close> (\<open>top_env\<close> is what instructions reach: the external world, the
    halt flag and reason), constructor, \<open>Step\<close>, \<open>Run\<close>, its thread, \<open>Halt\<close>, \<open>Wait\<close>.
  \<^item> \<open>Debug_Interface\<close>: registers, memory, breakpoints, disassembly, semihosting set-up.
  \<^item> \<open>Session\<close>: the interleaving of a client, the control-C handler and the threads of \<open>Run\<close>, as a
    labelled step relation on the record \<open>session\<close>.
  \<^item> \<open>Schedules\<close>: \<^verbatim>\<open>main\<close> in \<open>Wait\<close> beside the thread of the run, in the order of a schedule (and that
    every schedule is a session). \<open>Sim_Main\<close>: \<^verbatim>\<open>main\<close>, the signal handler, \<open>GetMagicAddresses\<close>, file names, the destructor.
  \<^item> \<open>Load_Context\<close>: the lifetimes of the buffer and the \<^verbatim>\<open>LoadContext\<close> of a load (\<open>load_run\<close> is what
    a memory may do with them) and of the buffer of a store.
  \<^item> \<open>Ownership\<close>: what the constructors, \<^verbatim>\<open>Run\<close> and \<^verbatim>\<open>SetUpSemiHosting\<close> make with \<^verbatim>\<open>new\<close> and what \<^verbatim>\<open>Wait\<close> and
    the destructors delete, on a heap of objects; \<open>Ownership_Calls\<close> ties its events to the calls of \<open>Top\<close>.

  \<^bold>\<open>Conventions.\<close> Machine integers are \<open>8\<close>, \<open>32\<close> and \<open>64 word\<close> and wrap. \<open>None\<close> is undefined behaviour
  (a missing operand, an address taken from an indeterminate \<open>previous_pc\<close>, waiting for or notifying a
  null notification, notifying one twice), blocking forever or running out of fuel. One thing that C++
  leaves undefined is not counted: when a loop takes no turn, \<^verbatim>\<open>Step\<close> and the thread of \<^verbatim>\<open>Run\<close> copy the
  uninitialised variable \<^verbatim>\<open>pc\<close> to \<^verbatim>\<open>previous_pc_\<close>; the model copies an indeterminate value, \<open>previous_pc\<close>
  being \<open>None\<close>, and what uses it later fails. Errors of \<^verbatim>\<open>absl::Status\<close> are values. The library's objects act on an abstract
  world \<open>'x\<close> through the record \<open>host\<close>; nothing is assumed of them except in the locales.

  \<^bold>\<open>What is assumed of the library.\<close> \<open>mpact_operands\<close>: operands read and write register buffers, a
  write with latency 0 takes effect at once in a new buffer. \<open>mpact_registers\<close>: added registers are
  new objects of four bytes. \<open>mpact_memory\<close>, \<open>host_memory\<close>: memory is bytes; the decode cache returns
  what it was given or nothing. \<open>decode_cache\<close>: no operation puts other instructions into the cache.
  \<open>breakpoint_manager\<close>: enabling writes \<^verbatim>\<open>ebreak\<close>, disabling restores the word, both drop the cache
  entry; \<open>breakpoint_frame\<close>: the manager keeps the words it replaced and changes no other byte.
  \<open>halting\<close>: raising a program error sets no halt flag; in \<open>whole_machine\<close> and \<open>batch\<close> it changes
  neither the memory nor what the semihost watches. \<open>reference_counting\<close>: what \<^verbatim>\<open>IncRef\<close> and
  \<^verbatim>\<open>DecRef\<close> do to the counts. \<open>semihost_watcher\<close>: the semihost watches \<open>tohost\<close> and calls back when the program ends.
  \<open>Reference_Platform\<close> implements the platform and \<open>count_lib\<close> the counts; every locale is interpreted
  on them, and the concrete instances of the properties run on them (\<open>Reference_Session\<close>,
  \<open>Reference_Debug\<close>).

  \<^bold>\<open>What is proved.\<close>
  \<^item> Decoding (\<open>Codec\<close>, \<open>Word_Reader\<close>, \<open>Fetch\<close>, \<open>Decoder_Properties\<close>): tables well formed, entries
    disjoint, fields in range, decoding inverse to the manual's encoding, the object of every word
    executes; words of RV32I the decoder does not know.
  \<^item> Execution (\<open>RV32I_Spec\<close>, written from the manual; \<open>Execution\<close>, \<open>Register_File\<close>,
    \<open>Instruction_Refinement\<close>, \<open>Program_Refinement\<close>): one instruction, then any number of steps of a
    program, against the manual, for the instructions the decoder knows. \<open>jalr\<close> to an odd target is
    excluded, and the manual's exception for targets that are not multiples of four is not in the text
    (\<open>RV32I_Spec\<close>). The loop of \<open>Step\<close>
    is followed once, in the locale \<open>turns\<close>, for any machine whose steps a turn of the loop takes.
  \<^item> Every word (\<open>Machine\<close>, \<open>Machine_Properties\<close>): \<open>sim_exec\<close> says what the simulator does with any
    word, known to the manual or not; \<open>sim_step\<close> is the deterministic machine of any program, which
    contains \<open>rv_step\<close>, the steps of known instructions; \<open>sim_step_manual\<close> says exactly which of its steps
    those are. The six RV32I instructions the decoder does not know are skipped by it. \<open>Step\<close> runs it (\<open>whole_machine\<close>, a second instance of \<open>turns\<close>); a decode
    cache that holds the words of memory is part of its invariant \<open>sim_ok\<close>, and what happens without
    it is a property too.
  \<^item> Run control (\<open>Control\<close>, \<open>Construction\<close>, \<open>Reachable\<close>, \<open>Run_Thread\<close>, \<open>Breakpoints\<close>,
    \<open>Simulator_Properties\<close>): totality of \<open>Step\<close> and \<open>Run\<close>, counters, the invariant of all reachable
    states, \<open>Run\<close> as a long \<open>Step\<close>, breakpoints from setting them to resuming past them.
  \<^item> Debugging as a whole (\<open>Transparency\<close>, \<open>Debugging\<close>, \<open>Transparency_Properties\<close>): with breakpoints set
    and cleared, stepped and run over in any order, what the debugger shows is the program's own run.
    \<open>debug_abs\<close> takes the \<^verbatim>\<open>ebreak\<close> words out of the memory, \<open>user_step\<close> is a step of a program that
    neither reads nor writes its code, \<open>debugged\<close> the sequences of calls.
  \<^item> Debug interface (\<open>Debug_Library\<close>, \<open>Debug_Properties\<close>): round trips, refusals, error paths.
  \<^item> Concurrency (\<open>Session_Library\<close>, \<open>Session_Runs\<close>, \<open>Session_Properties\<close>): at most one thread
    executes and only while the run status says so; the notification is the only thing a step can
    fail at; how \<open>Run\<close> and \<open>Wait\<close> meet; a halt request ends a run within three turns; a run ends for a reason that is true
    (\<open>Halt_Reasons\<close>); schedules on which requests, notifications or instructions are lost, or an
    object is notified twice.
  \<^item> Lifetimes (\<open>Lifetime_Properties\<close>): no object of a load or of a simulator is used after it is gone
    or deleted twice; what is left over, exactly.
  \<^item> The program (\<open>Batch\<close>, \<open>Sim_Properties\<close>): a batch run of any program, from the command line to
    the counter file, on \<open>sim_step\<close>, under every schedule of \<^verbatim>\<open>main\<close> and the thread.

  \<^bold>\<open>Fuel.\<close> The loop of \<open>Step\<close> is bounded by its count. The thread of \<open>Run\<close> may run forever:
  \<open>run_loop\<close> takes the number of tests of the halt flag; \<open>run_loop_ends\<close> shows that \<open>n + 2\<close> are enough
  when the run of the machine ends its program after \<open>n + 1\<close> instructions, and in \<open>Session\<close> no fuel is used.
  \<open>sim_main\<close> takes a schedule instead; \<open>n + 5\<close> turns of the thread are enough in the same case, and
  \<open>main\<close> needs one turn after them.

  \<^bold>\<open>Not modelled.\<close> \<^verbatim>\<open>RiscVState::Trap\<close> (declared, not defined), the resource and predicate getters of
  the encoding (they return null and no part of the description asks for them), the rendering of the
  disassembly templates (generated code), the names and registration of the counters, the starting points
  of the decoder exercise (files without code), \<^verbatim>\<open>riscv_register.h\<close> (aliases of library templates), build
  files. The ELF loader, the shell, the watcher, the breakpoint manager, the decode cache and the
  protobuf printer are library code; so are the registers and instruction objects, whose deletion
  \<open>Ownership\<close> leaves out. A session interleaves whole accesses to the members of \<^verbatim>\<open>RV32ITop\<close> in one
  order that all threads see; the code declares these members without synchronisation, so a compiler
  may do worse. The test of the halt flag and the turn after it are one step of a session. A \<open>Halt\<close>
  that falls inside a turn is therefore not among the interleavings; it matters when the turn executes
  an \<^verbatim>\<open>ebreak\<close> at a breakpoint or a store that the semihost answers, which write the reason and the
  flag too. \<open>GetInstruction\<close>, which the code does not guard by the run status, is modelled for a
  halted core only. At most one
  call of \<open>Halt\<close> is interrupted at a time, and no store of it falls inside a call of the client.
\<close>

section \<open>Programs and instructions against the manual\<close>

text \<open>C1: the simulator runs RV32I programs. If the manual lets the program whose code is at the
  addresses \<open>C\<close> take \<open>n\<close> steps from the architectural state of a halted simulator, then \<open>Step n\<close>
  returns and has taken the first \<open>k\<close> of them, all \<open>n\<close> unless a halt was requested: the pc, the
  registers and the memory are those of the manual's run, \<open>k\<close> is the count returned and the number
  of instructions counted, and the simulator is ready to go on.\<close>

theorem step_refines_rv32i:
  assumes "mpact_operands lib" and "host_memory H xbytes"
    and "top_ok H xbytes (lib_default_size lib) C t" and "run_status t = Run_kHalted"
    and "GetLastHaltReason t \<noteq> Halt_kSoftwareBreakpoint" and "0 < n"
    and "(rv_step C ^^ n) (top_abs xbytes t) m"
  shows "\<exists>k t'. Step lib H (int n) t = Some (Inr (int k), t') \<and> 0 < k \<and> k \<le> n \<and>
    (k < n \<longrightarrow> halted (t_env t')) \<and> (rv_step C ^^ k) (top_abs xbytes t) (top_abs xbytes t') \<and>
    (k = n \<longrightarrow> top_abs xbytes t' = m) \<and>
    counter_num_instructions t' = counter_num_instructions t + of_nat k \<and>
    top_ok H xbytes (lib_default_size lib) C t' \<and> run_status t' = Run_kHalted"
proof -
  have nr: "halt_reason (t_env t) \<noteq> Halt_kSoftwareBreakpoint" using assms(5) by (simp add: GetLastHaltReason_def)
  from simulator.Step_simulates [OF simulator.intro [OF assms(1,2)] assms(3,4) nr assms(6,7)]
  show ?thesis using rv_step_run_det [OF assms(7)] by blast
qed

theorem step_refines_rv32i_witness:
  "\<exists>k t'. Step std_lib ref_host 3 demo_top = Some (Inr (int k), t') \<and> 0 < k \<and> k \<le> 3 \<and>
     (k < 3 \<longrightarrow> halted (t_env t')) \<and>
     (rv_step {0, 4, 8} ^^ k) (top_abs rw_mem demo_top) (top_abs rw_mem t')"
proof -
  obtain m where m: "(rv_step {0, 4, 8} ^^ 3) (top_abs rw_mem demo_top) m" using demo_run by blast
  have "GetLastHaltReason demo_top \<noteq> Halt_kSoftwareBreakpoint"
    by (simp add: GetLastHaltReason_def demo_constructed)
  from step_refines_rv32i [OF std.mpact_operands_axioms ref.host_memory_axioms demo_top_ok
      demo_constructed(7) this _ m]
  show ?thesis by auto
qed

text \<open>C3: fetching, decoding and executing one instruction does what the manual says. From any state
  whose memory holds the encoding of an instruction at the pc, the decoder makes an instruction
  object of the right opcode and size, and executing it changes the registers, the memory and the
  pc as the manual prescribes and nothing else of the state. \<open>jalr\<close> to an odd target is excluded.\<close>

theorem fetch_decode_execute:
  assumes "mpact_operands lib" and "mpact_memory mem h bytes" and "st_memory s = h" and "dec_memory dec = h"
    and "xregs_ok s" and "rv_word (rv_of bytes pc s) pc = encode i" and "jalr_even i (rv_of bytes pc s)"
  shows "\<exists>inst dec' s1 s2. DecodeInstruction lib mem dec (ucast pc) s = (inst, dec', s1) \<and>
    inst_address inst = ucast pc \<and> inst_opcode inst = opcode_of i \<and> inst_size inst = 4 \<and>
    Execute lib mem inst s1 = Some s2 \<and> same_frame s s2 \<and>
    rv_of bytes (next_pc pc 4 s s2) s2 = rv_exec i (rv_of bytes pc s)"
  using rv32_machine.fetch_and_execute [OF rv32_machine.intro [OF assms(1,2)] assms(3-7)] .

theorem fetch_decode_execute_witness:
  "\<exists>inst dec' s1 s2. DecodeInstruction std_lib (mem_of ref_host) (rv32_decoder demo_top) (ucast (0 :: u32))
       (state demo_top) = (inst, dec', s1) \<and> inst_opcode inst = kAddi \<and>
     Execute std_lib (mem_of ref_host) inst s1 = Some s2 \<and> xval s2 1 = 5"
proof -
  let ?m = "rv_of (\<lambda>e. rw_mem (ext e)) 0 (state demo_top)"
  have w: "rv_word ?m 0 = encode (OP_IMM I_ADDI 1 0 5)" by (rule demo_words) (simp add: demo_constructed)
  have ev: "jalr_even (OP_IMM I_ADDI 1 0 5) ?m" by simp
  from fetch_decode_execute [OF std.mpact_operands_axioms ref.flat.mpact_memory_axioms demo_constructed(3,10)
      demo_xregs_ok w ev]
  obtain inst dec' s1 s2 where r: "DecodeInstruction std_lib (mem_of ref_host) (rv32_decoder demo_top)
      (ucast (0 :: u32)) (state demo_top) = (inst, dec', s1)" "inst_opcode inst = kAddi"
    "Execute std_lib (mem_of ref_host) inst s1 = Some s2"
    "rv_of (\<lambda>e. rw_mem (ext e)) (next_pc 0 4 (state demo_top) s2) s2 = rv_exec (OP_IMM I_ADDI 1 0 5) ?m"
    by auto
  have "rv_x (rv_exec (OP_IMM I_ADDI 1 0 5) ?m) 1 = 5" by (simp add: rv_next_def rv_set_def xval_def)
  then have "xval s2 1 = 5" unfolding r(4) [symmetric] by simp
  then show ?thesis using r(1-3) by blast
qed

end
